(* ===== verification/Prelude.thy ===== *)
theory Prelude
  imports Complex_Main "HOL-Library.Char_ord" "HOL-Library.List_Lexorder"
begin

text \<open>
  Shared vocabulary of the development: JavaScript values as the services see them, string
  helpers of the JavaScript standard library, results that may be a thrown error, database tables
  as lists of rows, and the interface of a status machine.

  Strings are lists of 8-bit characters. \<open>js_trim\<close> and \<open>js_upper\<close> are JavaScript's
  \<open>trim\<close> and \<open>toUpperCase\<close> on ASCII text (code points above 127 are outside the model).
\<close>

named_theorems table_simps \<open>facts about rows, updates and lookups in tables\<close>

section \<open>JavaScript values\<close>

datatype jsnum = NaN | Inf bool | Fin rat

datatype json =
    JNull
  | JBool bool
  | JNum jsnum
  | JStr string
  | JArr "json list"
  | JObj "(string \<times> json) list"

fun truthy :: "json \<Rightarrow> bool" where
  "truthy JNull = False"
| "truthy (JBool b) = b"
| "truthy (JNum NaN) = False"
| "truthy (JNum (Inf s)) = True"
| "truthy (JNum (Fin q)) = (q \<noteq> 0)"
| "truthy (JStr s) = (s \<noteq> [])"
| "truthy (JArr xs) = True"
| "truthy (JObj ps) = True"

text \<open>\<open>typeof v === 'object'\<close>: true of null, arrays and objects.\<close>

fun typeof_object :: "json \<Rightarrow> bool" where
  "typeof_object JNull = True"
| "typeof_object (JArr xs) = True"
| "typeof_object (JObj ps) = True"
| "typeof_object v = False"

text \<open>Property read: \<open>None\<close> is \<open>undefined\<close>.\<close>

fun jget :: "json \<Rightarrow> string \<Rightarrow> json option" where
  "jget (JObj ps) k = map_of ps k"
| "jget v k = None"

text \<open>An object with no other properties than these: what \<open>forbidNonWhitelisted\<close> lets through.\<close>

definition only_props :: "string list \<Rightarrow> json \<Rightarrow> bool" where
  "only_props ks b = (case b of JObj ps \<Rightarrow> set (map fst ps) \<subseteq> set ks | _ \<Rightarrow> False)"

definition jnat :: "nat \<Rightarrow> json" where
  "jnat n = JNum (Fin (of_nat n))"

definition is_integer :: "jsnum \<Rightarrow> bool" where
  "is_integer x = (case x of Fin q \<Rightarrow> snd (quotient_of q) = 1 | _ \<Rightarrow> False)"

text \<open>\<open>a || d\<close> for an optional string: undefined and the empty string are falsy.\<close>

definition str_or :: "string option \<Rightarrow> string \<Rightarrow> string" where
  "str_or a d = (case a of None \<Rightarrow> d | Some s \<Rightarrow> if s = [] then d else s)"

definition str_or_opt :: "string option \<Rightarrow> string option \<Rightarrow> string option" where
  "str_or_opt a d = (case a of None \<Rightarrow> d | Some s \<Rightarrow> if s = [] then d else Some s)"

lemma str_or_simps [simp]:
  "str_or None d = d" "str_or (Some []) d = d" "s \<noteq> [] \<Longrightarrow> str_or (Some s) d = s"
  by (simp_all add: str_or_def)

lemma str_or_nonempty: "d \<noteq> [] \<Longrightarrow> str_or a d \<noteq> []"
  by (simp add: str_or_def split: option.split)

section \<open>Strings\<close>

definition js_ws :: "char \<Rightarrow> bool" where
  "js_ws c = (of_char c \<in> {9::nat, 10, 11, 12, 13, 32, 160})"

definition js_trim :: "string \<Rightarrow> string" where
  "js_trim s = rev (dropWhile js_ws (rev (dropWhile js_ws s)))"

definition js_upper_char :: "char \<Rightarrow> char" where
  "js_upper_char c =
     (if 97 \<le> (of_char c :: nat) \<and> (of_char c :: nat) \<le> 122 then char_of (of_char c - 32 :: nat) else c)"

definition js_upper :: "string \<Rightarrow> string" where
  "js_upper s = map js_upper_char s"

lemma js_trim_Nil_iff: "js_trim s = [] \<longleftrightarrow> (\<forall>c \<in> set s. js_ws c)"
  by (induction s) (auto simp: js_trim_def dropWhile_eq_Nil_conv)

lemma dropWhile_fixed: "xs = [] \<or> \<not> P (hd xs) \<Longrightarrow> dropWhile P xs = xs"
  by (cases xs) auto

lemma hd_rev_dropWhile_rev:
  assumes "xs \<noteq> []" "\<not> P (hd xs)"
  shows "rev (dropWhile P (rev xs)) \<noteq> [] \<and> hd (rev (dropWhile P (rev xs))) = hd xs"
proof -
  obtain x ys where xs: "xs = x # ys" "\<not> P x" using assms by (cases xs) auto
  have "dropWhile P (rev ys @ [x]) = dropWhile P (rev ys) @ [x]"
    using xs(2) by (induction ys rule: rev_induct) (auto simp: dropWhile_append3)
  then show ?thesis by (simp add: xs)
qed

lemma js_trim_idem [simp]: "js_trim (js_trim s) = js_trim s"
proof -
  let ?d = "dropWhile js_ws s"
  show ?thesis
  proof (cases "?d = []")
    case True
    show ?thesis unfolding js_trim_def by (simp only: True rev.simps dropWhile.simps)
  next
    case False
    then have h: "\<not> js_ws (hd ?d)" by (rule hd_dropWhile)
    let ?e = "rev (dropWhile js_ws (rev ?d))"
    have e: "?e \<noteq> []" "hd ?e = hd ?d" using hd_rev_dropWhile_rev [of ?d js_ws] False h by auto
    have 1: "dropWhile js_ws ?e = ?e" using e h by (intro dropWhile_fixed) simp
    have 2: "dropWhile js_ws (rev ?e) = rev ?e" by (simp add: dropWhile_idem)
    show ?thesis unfolding js_trim_def using 1 2 by simp
  qed
qed

text \<open>\<open>s.includes(t)\<close> and \<open>s.endsWith(t)\<close>.\<close>

fun js_startsWith :: "string \<Rightarrow> string \<Rightarrow> bool" where
  "js_startsWith s [] = True"
| "js_startsWith [] (c # cs) = False"
| "js_startsWith (d # ds) (c # cs) = (d = c \<and> js_startsWith ds cs)"

fun js_includes :: "string \<Rightarrow> string \<Rightarrow> bool" where
  "js_includes [] t = (t = [])"
| "js_includes (d # ds) t = (js_startsWith (d # ds) t \<or> js_includes ds t)"

definition js_endsWith :: "string \<Rightarrow> string \<Rightarrow> bool" where
  "js_endsWith s t = js_startsWith (rev s) (rev t)"

text \<open>The decimal rendering of a natural number, as in a template literal.\<close>

fun show_nat :: "nat \<Rightarrow> string" where
  "show_nat n = (if n < 10 then [char_of (48 + n)] else show_nat (n div 10) @ [char_of (48 + n mod 10)])"

declare show_nat.simps [simp del]

definition show_int :: "int \<Rightarrow> string" where
  "show_int n = (if n < 0 then CHR ''-'' # show_nat (nat (- n)) else show_nat (nat n))"

text \<open>\<open>s.split(',')\<close> and \<open>parseInt(s, 10)\<close>: leading blanks, a sign, then the longest run of digits.\<close>

fun js_split :: "char \<Rightarrow> string \<Rightarrow> string list" where
  "js_split d [] = [[]]"
| "js_split d (c # cs) =
     (if c = d then [] # js_split d cs
      else case js_split d cs of [] \<Rightarrow> [[c]] | w # ws \<Rightarrow> (c # w) # ws)"

definition js_digit :: "char \<Rightarrow> bool" where
  "js_digit c = (48 \<le> (of_char c :: nat) \<and> (of_char c :: nat) \<le> 57)"

definition digits_val :: "string \<Rightarrow> nat" where
  "digits_val ds = foldl (\<lambda>n c. 10 * n + (of_char c - 48)) 0 ds"

definition js_parseInt :: "string \<Rightarrow> jsnum" where
  "js_parseInt s =
     (let t = dropWhile js_ws s;
          neg = (t \<noteq> [] \<and> hd t = CHR ''-'');
          u = (if t \<noteq> [] \<and> (hd t = CHR ''-'' \<or> hd t = CHR ''+'') then tl t else t);
          ds = takeWhile js_digit u
      in if ds = [] then NaN
         else Fin (if neg then - of_nat (digits_val ds) else of_nat (digits_val ds)))"

text \<open>Parsing undoes rendering.\<close>

lemma of_char_digit: "n < 10 \<Longrightarrow> of_char (char_of (48 + n) :: char) = (48 + n :: nat)"
  by simp

lemma show_nat_digits: "(\<forall>c \<in> set (show_nat n). js_digit c) \<and> show_nat n \<noteq> []"
proof (induction n rule: show_nat.induct)
  case (1 n)
  then show ?case
    by (subst (1 2) show_nat.simps) (auto simp: js_digit_def of_char_digit)
qed

lemma digits_val_snoc: "digits_val (ds @ [c]) = 10 * digits_val ds + (of_char c - 48)"
  by (simp add: digits_val_def)

lemma digits_val_show: "digits_val (show_nat n) = n"
proof (induction n rule: show_nat.induct)
  case (1 n)
  show ?case
  proof (cases "n < 10")
    case True
    then show ?thesis by (subst show_nat.simps) (simp add: digits_val_def of_char_digit)
  next
    case False
    with 1 show ?thesis by (subst show_nat.simps) (simp add: digits_val_snoc of_char_digit)
  qed
qed

lemma js_digit_cases: "js_digit c \<Longrightarrow> \<not> js_ws c \<and> c \<noteq> CHR ''-'' \<and> c \<noteq> CHR ''+''"
  by (auto simp: js_digit_def js_ws_def)

lemma takeWhile_digits: "takeWhile js_digit (show_nat n) = show_nat n"
  using show_nat_digits by (simp add: takeWhile_eq_all_conv)

lemma parseInt_show_int: "js_parseInt (show_int n) = Fin (of_int n)"
proof -
  obtain c cs where c: "show_nat (nat \<bar>n\<bar>) = c # cs" "js_digit c"
    using show_nat_digits [of "nat \<bar>n\<bar>"] by (cases "show_nat (nat \<bar>n\<bar>)") auto
  have tw: "takeWhile js_digit (c # cs) = c # cs" "digits_val (c # cs) = nat \<bar>n\<bar>"
    using takeWhile_digits [of "nat \<bar>n\<bar>"] digits_val_show [of "nat \<bar>n\<bar>"] by (simp_all only: c(1))
  have cs: "takeWhile js_digit cs = cs" using tw(1) c(2) by (simp add: takeWhile_eq_all_conv)
  show ?thesis
  proof (cases "n < 0")
    case True
    then have "show_int n = CHR ''-'' # c # cs" using c(1) by (simp add: show_int_def)
    then show ?thesis using True tw(2) c(2) by (simp add: js_parseInt_def js_ws_def Let_def cs)
  next
    case False
    then have "show_int n = c # cs" using c(1) by (simp add: show_int_def)
    then show ?thesis using False tw(2) c(2) js_digit_cases [OF c(2)] by (simp add: js_parseInt_def Let_def cs)
  qed
qed
lemma show_int_nonempty [simp]: "show_int n \<noteq> []"
  using show_nat_digits by (simp add: show_int_def)

section \<open>Results\<close>

text \<open>A computation that may throw: \<open>Inl\<close> is the thrown error, \<open>Inr\<close> the value returned.\<close>

fun rbind :: "'e + 'a \<Rightarrow> ('a \<Rightarrow> 'e + 'b) \<Rightarrow> 'e + 'b" where
  "rbind (Inl e) f = Inl e"
| "rbind (Inr x) f = f x"

lemma rbind_split:
  "P (rbind m f) \<longleftrightarrow> (\<forall>e. m = Inl e \<longrightarrow> P (Inl e)) \<and> (\<forall>x. m = Inr x \<longrightarrow> P (f x))"
  by (cases m) auto

lemma rbind_split_asm:
  "P (rbind m f) \<longleftrightarrow> \<not> ((\<exists>e. m = Inl e \<and> \<not> P (Inl e)) \<or> (\<exists>x. m = Inr x \<and> \<not> P (f x)))"
  by (cases m) auto

lemmas rbind_splits = rbind_split rbind_split_asm

text \<open>\<open>array.map(f)\<close> with an \<open>f\<close> that may throw: the first throw ends the whole call.\<close>

fun rmap :: "('a \<Rightarrow> 'e + 'b) \<Rightarrow> 'a list \<Rightarrow> 'e + 'b list" where
  "rmap f [] = Inr []"
| "rmap f (x # xs) = rbind (f x) (\<lambda>y. rbind (rmap f xs) (\<lambda>ys. Inr (y # ys)))"

lemma rbind_Inr_iff: "rbind m f = Inr y \<longleftrightarrow> (\<exists>x. m = Inr x \<and> f x = Inr y)"
  by (cases m) auto

lemma rbind_Inl_iff: "rbind m f = Inl e \<longleftrightarrow> m = Inl e \<or> (\<exists>x. m = Inr x \<and> f x = Inl e)"
  by (cases m) auto

lemma rmap_Inr_iff: "rmap f xs = Inr ys \<longleftrightarrow> list_all2 (\<lambda>x y. f x = Inr y) xs ys"
  by (induction xs arbitrary: ys) (auto simp: list_all2_Cons1 rbind_Inr_iff)

lemma rmap_Inr_length: "rmap f xs = Inr ys \<Longrightarrow> length ys = length xs"
  by (auto simp: rmap_Inr_iff dest: list_all2_lengthD)

lemma rmap_Inl_ex: "(\<exists>e. rmap f xs = Inl e) \<longleftrightarrow> (\<exists>x \<in> set xs. \<exists>e. f x = Inl e)"
proof (induction xs)
  case Nil
  then show ?case by simp
next
  case (Cons x xs)
  show ?case
  proof (cases "f x")
    case (Inl e)
    then show ?thesis by auto
  next
    case (Inr y)
    with Cons.IH show ?thesis by (auto simp: rbind_Inl_iff)
  qed
qed

lemma rmap_map: "(\<And>x. x \<in> set xs \<Longrightarrow> f x = Inr (g x)) \<Longrightarrow> rmap f xs = Inr (map g xs)"
  by (induction xs) auto

lemma list_all2_ex1: "list_all2 P xs ys \<Longrightarrow> x \<in> set xs \<Longrightarrow> \<exists>y \<in> set ys. P x y"
  by (induction rule: list_all2_induct) auto

lemma list_all2_ex2: "list_all2 P xs ys \<Longrightarrow> y \<in> set ys \<Longrightarrow> \<exists>x \<in> set xs. P x y"
  by (induction rule: list_all2_induct) auto

section \<open>Stateful procedures\<close>

text \<open>
  An \<open>async\<close> method that reads and writes a state and may throw. What it did before a throw stays
  done. \<open>valid P m Q E\<close>: from a state with \<open>P\<close>, a return satisfies \<open>Q\<close> and a throw \<open>E\<close>.
\<close>

type_synonym ('s, 'e, 'a) proc = "'s \<Rightarrow> ('e + 'a) \<times> 's"

definition preturn :: "'a \<Rightarrow> ('s, 'e, 'a) proc" where "preturn x = (\<lambda>s. (Inr x, s))"
definition pthrow :: "'e \<Rightarrow> ('s, 'e, 'a) proc" where "pthrow e = (\<lambda>s. (Inl e, s))"

definition pbind :: "('s, 'e, 'a) proc \<Rightarrow> ('a \<Rightarrow> ('s, 'e, 'b) proc) \<Rightarrow> ('s, 'e, 'b) proc" where
  "pbind m f = (\<lambda>s. case m s of (Inl e, s') \<Rightarrow> (Inl e, s') | (Inr x, s') \<Rightarrow> f x s')"

definition pcatch :: "('s, 'e, 'a) proc \<Rightarrow> ('e \<Rightarrow> ('s, 'e, 'a) proc) \<Rightarrow> ('s, 'e, 'a) proc" where
  "pcatch m h = (\<lambda>s. case m s of (Inl e, s') \<Rightarrow> h e s' | (Inr x, s') \<Rightarrow> (Inr x, s'))"

definition valid :: "('s \<Rightarrow> bool) \<Rightarrow> ('s, 'e, 'a) proc \<Rightarrow> ('a \<Rightarrow> 's \<Rightarrow> bool) \<Rightarrow> ('e \<Rightarrow> 's \<Rightarrow> bool) \<Rightarrow> bool" where
  "valid P m Q E \<longleftrightarrow> (\<forall>s. P s \<longrightarrow> (case m s of (Inr x, s') \<Rightarrow> Q x s' | (Inl e, s') \<Rightarrow> E e s'))"

lemma valid_return: "(\<And>s. P s \<Longrightarrow> Q x s) \<Longrightarrow> valid P (preturn x) Q E"
  by (simp add: valid_def preturn_def)

lemma valid_throw: "(\<And>s. P s \<Longrightarrow> E e s) \<Longrightarrow> valid P (pthrow e) Q E"
  by (simp add: valid_def pthrow_def)

lemma valid_bind: "valid P m R E \<Longrightarrow> (\<And>x. valid (R x) (f x) Q E) \<Longrightarrow> valid P (pbind m f) Q E"
  by (fastforce simp: valid_def pbind_def split: prod.splits sum.splits)

lemma valid_catch: "valid P m Q F \<Longrightarrow> (\<And>e. valid (F e) (h e) Q E) \<Longrightarrow> valid P (pcatch m h) Q E"
  by (fastforce simp: valid_def pcatch_def split: prod.splits sum.splits)

lemma valid_weaken:
  "valid P' m Q' E' \<Longrightarrow> (\<And>s. P s \<Longrightarrow> P' s) \<Longrightarrow> (\<And>x s. Q' x s \<Longrightarrow> Q x s) \<Longrightarrow> (\<And>e s. E' e s \<Longrightarrow> E e s) \<Longrightarrow>
   valid P m Q E"
  by (fastforce simp: valid_def split: prod.splits sum.splits)

lemma validD: "valid P m Q E \<Longrightarrow> P s \<Longrightarrow> m s = (r, s') \<Longrightarrow> (case r of Inr x \<Rightarrow> Q x s' | Inl e \<Rightarrow> E e s')"
  by (fastforce simp: valid_def)

lemma valid_pre: "valid P' m Q E \<Longrightarrow> (\<And>s. P s \<Longrightarrow> P' s) \<Longrightarrow> valid P m Q E"
  by (simp add: valid_def)

lemma valid_if: "(c \<Longrightarrow> valid P m Q E) \<Longrightarrow> (\<not> c \<Longrightarrow> valid P n Q E) \<Longrightarrow> valid P (if c then m else n) Q E"
  by simp

lemma pbind_simps [simp]:
  "m s = (Inr x, s') \<Longrightarrow> pbind m f s = f x s'" "m s = (Inl e, s') \<Longrightarrow> pbind m f s = (Inl e, s')"
  by (simp_all add: pbind_def)

lemma pcatch_simps [simp]:
  "m s = (Inr x, s') \<Longrightarrow> pcatch m h s = (Inr x, s')" "m s = (Inl e, s') \<Longrightarrow> pcatch m h s = h e s'"
  by (simp_all add: pcatch_def)

lemma preturn_apply [simp]: "preturn x s = (Inr x, s)" and pthrow_apply [simp]: "pthrow e s = (Inl e, s)"
  by (simp_all add: preturn_def pthrow_def)

section \<open>Tables\<close>

text \<open>
  A table is the list of its rows in insertion order. \<open>find p t\<close> reads one row; \<open>tbl_upd p f t\<close>
  is \<open>UPDATE ... WHERE p\<close>.
\<close>

definition tbl_upd :: "('r \<Rightarrow> bool) \<Rightarrow> ('r \<Rightarrow> 'r) \<Rightarrow> 'r list \<Rightarrow> 'r list" where
  "tbl_upd p f t = map (\<lambda>r. if p r then f r else r) t"

definition tbl_count :: "('r \<Rightarrow> bool) \<Rightarrow> 'r list \<Rightarrow> nat" where
  "tbl_count p t = length (filter p t)"

lemma tbl_upd_Nil [simp]: "tbl_upd p f [] = []"
  and tbl_upd_Cons [simp]: "tbl_upd p f (r # t) = (if p r then f r else r) # tbl_upd p f t"
  and tbl_upd_append [simp]: "tbl_upd p f (t @ u) = tbl_upd p f t @ tbl_upd p f u"
  and length_tbl_upd [simp]: "length (tbl_upd p f t) = length t"
  by (simp_all add: tbl_upd_def)

lemma set_tbl_upd [table_simps]: "set (tbl_upd p f t) = (\<lambda>r. if p r then f r else r) ` set t"
  by (simp add: tbl_upd_def)

lemma map_tbl_upd [table_simps]:
  "(\<And>r. k (f r) = k r) \<Longrightarrow> map k (tbl_upd p f t) = map k t"
  by (simp add: tbl_upd_def)

lemma tbl_upd_none [table_simps]: "(\<And>r. r \<in> set t \<Longrightarrow> \<not> p r) \<Longrightarrow> tbl_upd p f t = t"
  by (induction t) auto

lemma find_tbl_upd [table_simps]:
  assumes "\<And>r. k (f r) = k r"
  shows "find (\<lambda>r. k r = x) (tbl_upd p f t) =
         map_option (\<lambda>r. if p r then f r else r) (find (\<lambda>r. k r = x) t)"
  using assms by (induction t) auto

lemma find_append: "find p (t @ u) = (case find p t of None \<Rightarrow> find p u | Some r \<Rightarrow> Some r)"
  by (induction t) auto

lemma find_SomeD: "find p t = Some r \<Longrightarrow> r \<in> set t \<and> p r"
  by (induction t) (auto split: if_splits)

lemma find_unique:
  "distinct (map k t) \<Longrightarrow> r \<in> set t \<Longrightarrow> find (\<lambda>x. k x = k r) t = Some r"
  by (induction t) (auto simp: image_iff)

lemma find_key_unique:
  "distinct (map k t) \<Longrightarrow> r \<in> set t \<Longrightarrow> k r = x \<Longrightarrow> find (\<lambda>y. k y = x) t = Some r"
  using find_unique by fastforce

lemma find_key_None: "find (\<lambda>r. k r = x) t = None \<longleftrightarrow> x \<notin> k ` set t"
  by (auto simp: find_None_iff)

lemma distinct_key_eq:
  "distinct (map k t) \<Longrightarrow> r \<in> set t \<Longrightarrow> q \<in> set t \<Longrightarrow> k r = k q \<Longrightarrow> r = q"
  by (metis distinct_map inj_onD)

section \<open>Status machines\<close>

text \<open>
  An entity whose status may change only along allowed transitions: a refused change throws and
  leaves the status as it was. \<open>run_status\<close> applies a list of attempted changes, each in its own
  \<open>try\<close>. \<open>rank\<close> counts how many more changes a status can see.
\<close>

fun status_after :: "'s \<Rightarrow> 'e + 's \<Rightarrow> 's" where
  "status_after s (Inl e) = s"
| "status_after s (Inr t) = t"

fun run_status :: "('s \<Rightarrow> 's \<Rightarrow> 'e + 's) \<Rightarrow> 's \<Rightarrow> 's list \<Rightarrow> 's" where
  "run_status tr s [] = s"
| "run_status tr s (t # ts) = run_status tr (status_after s (tr s t)) ts"

fun status_changes :: "('s \<Rightarrow> 's \<Rightarrow> 'e + 's) \<Rightarrow> 's \<Rightarrow> 's list \<Rightarrow> nat" where
  "status_changes tr s [] = 0"
| "status_changes tr s (t # ts) =
     (let s' = status_after s (tr s t) in (if s' = s then 0 else 1) + status_changes tr s' ts)"

locale status_machine =
  fixes allowed :: "'s \<Rightarrow> 's \<Rightarrow> bool"
    and transition :: "'s \<Rightarrow> 's \<Rightarrow> 'e + 's"
    and rank :: "'s \<Rightarrow> nat"
  assumes transition_ok: "allowed s t \<Longrightarrow> transition s t = Inr t"
    and transition_err: "\<not> allowed s t \<Longrightarrow> \<exists>e. transition s t = Inl e"
    and rank_decreases: "allowed s t \<Longrightarrow> t \<noteq> s \<Longrightarrow> rank t < rank s"
begin

lemma transition_Inr_iff: "transition s t = Inr u \<longleftrightarrow> allowed s t \<and> u = t"
  using transition_ok transition_err by (metis Inl_Inr_False sum.inject(2))

lemma status_after_cases:
  "status_after s (transition s t) = (if allowed s t then t else s)"
  using transition_ok [of s t] transition_err [of s t] by auto

lemma changes_bounded: "status_changes transition s ts + rank (run_status transition s ts) \<le> rank s"
proof (induction ts arbitrary: s)
  case Nil
  then show ?case by simp
next
  case (Cons t ts)
  let ?s' = "status_after s (transition s t)"
  have "?s' = s \<or> rank ?s' < rank s"
    using rank_decreases [of s t] by (auto simp: status_after_cases)
  with Cons.IH [of ?s'] show ?case by (auto simp: Let_def)
qed

lemma terminal_absorbing: "rank s = 0 \<Longrightarrow> run_status transition s ts = s"
proof (induction ts arbitrary: s)
  case Nil
  then show ?case by simp
next
  case (Cons t ts)
  have "status_after s (transition s t) = s"
    using Cons.prems rank_decreases [of s t] by (auto simp: status_after_cases)
  with Cons show ?case by simp
qed

lemma run_reachable: "allowed\<^sup>*\<^sup>* s (run_status transition s ts)"
proof (induction ts arbitrary: s)
  case Nil
  then show ?case by simp
next
  case (Cons t ts)
  have "allowed\<^sup>*\<^sup>* s (status_after s (transition s t))"
    by (auto simp: status_after_cases)
  with Cons.IH show ?case by (metis rtranclp_trans run_status.simps(2))
qed

end

end
