(* ===== verification/Errors.thy ===== *)
theory Errors
  imports Prelude
begin

text \<open>
  The platform's errors (\<open>packages/common/src/errors\<close>), the HTTP exceptions thrown by the
  services, and the global exception filter that turns any thrown value into the JSON error
  response (\<open>packages/common/src/logger/exception-logging.filter.ts\<close>).

  A message built by a template literal is the list of its pieces, so that numbers and JSON values
  interpolated into it are kept as values. \<open>nest_builtin\<close> is the body NestJS documents for its
  built-in exceptions (\<open>statusCode\<close>, \<open>message\<close>, \<open>error\<close>).
\<close>

section \<open>Codes\<close>

datatype platform_code =
    INVALID_API_KEY | MERCHANT_DISABLED | RATE_LIMIT_EXCEEDED | MISSING_IDEMPOTENCY_KEY
  | IDEMPOTENCY_CONFLICT | INVALID_REQUEST | VALIDATION_FAILED | INTERNAL_ERROR | PAYMENT_BLOCKED

fun platform_str :: "platform_code \<Rightarrow> string" where
  "platform_str INVALID_API_KEY = ''INVALID_API_KEY''"
| "platform_str MERCHANT_DISABLED = ''MERCHANT_DISABLED''"
| "platform_str RATE_LIMIT_EXCEEDED = ''RATE_LIMIT_EXCEEDED''"
| "platform_str MISSING_IDEMPOTENCY_KEY = ''MISSING_IDEMPOTENCY_KEY''"
| "platform_str IDEMPOTENCY_CONFLICT = ''IDEMPOTENCY_CONFLICT''"
| "platform_str INVALID_REQUEST = ''INVALID_REQUEST''"
| "platform_str VALIDATION_FAILED = ''VALIDATION_FAILED''"
| "platform_str INTERNAL_ERROR = ''INTERNAL_ERROR''"
| "platform_str PAYMENT_BLOCKED = ''PAYMENT_BLOCKED''"

definition platform_codes :: "platform_code list" where
  "platform_codes = [INVALID_API_KEY, MERCHANT_DISABLED, RATE_LIMIT_EXCEEDED,
     MISSING_IDEMPOTENCY_KEY, IDEMPOTENCY_CONFLICT, INVALID_REQUEST, VALIDATION_FAILED,
     INTERNAL_ERROR, PAYMENT_BLOCKED]"

datatype domain_code =
    DUPLICATE_PAYMENT_REFERENCE | PAYMENT_NOT_FOUND | PAYMENT_ALREADY_COMPLETED
  | INVALID_PAYMENT_STATE_TRANSITION | ORDER_NOT_FOUND | ORDER_ALREADY_PAID
  | ORDER_AMOUNT_MISMATCH | FRAUD_REJECTED | PAYMENT_VALIDATION_FAILED
  | ORDER_MERCHANT_MISMATCH | ORDER_CURRENCY_MISMATCH

fun domain_str :: "domain_code \<Rightarrow> string" where
  "domain_str DUPLICATE_PAYMENT_REFERENCE = ''DUPLICATE_PAYMENT_REFERENCE''"
| "domain_str PAYMENT_NOT_FOUND = ''PAYMENT_NOT_FOUND''"
| "domain_str PAYMENT_ALREADY_COMPLETED = ''PAYMENT_ALREADY_COMPLETED''"
| "domain_str INVALID_PAYMENT_STATE_TRANSITION = ''INVALID_PAYMENT_STATE_TRANSITION''"
| "domain_str ORDER_NOT_FOUND = ''ORDER_NOT_FOUND''"
| "domain_str ORDER_ALREADY_PAID = ''ORDER_ALREADY_PAID''"
| "domain_str ORDER_AMOUNT_MISMATCH = ''ORDER_AMOUNT_MISMATCH''"
| "domain_str FRAUD_REJECTED = ''FRAUD_REJECTED''"
| "domain_str PAYMENT_VALIDATION_FAILED = ''PAYMENT_VALIDATION_FAILED''"
| "domain_str ORDER_MERCHANT_MISMATCH = ''ORDER_MERCHANT_MISMATCH''"
| "domain_str ORDER_CURRENCY_MISMATCH = ''ORDER_CURRENCY_MISMATCH''"

section \<open>Thrown values\<close>

datatype frag = Lit string | Num rat | Val json

record base_error =
  be_name :: string
  be_code :: string
  be_status :: nat
  be_message :: "frag list"
  be_details :: "json option"

record http_error =
  he_name :: string
  he_status :: nat
  he_response :: json
  he_message :: "frag list"
  he_response_data :: "json option"

datatype exn =
    BaseExn base_error
  | HttpExn http_error
  | JsError string "frag list"
  | PrismaError string "frag list"
  | NonError json

subsection \<open>\<open>BaseError\<close> and its direct subclasses\<close>

definition base_exn :: "string \<Rightarrow> nat \<Rightarrow> platform_code \<Rightarrow> frag list \<Rightarrow> json option \<Rightarrow> exn" where
  "base_exn name status code msg details =
     BaseExn \<lparr>be_name = name, be_code = platform_str code, be_status = status,
              be_message = msg, be_details = details\<rparr>"

definition ValidationError :: "frag list \<Rightarrow> json option \<Rightarrow> exn" where
  "ValidationError = base_exn ''ValidationError'' 400 VALIDATION_FAILED"

definition NotFoundError :: "frag list \<Rightarrow> json option \<Rightarrow> exn" where
  "NotFoundError = base_exn ''NotFoundError'' 404 INVALID_REQUEST"

definition ConflictError :: "frag list \<Rightarrow> json option \<Rightarrow> exn" where
  "ConflictError = base_exn ''ConflictError'' 409 IDEMPOTENCY_CONFLICT"

definition UnauthorizedError :: "frag list \<Rightarrow> json option \<Rightarrow> exn" where
  "UnauthorizedError = base_exn ''UnauthorizedError'' 401 INVALID_API_KEY"

definition ForbiddenError :: "frag list \<Rightarrow> json option \<Rightarrow> exn" where
  "ForbiddenError = base_exn ''ForbiddenError'' 403 MERCHANT_DISABLED"

definition PaymentBlockedError :: "frag list \<Rightarrow> json option \<Rightarrow> exn" where
  "PaymentBlockedError = base_exn ''PaymentBlockedError'' 403 PAYMENT_BLOCKED"

definition InternalServerError :: "frag list \<Rightarrow> json option \<Rightarrow> exn" where
  "InternalServerError = base_exn ''InternalServerError'' 500 INTERNAL_ERROR"

subsection \<open>\<open>DomainException\<close> and its subclasses\<close>

text \<open>The metadata is the \<open>details\<close> of the underlying \<open>BaseError\<close>.\<close>

definition DomainException ::
  "string \<Rightarrow> frag list \<Rightarrow> domain_code \<Rightarrow> nat \<Rightarrow> (string \<times> json) list \<Rightarrow> exn" where
  "DomainException name msg code status metadata =
     BaseExn \<lparr>be_name = name, be_code = domain_str code, be_status = status,
              be_message = msg, be_details = Some (JObj metadata)\<rparr>"

text \<open>A property whose value is \<open>undefined\<close> is no property of the JSON value.\<close>

definition opt_prop :: "string \<Rightarrow> string option \<Rightarrow> (string \<times> json) list" where
  "opt_prop k v = (case v of None \<Rightarrow> [] | Some s \<Rightarrow> [(k, JStr s)])"

definition DuplicatePaymentReferenceException :: "string \<Rightarrow> string \<Rightarrow> exn" where
  "DuplicatePaymentReferenceException merchantId reference =
     DomainException ''DuplicatePaymentReferenceException''
       [Lit ''Payment reference already exists.''] DUPLICATE_PAYMENT_REFERENCE 409
       [(''merchantId'', JStr merchantId), (''reference'', JStr reference)]"

definition InvalidPaymentStateTransitionException ::
  "string \<Rightarrow> string \<Rightarrow> string \<Rightarrow> string option \<Rightarrow> exn" where
  "InvalidPaymentStateTransitionException paymentId currentStatus attemptedStatus reason =
     DomainException ''InvalidPaymentStateTransitionException''
       [Lit (''Invalid payment state transition for payment '' @ paymentId @
             '': cannot transition from '' @ currentStatus @ '' to '' @ attemptedStatus @ ''.'' @
             (case reason of None \<Rightarrow> [] | Some r \<Rightarrow> if r = [] then [] else '' Reason: '' @ r))]
       INVALID_PAYMENT_STATE_TRANSITION 422
       ([(''paymentId'', JStr paymentId), (''currentStatus'', JStr currentStatus),
         (''attemptedStatus'', JStr attemptedStatus)] @ opt_prop ''reason'' reason)"

definition PaymentAlreadyCompletedException :: "string \<Rightarrow> exn" where
  "PaymentAlreadyCompletedException paymentId =
     DomainException ''PaymentAlreadyCompletedException''
       [Lit (''Payment with ID '' @ paymentId @ '' is already completed.'')]
       PAYMENT_ALREADY_COMPLETED 409 [(''paymentId'', JStr paymentId)]"

definition PaymentNotFoundException :: "string \<Rightarrow> exn" where
  "PaymentNotFoundException paymentId =
     DomainException ''PaymentNotFoundException''
       [Lit (''Payment with ID '' @ paymentId @ '' not found.'')]
       PAYMENT_NOT_FOUND 404 [(''paymentId'', JStr paymentId)]"

definition PaymentValidationException :: "frag list \<Rightarrow> json option \<Rightarrow> exn" where
  "PaymentValidationException msg errors =
     DomainException ''PaymentValidationException'' msg PAYMENT_VALIDATION_FAILED 400
       (case errors of None \<Rightarrow> [] | Some e \<Rightarrow> [(''errors'', e)])"

definition OrderNotFoundException :: "string \<Rightarrow> exn" where
  "OrderNotFoundException reference =
     DomainException ''OrderNotFoundException''
       [Lit (''Order with reference '' @ [CHR 0x27] @ reference @ [CHR 0x27] @ '' not found.'')]
       ORDER_NOT_FOUND 404 [(''reference'', JStr reference)]"

definition OrderAlreadyPaidException :: "string \<Rightarrow> exn" where
  "OrderAlreadyPaidException reference =
     DomainException ''OrderAlreadyPaidException''
       [Lit (''Order with reference '' @ [CHR 0x27] @ reference @ [CHR 0x27] @ '' is already paid.'')]
       ORDER_ALREADY_PAID 409 [(''reference'', JStr reference)]"

definition OrderAmountMismatchException :: "string \<Rightarrow> rat \<Rightarrow> rat \<Rightarrow> exn" where
  "OrderAmountMismatchException reference expectedAmount requestedAmount =
     DomainException ''OrderAmountMismatchException''
       [Lit ''Amount mismatch: Order amount is '', Num expectedAmount,
        Lit '', requested amount is '', Num requestedAmount, Lit ''.'']
       ORDER_AMOUNT_MISMATCH 422
       [(''reference'', JStr reference), (''expectedAmount'', JNum (Fin expectedAmount)),
        (''requestedAmount'', JNum (Fin requestedAmount))]"

definition OrderCurrencyMismatchException :: "string \<Rightarrow> string \<Rightarrow> string \<Rightarrow> exn" where
  "OrderCurrencyMismatchException reference expectedCurrency requestedCurrency =
     DomainException ''OrderCurrencyMismatchException''
       [Lit (''Currency mismatch: expected '' @ expectedCurrency @ '', requested '' @
             requestedCurrency @ ''.'')]
       ORDER_CURRENCY_MISMATCH 422
       [(''reference'', JStr reference), (''expectedCurrency'', JStr expectedCurrency),
        (''requestedCurrency'', JStr requestedCurrency)]"

definition MerchantOwnershipException :: "string \<Rightarrow> string \<Rightarrow> exn" where
  "MerchantOwnershipException reference merchantId =
     DomainException ''MerchantOwnershipException''
       [Lit ''Merchant does not own this order''] ORDER_MERCHANT_MISMATCH 403
       [(''reference'', JStr reference), (''merchantId'', JStr merchantId)]"

definition FraudRejectedException ::
  "string \<Rightarrow> rat \<Rightarrow> string \<Rightarrow> rat \<Rightarrow> string option \<Rightarrow> exn" where
  "FraudRejectedException merchantId amount currency riskScore reason =
     DomainException ''FraudRejectedException'' [Lit ''Payment rejected by fraud rules'']
       FRAUD_REJECTED 403
       ([(''merchantId'', JStr merchantId), (''amount'', JNum (Fin amount)),
         (''currency'', JStr currency), (''riskScore'', JNum (Fin riskScore))]
        @ opt_prop ''reason'' reason)"

subsection \<open>HTTP exceptions of NestJS\<close>

definition nest_builtin :: "string \<Rightarrow> nat \<Rightarrow> string \<Rightarrow> string \<Rightarrow> exn" where
  "nest_builtin name status descr msg =
     HttpExn \<lparr>he_name = name, he_status = status,
       he_response = JObj [(''message'', JStr msg), (''error'', JStr descr), (''statusCode'', jnat status)],
       he_message = [Lit msg], he_response_data = None\<rparr>"

definition http_exn_body :: "(string \<times> json) list \<Rightarrow> nat \<Rightarrow> frag list \<Rightarrow> exn" where
  "http_exn_body body status msg =
     HttpExn \<lparr>he_name = ''HttpException'', he_status = status, he_response = JObj body,
              he_message = msg, he_response_data = None\<rparr>"

text \<open>
  An exception built from an object: its \<open>message\<close> is the object's \<open>message\<close> when that is a
  string, and otherwise the class name split into words, as NestJS documents.
\<close>

definition http_exn :: "(string \<times> json) list \<Rightarrow> nat \<Rightarrow> exn" where
  "http_exn body status =
     http_exn_body body status
       (case map_of body ''message'' of Some (JStr m) \<Rightarrow> [Lit m] | _ \<Rightarrow> [Lit ''Http Exception''])"

definition http_exn_str :: "string \<Rightarrow> nat \<Rightarrow> exn" where
  "http_exn_str msg status =
     HttpExn \<lparr>he_name = ''HttpException'', he_status = status, he_response = JStr msg,
              he_message = [Lit msg], he_response_data = None\<rparr>"

definition exn_status :: "exn \<Rightarrow> nat" where
  "exn_status e = (case e of BaseExn b \<Rightarrow> be_status b | HttpExn h \<Rightarrow> he_status h | _ \<Rightarrow> 500)"

definition exn_message :: "exn \<Rightarrow> frag list" where
  "exn_message e = (case e of BaseExn b \<Rightarrow> be_message b | HttpExn h \<Rightarrow> he_message h
     | JsError n m \<Rightarrow> m | PrismaError c m \<Rightarrow> m | NonError v \<Rightarrow> [Val v])"

section \<open>The exception filter\<close>

record error_fields =
  ef_status :: nat
  ef_code :: string
  ef_message :: "frag list"
  ef_validation :: "json option"
  ef_metadata :: "json option"

definition filter_init :: error_fields where
  "filter_init = \<lparr>ef_status = 500, ef_code = platform_str INTERNAL_ERROR,
     ef_message = [Lit ''Internal server error''], ef_validation = None, ef_metadata = None\<rparr>"

definition filter_base :: "base_error \<Rightarrow> error_fields" where
  "filter_base b =
     (let code = (if be_code b = ''FRAUD_REJECTED'' then platform_str PAYMENT_BLOCKED else be_code b);
          f = filter_init\<lparr>ef_status := be_status b, ef_code := code, ef_message := be_message b\<rparr>
      in case be_details b of
           None \<Rightarrow> f
         | Some (JArr xs) \<Rightarrow>
             if code = platform_str VALIDATION_FAILED then f\<lparr>ef_validation := Some (JArr xs)\<rparr>
             else f\<lparr>ef_metadata := Some (JArr xs)\<rparr>
         | Some d \<Rightarrow> if truthy d \<and> typeof_object d then f\<lparr>ef_metadata := Some d\<rparr> else f)"

text \<open>\<open>a || b\<close> on property reads.\<close>

definition jor :: "json option \<Rightarrow> json option \<Rightarrow> json option" where
  "jor a b = (case a of Some v \<Rightarrow> if truthy v then Some v else b | None \<Rightarrow> b)"

definition raw_error :: "json \<Rightarrow> json option" where
  "raw_error body =
     (case jor (jget body ''error'') (jget body ''code'') of
        Some v \<Rightarrow> if truthy v \<and> typeof_object v then jget v ''code'' else Some v
      | None \<Rightarrow> None)"

definition status_code_default :: "nat \<Rightarrow> string \<Rightarrow> string" where
  "status_code_default status code =
     (if status = 401 then platform_str INVALID_API_KEY
      else if status = 403 then platform_str MERCHANT_DISABLED
      else if status = 429 then platform_str RATE_LIMIT_EXCEEDED
      else if status = 400 then platform_str INVALID_REQUEST
      else if status = 409 \<or> status = 422 then platform_str IDEMPOTENCY_CONFLICT
      else code)"

definition join_comma :: "json list \<Rightarrow> frag list" where
  "join_comma vs = concat (map (\<lambda>i. (if i = 0 then [] else [Lit '', '']) @
     (case vs ! i of JStr s \<Rightarrow> [Lit s] | JNull \<Rightarrow> [] | v \<Rightarrow> [Val v])) [0..<length vs])"

definition pick_code :: "json \<Rightarrow> error_fields \<Rightarrow> error_fields" where
  "pick_code body f =
     (case raw_error body of
        Some (JStr c) \<Rightarrow>
          if c = ''REQUEST_ALREADY_IN_PROGRESS''
          then f\<lparr>ef_code := platform_str IDEMPOTENCY_CONFLICT,
                 ef_message := [Lit ''An identical request with this Idempotency-Key is already in progress'']\<rparr>
          else f\<lparr>ef_code := c\<rparr>
      | _ \<Rightarrow> (case jget body ''message'' of
            Some (JStr m) \<Rightarrow>
              if m \<in> set (map platform_str platform_codes) then f\<lparr>ef_code := m\<rparr>
              else f\<lparr>ef_code := status_code_default (ef_status f) (ef_code f)\<rparr>
          | _ \<Rightarrow> f\<lparr>ef_code := status_code_default (ef_status f) (ef_code f)\<rparr>))"

definition extracted_message :: "json \<Rightarrow> json option" where
  "extracted_message body =
     (case jget body ''error'' of
        Some v \<Rightarrow>
          if truthy v \<and> typeof_object v
          then (case jget v ''message'' of Some (JStr m) \<Rightarrow> Some (JStr m) | _ \<Rightarrow> jget body ''message'')
          else jget body ''message''
      | None \<Rightarrow> jget body ''message'')"

definition pick_message :: "json \<Rightarrow> error_fields \<Rightarrow> error_fields" where
  "pick_message body f =
     (case extracted_message body of
        Some (JStr m) \<Rightarrow> f\<lparr>ef_message := [Lit m]\<rparr>
      | Some (JArr vs) \<Rightarrow> f\<lparr>ef_message := join_comma vs\<rparr>
      | _ \<Rightarrow> f)"

definition pick_validation :: "json \<Rightarrow> error_fields \<Rightarrow> error_fields" where
  "pick_validation body f =
     (case jget body ''validationErrors'' of Some (JArr vs) \<Rightarrow> f\<lparr>ef_validation := Some (JArr vs)\<rparr> | _ \<Rightarrow> f)"

definition pick_metadata :: "json \<Rightarrow> error_fields \<Rightarrow> error_fields" where
  "pick_metadata body f =
     (case jget body ''metadata'' of
        Some v \<Rightarrow> if truthy v \<and> typeof_object v then f\<lparr>ef_metadata := Some v\<rparr> else f
      | None \<Rightarrow> f)"

definition filter_http_body :: "json \<Rightarrow> error_fields \<Rightarrow> error_fields" where
  "filter_http_body body f =
     pick_metadata body (pick_validation body (pick_message body (pick_code body f)))"

definition filter_http :: "http_error \<Rightarrow> error_fields" where
  "filter_http h =
     (let f = filter_init\<lparr>ef_status := he_status h, ef_message := he_message h\<rparr>;
          body = (case he_response_data h of
                    Some d \<Rightarrow> if truthy d then d else he_response h | None \<Rightarrow> he_response h)
      in if typeof_object body \<and> body \<noteq> JNull then filter_http_body body f
         else (case body of JStr s \<Rightarrow> f\<lparr>ef_message := [Lit s]\<rparr> | _ \<Rightarrow> f))"

definition filter_fields :: "exn \<Rightarrow> error_fields" where
  "filter_fields e = (case e of
       BaseExn b \<Rightarrow> filter_base b
     | HttpExn h \<Rightarrow> filter_http h
     | JsError n m \<Rightarrow> filter_init\<lparr>ef_message := m\<rparr>
     | PrismaError c m \<Rightarrow> filter_init\<lparr>ef_message := m\<rparr>
     | NonError v \<Rightarrow> filter_init)"

record api_error =
  ae_success :: bool
  ae_code :: string
  ae_message :: "frag list"
  ae_status :: nat
  ae_path :: string
  ae_correlationId :: "string option"
  ae_requestId :: "string option"
  ae_validationErrors :: "json option"
  ae_metadata :: "json option"

definition createErrorResponse ::
  "string \<Rightarrow> frag list \<Rightarrow> nat \<Rightarrow> string \<Rightarrow> string option \<Rightarrow> string option \<Rightarrow> json option \<Rightarrow> json option \<Rightarrow> api_error" where
  "createErrorResponse code message status path correlationId requestId validationErrors metadata =
     \<lparr>ae_success = False, ae_code = code, ae_message = message, ae_status = status, ae_path = path,
      ae_correlationId = correlationId, ae_requestId = requestId,
      ae_validationErrors = validationErrors, ae_metadata = metadata\<rparr>"

text \<open>The identifiers come from the request context, else from the request's headers.\<close>

definition filter_catch ::
  "exn \<Rightarrow> string \<Rightarrow> string option \<times> string option \<Rightarrow> string option \<times> string option \<Rightarrow> nat \<times> api_error" where
  "filter_catch e url ctx hdr =
     (let f = filter_fields e
      in (ef_status f,
          createErrorResponse (ef_code f) (ef_message f) (ef_status f) url
            (str_or_opt (fst ctx) (fst hdr)) (str_or_opt (snd ctx) (snd hdr))
            (ef_validation f) (ef_metadata f)))"

section \<open>What the filter guarantees\<close>

lemmas error_defs =
  DuplicatePaymentReferenceException_def InvalidPaymentStateTransitionException_def
  PaymentAlreadyCompletedException_def PaymentNotFoundException_def PaymentValidationException_def
  OrderNotFoundException_def OrderAlreadyPaidException_def OrderAmountMismatchException_def
  OrderCurrencyMismatchException_def MerchantOwnershipException_def FraudRejectedException_def
  DomainException_def

lemmas http_error_defs = nest_builtin_def http_exn_body_def http_exn_def http_exn_str_def

definition exn_name :: "exn \<Rightarrow> string" where
  "exn_name e = (case e of BaseExn b \<Rightarrow> be_name b | HttpExn h \<Rightarrow> he_name h
     | JsError n m \<Rightarrow> n | PrismaError c m \<Rightarrow> c | NonError v \<Rightarrow> [])"

lemma exn_status_simps [simp]:
  "exn_status (DomainException n msg c st md) = st"
  "exn_status (DuplicatePaymentReferenceException m ref) = 409"
  "exn_status (InvalidPaymentStateTransitionException p s t r) = 422"
  "exn_status (PaymentAlreadyCompletedException p) = 409"
  "exn_status (PaymentNotFoundException p) = 404"
  "exn_status (PaymentValidationException msg errs) = 400"
  "exn_status (OrderNotFoundException ref) = 404"
  "exn_status (OrderAlreadyPaidException ref) = 409"
  "exn_status (OrderAmountMismatchException ref a b) = 422"
  "exn_status (OrderCurrencyMismatchException ref cur cur2) = 422"
  "exn_status (MerchantOwnershipException ref m) = 403"
  "exn_status (FraudRejectedException m a cur k reason) = 403"
  "exn_status (nest_builtin n st d txt) = st"
  "exn_status (http_exn body st) = st"
  "exn_status (http_exn_str txt st) = st"
  by (simp_all add: exn_status_def error_defs http_error_defs)

lemma exn_status_neq: "exn_status a \<noteq> exn_status b \<Longrightarrow> a \<noteq> b"
  by auto

lemma domain_str_inj: "domain_str a = domain_str b \<Longrightarrow> a = b"
  by (cases a; cases b) simp_all

lemma platform_str_inj: "platform_str a = platform_str b \<Longrightarrow> a = b"
  by (cases a; cases b) simp_all

lemma filter_base_status [simp]: "ef_status (filter_base b) = be_status b"
  by (simp add: filter_base_def Let_def filter_init_def split: option.split json.split)

lemma pick_code_status [simp]: "ef_status (pick_code body f) = ef_status f"
  by (simp add: pick_code_def split: option.split json.split)

lemma pick_message_status [simp]: "ef_status (pick_message body f) = ef_status f"
  by (simp add: pick_message_def split: option.split json.split)

lemma pick_validation_status [simp]: "ef_status (pick_validation body f) = ef_status f"
  by (simp add: pick_validation_def split: option.split json.split)

lemma pick_metadata_status [simp]: "ef_status (pick_metadata body f) = ef_status f"
  by (simp add: pick_metadata_def split: option.split)

lemma filter_http_body_status [simp]: "ef_status (filter_http_body body f) = ef_status f"
  by (simp add: filter_http_body_def)

lemma filter_http_status [simp]: "ef_status (filter_http h) = he_status h"
  by (simp add: filter_http_def Let_def filter_init_def split: json.split)

lemma filter_fields_status: "ef_status (filter_fields e) = exn_status e"
  by (cases e) (simp_all add: filter_fields_def exn_status_def filter_init_def)

lemma filter_domain_code:
  "filter_fields (DomainException name msg code status md) =
     \<lparr>ef_status = status,
      ef_code = (if code = FRAUD_REJECTED then platform_str PAYMENT_BLOCKED else domain_str code),
      ef_message = msg, ef_validation = None, ef_metadata = Some (JObj md)\<rparr>"
  by (cases code) (simp_all add: DomainException_def filter_fields_def filter_base_def filter_init_def Let_def)

end
