(* ===== verification/PaymentDomain.thy ===== *)
theory PaymentDomain
  imports Errors
begin

text \<open>
  The payment service's domain: \<open>domain/payment-state-machine.ts\<close>, \<open>entities/payment.entity.ts\<close>,
  \<open>entities/outbox-event.entity.ts\<close> and the two repositories over the tables of
  \<open>prisma/schema.prisma\<close>. A table is its list of rows; a write that violates a unique key throws
  Prisma's \<open>P2002\<close>, an update of a missing row \<open>P2025\<close>, and a value that does not fit a 32-bit
  \<open>Int\<close> column is refused by the client. Times are milliseconds; \<open>iso_of\<close> stands for
  \<open>toISOString\<close>, and the identifiers drawn by \<open>randomUUID\<close> are arguments.
\<close>

section \<open>Payment status\<close>

datatype PaymentStatus = P_PENDING | P_PROCESSING | P_COMPLETED | P_FAILED

fun payment_status_str :: "PaymentStatus \<Rightarrow> string" where
  "payment_status_str P_PENDING = ''PENDING''"
| "payment_status_str P_PROCESSING = ''PROCESSING''"
| "payment_status_str P_COMPLETED = ''COMPLETED''"
| "payment_status_str P_FAILED = ''FAILED''"

fun ALLOWED_TRANSITIONS :: "PaymentStatus \<Rightarrow> PaymentStatus set" where
  "ALLOWED_TRANSITIONS P_PENDING = {P_PROCESSING}"
| "ALLOWED_TRANSITIONS P_PROCESSING = {P_COMPLETED, P_FAILED}"
| "ALLOWED_TRANSITIONS P_COMPLETED = {}"
| "ALLOWED_TRANSITIONS P_FAILED = {}"

definition payment_transition :: "string \<Rightarrow> PaymentStatus \<Rightarrow> PaymentStatus \<Rightarrow> exn + PaymentStatus" where
  "payment_transition paymentId currentStatus attemptedStatus =
     (if attemptedStatus \<notin> ALLOWED_TRANSITIONS currentStatus
      then Inl (InvalidPaymentStateTransitionException paymentId
             (payment_status_str currentStatus) (payment_status_str attemptedStatus)
             (Some (''Transition from '' @ payment_status_str currentStatus @ '' to '' @
                    payment_status_str attemptedStatus @ '' is not allowed.'')))
      else Inr attemptedStatus)"

fun payment_rank :: "PaymentStatus \<Rightarrow> nat" where
  "payment_rank P_PENDING = 2"
| "payment_rank P_PROCESSING = 1"
| "payment_rank P_COMPLETED = 0"
| "payment_rank P_FAILED = 0"

interpretation pay_sm: status_machine "\<lambda>s t. t \<in> ALLOWED_TRANSITIONS s" "payment_transition pid" payment_rank
  for pid
proof unfold_locales
  fix s t
  show "t \<in> ALLOWED_TRANSITIONS s \<Longrightarrow> payment_transition pid s t = Inr t"
    by (simp add: payment_transition_def)
  show "\<not> t \<in> ALLOWED_TRANSITIONS s \<Longrightarrow> \<exists>e. payment_transition pid s t = Inl e"
    by (simp add: payment_transition_def)
  show "t \<in> ALLOWED_TRANSITIONS s \<Longrightarrow> t \<noteq> s \<Longrightarrow> payment_rank t < payment_rank s"
    by (cases s) auto
qed

section \<open>The payment entity\<close>

record payment =
  p_id :: string
  p_merchantId :: string
  p_amount :: rat
  p_currency :: string
  p_status :: PaymentStatus
  p_reference :: string
  p_requestId :: string
  p_correlationId :: string
  p_causationId :: string
  p_createdBy :: string
  p_source :: string
  p_createdAt :: nat
  p_updatedAt :: nat

record payment_params =
  pp_merchantId :: string
  pp_amount :: rat
  pp_currency :: string
  pp_reference :: string
  pp_requestId :: string
  pp_correlationId :: string
  pp_causationId :: string
  pp_createdBy :: string
  pp_source :: string

definition PaymentEntity_create :: "string \<Rightarrow> nat \<Rightarrow> payment_params \<Rightarrow> payment" where
  "PaymentEntity_create uuid now ps =
     \<lparr>p_id = uuid, p_merchantId = pp_merchantId ps, p_amount = pp_amount ps,
      p_currency = pp_currency ps, p_status = P_PENDING, p_reference = pp_reference ps,
      p_requestId = pp_requestId ps, p_correlationId = pp_correlationId ps,
      p_causationId = pp_causationId ps, p_createdBy = pp_createdBy ps, p_source = pp_source ps,
      p_createdAt = now, p_updatedAt = now\<rparr>"

text \<open>A refused transition throws before the status is written.\<close>

definition PaymentEntity_transitionTo :: "payment \<Rightarrow> PaymentStatus \<Rightarrow> exn + payment" where
  "PaymentEntity_transitionTo p newStatus =
     rbind (payment_transition (p_id p) (p_status p) newStatus) (\<lambda>s. Inr (p\<lparr>p_status := s\<rparr>))"

section \<open>The outbox event entity\<close>

datatype OutboxStatus = O_PENDING | O_PUBLISHING | O_PUBLISHED | O_FAILED | O_RETRYING

record outbox_event =
  ob_id :: string
  ob_aggregateId :: string
  ob_aggregateType :: string
  ob_eventType :: string
  ob_payload :: json
  ob_status :: OutboxStatus
  ob_requestId :: string
  ob_correlationId :: string
  ob_causationId :: string
  ob_createdAt :: nat
  ob_publishedAt :: "nat option"
  ob_retryCount :: nat
  ob_partition :: "int option"
  ob_offset :: "string option"
  ob_lastAttemptAt :: "nat option"
  ob_traceHeaders :: "(string \<times> string) list option"

record outbox_params =
  op_aggregateId :: string
  op_aggregateType :: string
  op_eventType :: string
  op_payload :: json
  op_requestId :: string
  op_correlationId :: string
  op_causationId :: string

definition outbox_envelope :: "string \<Rightarrow> string \<Rightarrow> outbox_params \<Rightarrow> json" where
  "outbox_envelope eventId timestamp ps = JObj
     [(''eventId'', JStr eventId), (''eventType'', JStr (op_eventType ps)),
      (''version'', JNum (Fin 1)), (''correlationId'', JStr (op_correlationId ps)),
      (''causationId'', JStr (op_causationId ps)), (''sagaId'', JStr (op_correlationId ps)),
      (''requestId'', JStr (op_requestId ps)), (''timestamp'', JStr timestamp),
      (''payload'', op_payload ps)]"

definition OutboxEventEntity_create ::
  "(nat \<Rightarrow> string) \<Rightarrow> string \<Rightarrow> nat \<Rightarrow> (string \<times> string) list \<Rightarrow> outbox_params \<Rightarrow> outbox_event" where
  "OutboxEventEntity_create iso_of uuid now activeTraceHeaders ps =
     \<lparr>ob_id = uuid, ob_aggregateId = op_aggregateId ps, ob_aggregateType = op_aggregateType ps,
      ob_eventType = op_eventType ps, ob_payload = outbox_envelope uuid (iso_of now) ps,
      ob_status = O_PENDING, ob_requestId = op_requestId ps,
      ob_correlationId = op_correlationId ps, ob_causationId = op_causationId ps,
      ob_createdAt = now, ob_publishedAt = None, ob_retryCount = 0, ob_partition = None,
      ob_offset = None, ob_lastAttemptAt = None, ob_traceHeaders = Some activeTraceHeaders\<rparr>"

section \<open>The payment repository\<close>

definition P2002 :: exn where "P2002 = PrismaError ''P2002'' [Lit ''Unique constraint failed'']"
definition P2025 :: exn where "P2025 = PrismaError ''P2025'' [Lit ''Record to update not found.'']"
definition int_column_error :: exn where
  "int_column_error = PrismaError ''PrismaClientValidationError'' [Lit ''Invalid value for Int column'']"

definition fits_int :: "rat \<Rightarrow> bool" where
  "fits_int q = (snd (quotient_of q) = 1 \<and> -2147483648 \<le> q \<and> q \<le> 2147483647)"

definition PaymentRepository_create :: "nat \<Rightarrow> payment \<Rightarrow> payment list \<Rightarrow> exn + payment \<times> payment list" where
  "PaymentRepository_create now e t =
     (if \<not> fits_int (p_amount e) then Inl int_column_error
      else if find (\<lambda>r. p_id r = p_id e) t \<noteq> None
         \<or> find (\<lambda>r. (p_merchantId r, p_reference r) = (p_merchantId e, p_reference e)) t \<noteq> None
      then Inl P2002
      else let m = e\<lparr>p_createdAt := now, p_updatedAt := now\<rparr> in Inr (m, t @ [m]))"

definition PaymentRepository_findById :: "string \<Rightarrow> payment list \<Rightarrow> payment option" where
  "PaymentRepository_findById i t = find (\<lambda>r. p_id r = i) t"

definition PaymentRepository_findByReference :: "string \<Rightarrow> string \<Rightarrow> payment list \<Rightarrow> payment option" where
  "PaymentRepository_findByReference merchantId reference t =
     find (\<lambda>r. (p_merchantId r, p_reference r) = (merchantId, reference)) t"

definition PaymentRepository_updateStatus ::
  "nat \<Rightarrow> string \<Rightarrow> PaymentStatus \<Rightarrow> payment list \<Rightarrow> exn + payment \<times> payment list" where
  "PaymentRepository_updateStatus now i s t =
     (case find (\<lambda>r. p_id r = i) t of
        None \<Rightarrow> Inl P2025
      | Some r \<Rightarrow> (let f = (\<lambda>r. r\<lparr>p_status := s, p_updatedAt := now\<rparr>)
                   in Inr (f r, tbl_upd (\<lambda>r. p_id r = i) f t)))"

lemma fits_int_numeral [simp]:
  "fits_int (numeral n) \<longleftrightarrow> (numeral n :: rat) \<le> 2147483647"
proof -
  have "quotient_of (numeral n) = (numeral n, 1)" by (simp add: quotient_of_int [of "numeral n", simplified])
  moreover have "(-2147483648 :: rat) \<le> numeral n" by (rule order_trans [of _ 0]) simp_all
  ultimately show ?thesis by (simp add: fits_int_def)
qed

text \<open>Both unique keys of the table hold.\<close>

definition payments_ok :: "payment list \<Rightarrow> bool" where
  "payments_ok t \<longleftrightarrow> distinct (map p_id t) \<and> distinct (map (\<lambda>r. (p_merchantId r, p_reference r)) t)
     \<and> (\<forall>r \<in> set t. fits_int (p_amount r))"

lemma payments_ok_Nil [simp]: "payments_ok []"
  by (simp add: payments_ok_def)

lemma PaymentRepository_create_Inr:
  "PaymentRepository_create now e t = Inr (m, t') \<longleftrightarrow>
     fits_int (p_amount e) \<and> p_id e \<notin> p_id ` set t \<and>
     (p_merchantId e, p_reference e) \<notin> (\<lambda>r. (p_merchantId r, p_reference r)) ` set t \<and>
     m = e\<lparr>p_createdAt := now, p_updatedAt := now\<rparr> \<and> t' = t @ [m]"
  by (auto simp: PaymentRepository_create_def find_None_iff Let_def image_iff) metis+

lemma payments_ok_create:
  "payments_ok t \<Longrightarrow> PaymentRepository_create now e t = Inr (m, t') \<Longrightarrow> payments_ok t'"
  by (auto simp: PaymentRepository_create_Inr payments_ok_def)

lemma payments_ok_updateStatus:
  "payments_ok t \<Longrightarrow> PaymentRepository_updateStatus now i s t = Inr (m, t') \<Longrightarrow> payments_ok t'"
  by (auto simp: PaymentRepository_updateStatus_def payments_ok_def Let_def table_simps
           split: option.splits)

section \<open>The payment service's outbox repository\<close>

definition OutboxRepository_save :: "outbox_event \<Rightarrow> outbox_event list \<Rightarrow> exn + outbox_event \<times> outbox_event list" where
  "OutboxRepository_save e t =
     (if find (\<lambda>r. ob_id r = ob_id e) t \<noteq> None then Inl P2002
      else let m = e\<lparr>ob_partition := None, ob_offset := None, ob_lastAttemptAt := None,
                     ob_traceHeaders := Some (case ob_traceHeaders e of None \<Rightarrow> [] | Some h \<Rightarrow> h)\<rparr>
           in Inr (m, t @ [m]))"

text \<open>Rows of equal \<open>createdAt\<close> come in insertion order.\<close>

definition OutboxRepository_findPending :: "nat \<Rightarrow> outbox_event list \<Rightarrow> outbox_event list" where
  "OutboxRepository_findPending limit t =
     take limit (sort_key ob_createdAt (filter (\<lambda>r. ob_status r \<in> {O_PENDING, O_RETRYING}) t))"

definition outbox_update ::
  "string \<Rightarrow> (outbox_event \<Rightarrow> bool) \<Rightarrow> (outbox_event \<Rightarrow> outbox_event) \<Rightarrow> outbox_event list \<Rightarrow>
     exn + outbox_event \<times> outbox_event list" where
  "outbox_update i p f t =
     (case find (\<lambda>r. ob_id r = i) t of
        None \<Rightarrow> Inl P2025
      | Some r \<Rightarrow> if p r then Inr (f r, tbl_upd (\<lambda>r. ob_id r = i) f t) else Inl P2025)"

definition OutboxRepository_markPublished :: "nat \<Rightarrow> string \<Rightarrow> outbox_event list \<Rightarrow> exn + outbox_event \<times> outbox_event list" where
  "OutboxRepository_markPublished now i =
     outbox_update i (\<lambda>r. True) (\<lambda>r. r\<lparr>ob_status := O_PUBLISHED, ob_publishedAt := Some now\<rparr>)"

definition OutboxRepository_incrementRetry :: "string \<Rightarrow> outbox_event list \<Rightarrow> exn + outbox_event \<times> outbox_event list" where
  "OutboxRepository_incrementRetry i =
     outbox_update i (\<lambda>r. True) (\<lambda>r. r\<lparr>ob_retryCount := ob_retryCount r + 1, ob_status := O_RETRYING\<rparr>)"

definition OutboxRepository_markFailed :: "string \<Rightarrow> outbox_event list \<Rightarrow> exn + outbox_event \<times> outbox_event list" where
  "OutboxRepository_markFailed i = outbox_update i (\<lambda>r. True) (\<lambda>r. r\<lparr>ob_status := O_FAILED\<rparr>)"

lemma OutboxRepository_save_Inr:
  "OutboxRepository_save e t = Inr (m, t') \<longleftrightarrow>
     ob_id e \<notin> ob_id ` set t \<and> t' = t @ [m] \<and>
     m = e\<lparr>ob_partition := None, ob_offset := None, ob_lastAttemptAt := None,
           ob_traceHeaders := Some (case ob_traceHeaders e of None \<Rightarrow> [] | Some h \<Rightarrow> h)\<rparr>"
  by (auto simp: OutboxRepository_save_def find_None_iff Let_def image_iff) metis

lemma outbox_update_Inr:
  assumes "outbox_update i p f t = Inr (m, t')"
  obtains r where "find (\<lambda>r. ob_id r = i) t = Some r" "p r" "m = f r"
    "t' = tbl_upd (\<lambda>r. ob_id r = i) f t"
  using assms by (auto simp: outbox_update_def split: option.splits if_splits)

section \<open>Properties\<close>

text \<open>
  The life of a payment: whatever statuses a caller tries, in whatever order, a payment that
  starts as \<open>PENDING\<close> only ever moves along the allowed transitions, changes status at most twice,
  and stays for good once it is \<open>COMPLETED\<close> or \<open>FAILED\<close>.
\<close>

theorem payment_lifecycle:
  "(\<lambda>s t. t \<in> ALLOWED_TRANSITIONS s)\<^sup>*\<^sup>* P_PENDING (run_status (payment_transition pid) P_PENDING ts)
   \<and> status_changes (payment_transition pid) P_PENDING ts \<le> 2
   \<and> run_status (payment_transition pid) P_COMPLETED ts = P_COMPLETED
   \<and> run_status (payment_transition pid) P_FAILED ts = P_FAILED"
  using pay_sm.run_reachable [of P_PENDING pid ts] pay_sm.changes_bounded [of pid P_PENDING ts]
    pay_sm.terminal_absorbing [of P_COMPLETED pid ts] pay_sm.terminal_absorbing [of P_FAILED pid ts]
  by simp

lemma transitionTo_Inr_iff:
  "PaymentEntity_transitionTo p s = Inr q \<longleftrightarrow> s \<in> ALLOWED_TRANSITIONS (p_status p) \<and> q = p\<lparr>p_status := s\<rparr>"
  by (auto simp: PaymentEntity_transitionTo_def rbind_Inr_iff pay_sm.transition_Inr_iff)

end
