(* ===== verification/Orders.thy ===== *)
theory Orders
  imports PaymentDomain
begin

text \<open>
  The order service: the order entity and its status rules (\<open>entities/order.entity.ts\<close>), the
  repository over the \<open>Order\<close> table, \<open>OrderService\<close> (\<open>services/order.service.ts\<close>) and the
  validation endpoint (\<open>controllers/order.controller.ts\<close>, \<open>dto/validate-order.dto.ts\<close>).
\<close>

section \<open>Order status\<close>

datatype OrderStatus = CREATED | PAID | CANCELLED | REFUNDED

fun order_status_str :: "OrderStatus \<Rightarrow> string" where
  "order_status_str CREATED = ''CREATED''"
| "order_status_str PAID = ''PAID''"
| "order_status_str CANCELLED = ''CANCELLED''"
| "order_status_str REFUNDED = ''REFUNDED''"

record order =
  o_id :: string
  o_merchantId :: string
  o_amount :: rat
  o_currency :: string
  o_status :: OrderStatus
  o_reference :: string
  o_createdAt :: nat
  o_updatedAt :: nat

record order_params =
  os_merchantId :: string
  os_amount :: rat
  os_currency :: string
  os_reference :: string

definition OrderEntity_create :: "string \<Rightarrow> nat \<Rightarrow> order_params \<Rightarrow> order" where
  "OrderEntity_create uuid now ps =
     \<lparr>o_id = uuid, o_merchantId = os_merchantId ps, o_amount = os_amount ps,
      o_currency = os_currency ps, o_status = CREATED, o_reference = os_reference ps,
      o_createdAt = now, o_updatedAt = now\<rparr>"

definition illegal_transition :: "string \<Rightarrow> OrderStatus \<Rightarrow> OrderStatus \<Rightarrow> exn" where
  "illegal_transition what s t =
     JsError ''Error'' [Lit (what @ order_status_str s @ '' to '' @ order_status_str t)]"

text \<open>The guards of \<open>transitionTo\<close>, in their order; setting the same status is a silent no-op.\<close>

definition order_transition :: "OrderStatus \<Rightarrow> OrderStatus \<Rightarrow> exn + OrderStatus" where
  "order_transition currentStatus newStatus =
     (if currentStatus = newStatus then Inr currentStatus
      else if currentStatus = CANCELLED \<or> currentStatus = REFUNDED
      then Inl (illegal_transition ''Cannot transition from terminal state '' currentStatus newStatus)
      else if currentStatus = CREATED \<and> newStatus \<noteq> PAID \<and> newStatus \<noteq> CANCELLED
      then Inl (illegal_transition ''Illegal state transition from '' currentStatus newStatus)
      else if currentStatus = PAID \<and> newStatus \<noteq> REFUNDED
      then Inl (illegal_transition ''Illegal state transition from '' currentStatus newStatus)
      else Inr newStatus)"

definition OrderEntity_transitionTo :: "order \<Rightarrow> OrderStatus \<Rightarrow> exn + order" where
  "OrderEntity_transitionTo o1 newStatus =
     rbind (order_transition (o_status o1) newStatus) (\<lambda>s. Inr (o1\<lparr>o_status := s\<rparr>))"

text \<open>The transitions the comment of \<open>transitionTo\<close> lists, with the silent ones.\<close>

definition order_allowed :: "OrderStatus \<Rightarrow> OrderStatus \<Rightarrow> bool" where
  "order_allowed s t \<longleftrightarrow> s = t \<or> (s, t) \<in> {(CREATED, PAID), (CREATED, CANCELLED), (PAID, REFUNDED)}"

fun order_rank :: "OrderStatus \<Rightarrow> nat" where
  "order_rank CREATED = 2"
| "order_rank PAID = 1"
| "order_rank CANCELLED = 0"
| "order_rank REFUNDED = 0"

interpretation ord_sm: status_machine order_allowed order_transition order_rank
proof unfold_locales
  fix s t
  show "order_allowed s t \<Longrightarrow> order_transition s t = Inr t"
    by (cases s; cases t) (auto simp: order_allowed_def order_transition_def)
  show "\<not> order_allowed s t \<Longrightarrow> \<exists>e. order_transition s t = Inl e"
    by (cases s; cases t) (auto simp: order_allowed_def order_transition_def)
  show "order_allowed s t \<Longrightarrow> t \<noteq> s \<Longrightarrow> order_rank t < order_rank s"
    by (cases s; cases t) (auto simp: order_allowed_def)
qed

section \<open>The order repository\<close>

definition OrderRepository_create :: "nat \<Rightarrow> order \<Rightarrow> order list \<Rightarrow> exn + order \<times> order list" where
  "OrderRepository_create now e t =
     (if \<not> fits_int (o_amount e) then Inl int_column_error
      else if find (\<lambda>r. o_id r = o_id e) t \<noteq> None
         \<or> find (\<lambda>r. (o_merchantId r, o_reference r) = (o_merchantId e, o_reference e)) t \<noteq> None
      then Inl P2002
      else let m = e\<lparr>o_createdAt := now, o_updatedAt := now\<rparr> in Inr (m, t @ [m]))"

definition OrderRepository_findById :: "string \<Rightarrow> order list \<Rightarrow> order option" where
  "OrderRepository_findById i t = find (\<lambda>r. o_id r = i) t"

definition OrderRepository_findByMerchantAndReference :: "string \<Rightarrow> string \<Rightarrow> order list \<Rightarrow> order option" where
  "OrderRepository_findByMerchantAndReference merchantId reference t =
     find (\<lambda>r. (o_merchantId r, o_reference r) = (merchantId, reference)) t"

definition OrderRepository_findByReferenceOnly :: "string \<Rightarrow> order list \<Rightarrow> order option" where
  "OrderRepository_findByReferenceOnly reference t = find (\<lambda>r. o_reference r = reference) t"

definition OrderRepository_updateStatus ::
  "nat \<Rightarrow> string \<Rightarrow> OrderStatus \<Rightarrow> order list \<Rightarrow> exn + order \<times> order list" where
  "OrderRepository_updateStatus now i s t =
     (case find (\<lambda>r. o_id r = i) t of
        None \<Rightarrow> Inl P2025
      | Some r \<Rightarrow> (let f = (\<lambda>r. r\<lparr>o_status := s, o_updatedAt := now\<rparr>)
                   in Inr (f r, tbl_upd (\<lambda>r. o_id r = i) f t)))"

definition orders_ok :: "order list \<Rightarrow> bool" where
  "orders_ok t \<longleftrightarrow> distinct (map o_id t) \<and> distinct (map (\<lambda>r. (o_merchantId r, o_reference r)) t)
     \<and> (\<forall>r \<in> set t. fits_int (o_amount r))"

lemma OrderRepository_create_Inr:
  "OrderRepository_create now e t = Inr (m, t') \<longleftrightarrow>
     fits_int (o_amount e) \<and> o_id e \<notin> o_id ` set t \<and>
     (o_merchantId e, o_reference e) \<notin> (\<lambda>r. (o_merchantId r, o_reference r)) ` set t \<and>
     m = e\<lparr>o_createdAt := now, o_updatedAt := now\<rparr> \<and> t' = t @ [m]"
  by (auto simp: OrderRepository_create_def find_None_iff Let_def image_iff) metis+

lemma orders_ok_create:
  "orders_ok t \<Longrightarrow> OrderRepository_create now e t = Inr (m, t') \<Longrightarrow> orders_ok t'"
  by (auto simp: OrderRepository_create_Inr orders_ok_def)

lemma findByMerchantAndReference_Some:
  assumes "orders_ok t"
  shows "OrderRepository_findByMerchantAndReference m ref t = Some r \<longleftrightarrow>
         r \<in> set t \<and> o_merchantId r = m \<and> o_reference r = ref"
proof
  assume "OrderRepository_findByMerchantAndReference m ref t = Some r"
  then show "r \<in> set t \<and> o_merchantId r = m \<and> o_reference r = ref"
    by (auto simp: OrderRepository_findByMerchantAndReference_def dest: find_SomeD)
next
  assume r: "r \<in> set t \<and> o_merchantId r = m \<and> o_reference r = ref"
  with assms show "OrderRepository_findByMerchantAndReference m ref t = Some r"
    using find_key_unique [where k = "\<lambda>r. (o_merchantId r, o_reference r)" and t = t and r = r and x = "(m, ref)"]
    by (simp add: OrderRepository_findByMerchantAndReference_def orders_ok_def)
qed

lemma findByMerchantAndReference_None:
  "OrderRepository_findByMerchantAndReference m ref t = None \<longleftrightarrow>
   (\<forall>q \<in> set t. o_reference q = ref \<longrightarrow> o_merchantId q \<noteq> m)"
  by (auto simp: OrderRepository_findByMerchantAndReference_def find_None_iff)

section \<open>The order service\<close>

definition cancelled_exn :: "string \<Rightarrow> string \<Rightarrow> exn" where
  "cancelled_exn what reference =
     DomainException ''DomainException''
       [Lit (''Order with reference '' @ [CHR 0x27] @ reference @ [CHR 0x27] @ '' is '' @ what @ ''.'')]
       ORDER_ALREADY_PAID 409 [(''reference'', JStr reference)]"

definition validateOrder :: "order list \<Rightarrow> string \<Rightarrow> string \<Rightarrow> rat \<Rightarrow> string \<Rightarrow> exn + order" where
  "validateOrder t merchantId reference amount currency =
     (case OrderRepository_findByMerchantAndReference merchantId reference t of
        None \<Rightarrow>
          (case OrderRepository_findByReferenceOnly reference t of
             Some globalOrder \<Rightarrow> Inl (MerchantOwnershipException reference merchantId)
           | None \<Rightarrow> Inl (OrderNotFoundException reference))
      | Some o1 \<Rightarrow>
          if o_merchantId o1 \<noteq> merchantId then Inl (MerchantOwnershipException reference merchantId)
          else if o_amount o1 \<noteq> amount
          then Inl (OrderAmountMismatchException reference (o_amount o1) amount)
          else if js_upper (o_currency o1) \<noteq> js_upper currency
          then Inl (OrderCurrencyMismatchException reference (o_currency o1) currency)
          else if o_status o1 \<noteq> CREATED
          then (if o_status o1 = CANCELLED then Inl (cancelled_exn ''cancelled'' reference)
                else if o_status o1 = REFUNDED then Inl (cancelled_exn ''refunded'' reference)
                else Inl (OrderAlreadyPaidException reference))
          else Inr o1)"

lemma cancelled_exn_status [simp]: "exn_status (cancelled_exn what ref) = 409"
  by (simp add: cancelled_exn_def)

text \<open>The result of \<open>validateOrder\<close>, by the row it is about.\<close>

lemma validateOrder_Inr:
  assumes "orders_ok t"
  shows "validateOrder t m ref amt cur = Inr r \<longleftrightarrow>
    r \<in> set t \<and> o_merchantId r = m \<and> o_reference r = ref \<and> o_amount r = amt \<and>
    js_upper (o_currency r) = js_upper cur \<and> o_status r = CREATED"
proof -
  have "validateOrder t m ref amt cur = Inr r \<longleftrightarrow>
        OrderRepository_findByMerchantAndReference m ref t = Some r \<and> o_merchantId r = m \<and>
        o_amount r = amt \<and> js_upper (o_currency r) = js_upper cur \<and> o_status r = CREATED"
    unfolding validateOrder_def by (auto split: option.split)
  then show ?thesis
    unfolding findByMerchantAndReference_Some [OF assms] by blast
qed

definition createOrder :: "string \<Rightarrow> nat \<Rightarrow> order_params \<Rightarrow> order list \<Rightarrow> exn + order \<times> order list" where
  "createOrder uuid now ps t =
     (case OrderRepository_findByMerchantAndReference (os_merchantId ps) (os_reference ps) t of
        Some existing \<Rightarrow> Inl (nest_builtin ''ConflictException'' 409 ''Conflict''
          (''Order with reference '' @ [CHR 0x27] @ os_reference ps @ [CHR 0x27] @ '' already exists.''))
      | None \<Rightarrow> OrderRepository_create now (OrderEntity_create uuid now ps) t)"

definition getOrder :: "string \<Rightarrow> order list \<Rightarrow> order option" where
  "getOrder i t = OrderRepository_findById i t"

section \<open>The validation endpoint\<close>

record order_request =
  or_merchantId :: string
  or_reference :: string
  or_amount :: jsnum
  or_currency :: string

text \<open>
  The constraints of \<open>ValidateOrderDto\<close>. \<open>is_uuid\<close> is class-validator's \<open>IsUUID\<close>, and
  \<open>validation_error\<close> the exception the application's validation pipe throws.
\<close>

definition ValidateOrderDto_ok :: "(string \<Rightarrow> bool) \<Rightarrow> order_request \<Rightarrow> bool" where
  "ValidateOrderDto_ok is_uuid b \<longleftrightarrow>
     is_uuid (or_merchantId b) \<and> or_merchantId b \<noteq> [] \<and> or_reference b \<noteq> [] \<and>
     is_integer (or_amount b) \<and> (case or_amount b of Fin q \<Rightarrow> 1 \<le> q | _ \<Rightarrow> False) \<and>
     or_currency b \<noteq> []"

definition amount_of :: "jsnum \<Rightarrow> rat" where
  "amount_of x = (case x of Fin q \<Rightarrow> q | _ \<Rightarrow> 0)"

definition OrderController_validateOrder ::
  "(string \<Rightarrow> bool) \<Rightarrow> exn \<Rightarrow> order list \<Rightarrow> order_request \<Rightarrow> exn + (string \<times> json) list" where
  "OrderController_validateOrder is_uuid validation_error t b =
     (if \<not> ValidateOrderDto_ok is_uuid b then Inl validation_error
      else rbind (validateOrder t (or_merchantId b) (or_reference b) (amount_of (or_amount b)) (or_currency b))
             (\<lambda>o1. Inr [(''valid'', JBool True), (''orderId'', JStr (o_id o1))]))"

section \<open>Properties\<close>

text \<open>
  The life of an order: the guards of \<open>transitionTo\<close> allow exactly the three documented
  transitions and the silent no-op, an order changes status at most twice, and a cancelled or
  refunded order never changes again.
\<close>

theorem order_lifecycle:
  "(order_transition s t = Inr t \<longleftrightarrow>
      s = t \<or> (s = CREATED \<and> t \<in> {PAID, CANCELLED}) \<or> (s = PAID \<and> t = REFUNDED))
   \<and> status_changes order_transition CREATED ts \<le> 2
   \<and> run_status order_transition CANCELLED ts = CANCELLED
   \<and> run_status order_transition REFUNDED ts = REFUNDED"
proof -
  have "order_transition s t = Inr t \<longleftrightarrow> order_allowed s t"
    by (simp add: ord_sm.transition_Inr_iff)
  then show ?thesis
    using ord_sm.changes_bounded [of CREATED ts]
      ord_sm.terminal_absorbing [of CANCELLED ts] ord_sm.terminal_absorbing [of REFUNDED ts]
    by (auto simp: order_allowed_def)
qed

text \<open>
  \<open>validateOrder\<close> is sound and complete: over a table that keeps its unique keys it returns an
  order exactly when some row belongs to this merchant under this reference, has this amount, the
  same currency up to case, and is still \<open>CREATED\<close>.
\<close>

theorem validateOrder_iff:
  assumes "orders_ok t"
  shows "validateOrder t m ref amt cur = Inr r \<longleftrightarrow>
    r \<in> set t \<and> o_merchantId r = m \<and> o_reference r = ref \<and> o_amount r = amt \<and>
    js_upper (o_currency r) = js_upper cur \<and> o_status r = CREATED"
  by (rule validateOrder_Inr [OF assms])

definition sample_orders :: "order list" where
  "sample_orders =
     [\<lparr>o_id = ''o1'', o_merchantId = ''m1'', o_amount = 100, o_currency = ''USD'', o_status = CREATED,
       o_reference = ''r1'', o_createdAt = 1, o_updatedAt = 1\<rparr>,
      \<lparr>o_id = ''o2'', o_merchantId = ''m2'', o_amount = 70, o_currency = ''EUR'', o_status = PAID,
       o_reference = ''r2'', o_createdAt = 2, o_updatedAt = 2\<rparr>]"

lemma sample_orders_ok: "orders_ok sample_orders"
  by (simp add: sample_orders_def orders_ok_def)

theorem validateOrder_iff_witness:
  "validateOrder sample_orders ''m1'' ''r1'' 100 ''USD'' = Inr (hd sample_orders)"
  using validateOrder_iff [OF sample_orders_ok, of "''m1''" "''r1''" 100 "''USD''" "hd sample_orders"]
  by (simp add: sample_orders_def)

text \<open>
  The answer of \<open>validateOrder\<close> tells another merchant's order from an unknown reference: the
  403 is thrown exactly when the reference is in use only by others, the 404 exactly when nobody
  uses it, and every other refusal (422 or 409) is about an order of the merchant itself.
\<close>

theorem validateOrder_errors:
  assumes "orders_ok t"
  shows "(validateOrder t m ref amt cur = Inl (MerchantOwnershipException ref m) \<longleftrightarrow>
            (\<exists>r \<in> set t. o_reference r = ref) \<and> (\<forall>r \<in> set t. o_reference r = ref \<longrightarrow> o_merchantId r \<noteq> m))
       \<and> (validateOrder t m ref amt cur = Inl (OrderNotFoundException ref) \<longleftrightarrow>
            (\<forall>r \<in> set t. o_reference r \<noteq> ref))
       \<and> (\<forall>e. validateOrder t m ref amt cur = Inl e \<longrightarrow> exn_status e \<in> {422, 409} \<longrightarrow>
            (\<exists>r \<in> set t. o_reference r = ref \<and> o_merchantId r = m))"
proof (cases "OrderRepository_findByMerchantAndReference m ref t")
  case None
  then have no: "\<forall>q \<in> set t. o_reference q = ref \<longrightarrow> o_merchantId q \<noteq> m"
    by (simp add: findByMerchantAndReference_None)
  have ref: "(\<exists>r \<in> set t. o_reference r = ref) \<longleftrightarrow> OrderRepository_findByReferenceOnly ref t \<noteq> None"
    by (auto simp: OrderRepository_findByReferenceOnly_def find_None_iff)
  have v: "validateOrder t m ref amt cur =
      Inl (if \<exists>r \<in> set t. o_reference r = ref then MerchantOwnershipException ref m
           else OrderNotFoundException ref)"
    using None ref by (auto simp: validateOrder_def split: option.split)
  have "MerchantOwnershipException ref m \<noteq> OrderNotFoundException ref"
    by (rule exn_status_neq) simp
  with v no show ?thesis by auto
next
  case (Some q)
  then have q: "q \<in> set t" "o_merchantId q = m" "o_reference q = ref"
    using findByMerchantAndReference_Some [OF assms] by auto
  have "exn_status e \<in> {422, 409}" if "validateOrder t m ref amt cur = Inl e" for e
    using that Some q(2) by (auto simp: validateOrder_def split: if_splits)
  from this [of "MerchantOwnershipException ref m"] this [of "OrderNotFoundException ref"]
  have "validateOrder t m ref amt cur \<noteq> Inl (MerchantOwnershipException ref m)"
    and "validateOrder t m ref amt cur \<noteq> Inl (OrderNotFoundException ref)"
    by auto
  with q show ?thesis by blast
qed

theorem validateOrder_errors_witness:
  "validateOrder sample_orders ''m1'' ''r2'' 70 ''EUR'' = Inl (MerchantOwnershipException ''r2'' ''m1'')"
  using validateOrder_errors [OF sample_orders_ok, of "''m1''" "''r2''" 70 "''EUR''"]
  by (simp add: sample_orders_def)

end
