(* ===== verification/Fraud.thy ===== *)
theory Fraud
  imports Errors
begin

text \<open>
  The fraud service: its configuration (\<open>config/fraud.config.ts\<close>), the five screening rules
  (\<open>fraud/rules\<close>), their order (\<open>fraud/fraud.module.ts\<close>), \<open>FraudService.runPrecheck\<close> and the
  endpoint. The three-second sleep for one test merchant is \<open>precheck_delay\<close>. Logging is left out.
\<close>

section \<open>Configuration\<close>

record fraud_config =
  fc_maxAmountThreshold :: "jsnum option"
  fc_blacklistedMerchants :: "string list option"
  fc_supportedCurrencies :: "string list option"

definition fraudConfig :: "(string \<Rightarrow> string option) \<Rightarrow> fraud_config" where
  "fraudConfig env =
     \<lparr>fc_maxAmountThreshold = Some (js_parseInt (str_or (env ''FRAUD_MAX_AMOUNT_THRESHOLD'') ''10000000'')),
      fc_blacklistedMerchants = Some (filter (\<lambda>s. s \<noteq> [])
        (map js_trim (js_split (CHR '','') (str_or (env ''FRAUD_BLACKLISTED_MERCHANTS'') [])))),
      fc_supportedCurrencies = Some (filter (\<lambda>s. s \<noteq> [])
        (map (\<lambda>c. js_upper (js_trim c))
          (js_split (CHR '','') (str_or (env ''FRAUD_SUPPORTED_CURRENCIES'') ''INR,USD,EUR,GBP''))))\<rparr>"

section \<open>Rules\<close>

record precheck_request =
  pr_merchantId :: string
  pr_amount :: rat
  pr_currency :: string

record rule_result =
  rr_approved :: bool
  rr_riskScore :: rat
  rr_reason :: "string option"

record fraud_rule =
  fr_name :: string
  fr_evaluate :: "precheck_request \<Rightarrow> rule_result"

definition rule_pass :: "rat \<Rightarrow> rule_result" where
  "rule_pass k = \<lparr>rr_approved = True, rr_riskScore = k, rr_reason = None\<rparr>"

definition rule_fail :: "rat \<Rightarrow> string \<Rightarrow> rule_result" where
  "rule_fail k why = \<lparr>rr_approved = False, rr_riskScore = k, rr_reason = Some why\<rparr>"

text \<open>\<open>get('fraud.maxAmountThreshold') || 10000000\<close>: undefined, 0 and NaN give the default.\<close>

definition max_threshold :: "fraud_config \<Rightarrow> jsnum" where
  "max_threshold cfg = (case fc_maxAmountThreshold cfg of
       None \<Rightarrow> Fin 10000000
     | Some x \<Rightarrow> if truthy (JNum x) then x else Fin 10000000)"

fun num_gt :: "rat \<Rightarrow> jsnum \<Rightarrow> bool" where
  "num_gt a (Fin q) = (q < a)"
| "num_gt a (Inf pos) = (\<not> pos)"
| "num_gt a NaN = False"

definition AmountThresholdRule :: "fraud_config \<Rightarrow> precheck_request \<Rightarrow> rule_result" where
  "AmountThresholdRule cfg b =
     (if num_gt (pr_amount b) (max_threshold cfg) then rule_fail 96 ''AMOUNT_THRESHOLD_EXCEEDED''
      else rule_pass 0)"

definition supported_currencies :: "fraud_config \<Rightarrow> string list" where
  "supported_currencies cfg = (case fc_supportedCurrencies cfg of
     None \<Rightarrow> [''INR'', ''USD'', ''EUR'', ''GBP''] | Some cs \<Rightarrow> cs)"

definition UnsupportedCurrencyRule :: "fraud_config \<Rightarrow> precheck_request \<Rightarrow> rule_result" where
  "UnsupportedCurrencyRule cfg b =
     (if js_upper (js_trim (pr_currency b)) \<notin> set (supported_currencies cfg)
      then rule_fail 90 ''UNSUPPORTED_CURRENCY'' else rule_pass 0)"

definition blacklist :: "fraud_config \<Rightarrow> string list" where
  "blacklist cfg = (case fc_blacklistedMerchants cfg of None \<Rightarrow> [] | Some ms \<Rightarrow> ms)"

definition BlacklistedMerchantRule :: "fraud_config \<Rightarrow> precheck_request \<Rightarrow> rule_result" where
  "BlacklistedMerchantRule cfg b =
     (if pr_merchantId b \<in> set (blacklist cfg) then rule_fail 99 ''MERCHANT_BLACKLISTED'' else rule_pass 0)"

definition VelocityThresholdRule :: "precheck_request \<Rightarrow> rule_result" where
  "VelocityThresholdRule b = rule_pass 2"

definition KnownFraudPatternRule :: "precheck_request \<Rightarrow> rule_result" where
  "KnownFraudPatternRule b = rule_pass 0"

definition FRAUD_RULES :: "fraud_config \<Rightarrow> fraud_rule list" where
  "FRAUD_RULES cfg =
     [\<lparr>fr_name = ''AmountThresholdRule'', fr_evaluate = AmountThresholdRule cfg\<rparr>,
      \<lparr>fr_name = ''UnsupportedCurrencyRule'', fr_evaluate = UnsupportedCurrencyRule cfg\<rparr>,
      \<lparr>fr_name = ''BlacklistedMerchantRule'', fr_evaluate = BlacklistedMerchantRule cfg\<rparr>,
      \<lparr>fr_name = ''VelocityThresholdRule'', fr_evaluate = VelocityThresholdRule\<rparr>,
      \<lparr>fr_name = ''KnownFraudPatternRule'', fr_evaluate = KnownFraudPatternRule\<rparr>]"

section \<open>The screening loop\<close>

record precheck_response =
  ps_approved :: bool
  ps_riskScore :: rat

fun run_rules :: "fraud_rule list \<Rightarrow> rat \<Rightarrow> precheck_request \<Rightarrow> exn + precheck_response" where
  "run_rules [] score b = Inr \<lparr>ps_approved = True, ps_riskScore = score\<rparr>"
| "run_rules (r # rs) score b =
     (let result = fr_evaluate r b
      in if \<not> rr_approved result
         then Inl (FraudRejectedException (pr_merchantId b) (pr_amount b) (pr_currency b)
                (rr_riskScore result) (rr_reason result))
         else run_rules rs (score + rr_riskScore result) b)"

definition runPrecheck :: "fraud_rule list \<Rightarrow> precheck_request \<Rightarrow> exn + precheck_response" where
  "runPrecheck rules b = run_rules rules 10 b"

text \<open>How long the answer is kept back, in milliseconds, before the rules run.\<close>

definition E2E_TIMEOUT_MERCHANT :: string where
  "E2E_TIMEOUT_MERCHANT = ''00000000-0000-4000-a000-000000000000''"

definition precheck_delay :: "string \<Rightarrow> nat" where
  "precheck_delay merchantId = (if merchantId = E2E_TIMEOUT_MERCHANT then 3000 else 0)"

record precheck_body =
  pb_merchantId :: string
  pb_amount :: jsnum
  pb_currency :: string

definition PrecheckRequestDto_ok :: "(string \<Rightarrow> bool) \<Rightarrow> precheck_body \<Rightarrow> bool" where
  "PrecheckRequestDto_ok is_uuid4 b \<longleftrightarrow>
     pb_merchantId b \<noteq> [] \<and> is_uuid4 (pb_merchantId b) \<and>
     is_integer (pb_amount b) \<and> (case pb_amount b of Fin q \<Rightarrow> 0 < q | _ \<Rightarrow> False) \<and>
     pb_currency b \<noteq> []"

definition FraudController_precheck ::
  "(string \<Rightarrow> bool) \<Rightarrow> exn \<Rightarrow> fraud_rule list \<Rightarrow> precheck_body \<Rightarrow> exn + precheck_response" where
  "FraudController_precheck is_uuid4 validation_error rules b =
     (if \<not> PrecheckRequestDto_ok is_uuid4 b then Inl validation_error
      else runPrecheck rules \<lparr>pr_merchantId = pb_merchantId b,
             pr_amount = (case pb_amount b of Fin q \<Rightarrow> q | _ \<Rightarrow> 0), pr_currency = pb_currency b\<rparr>)"

section \<open>Lemmas\<close>

lemma run_rules_approved_iff:
  "(\<exists>p. run_rules rs k b = Inr p) \<longleftrightarrow> (\<forall>r \<in> set rs. rr_approved (fr_evaluate r b))"
  by (induction rs arbitrary: k) (auto simp: Let_def)

lemma run_rules_score:
  "run_rules rs k b = Inr p \<Longrightarrow>
     p = \<lparr>ps_approved = True, ps_riskScore = k + sum_list (map (\<lambda>r. rr_riskScore (fr_evaluate r b)) rs)\<rparr>"
proof (induction rs arbitrary: k)
  case Nil
  then show ?case by simp
next
  case (Cons r rs)
  then have "run_rules rs (k + rr_riskScore (fr_evaluate r b)) b = Inr p"
    by (simp add: Let_def split: if_splits)
  from Cons.IH [OF this] show ?case by (simp add: add.assoc)
qed

lemma run_rules_first_refusal:
  "\<forall>r \<in> set rs. rr_approved (fr_evaluate r b) \<Longrightarrow> \<not> rr_approved (fr_evaluate q b) \<Longrightarrow>
   run_rules (rs @ q # qs) k b =
     Inl (FraudRejectedException (pr_merchantId b) (pr_amount b) (pr_currency b)
            (rr_riskScore (fr_evaluate q b)) (rr_reason (fr_evaluate q b)))"
  by (induction rs arbitrary: k) (auto simp: Let_def)

lemma rule_result_simps [simp]:
  "rr_approved (rule_pass k)" "\<not> rr_approved (rule_fail k w)"
  "rr_riskScore (rule_pass k) = k" "rr_riskScore (rule_fail k w) = k"
  "rr_reason (rule_fail k w) = Some w" "rr_reason (rule_pass k) = None"
  by (simp_all add: rule_pass_def rule_fail_def)

lemmas fraud_rule_defs = AmountThresholdRule_def UnsupportedCurrencyRule_def
  BlacklistedMerchantRule_def VelocityThresholdRule_def KnownFraudPatternRule_def

section \<open>Properties\<close>

text \<open>
  The verdict of the screening, for any configuration: a request is approved, always with risk
  score 12, exactly when its amount is within the threshold, its currency (trimmed, in upper case)
  is supported and its merchant is not on the blacklist. A refused request is rejected with the
  score and reason of the first rule it breaks, in the order amount, currency, merchant.
\<close>

theorem precheck_verdict:
  "runPrecheck (FRAUD_RULES cfg) b =
     (let reject = (\<lambda>k why. Inl (FraudRejectedException (pr_merchantId b) (pr_amount b) (pr_currency b) k (Some why)))
      in if num_gt (pr_amount b) (max_threshold cfg) then reject 96 ''AMOUNT_THRESHOLD_EXCEEDED''
         else if js_upper (js_trim (pr_currency b)) \<notin> set (supported_currencies cfg)
         then reject 90 ''UNSUPPORTED_CURRENCY''
         else if pr_merchantId b \<in> set (blacklist cfg) then reject 99 ''MERCHANT_BLACKLISTED''
         else Inr \<lparr>ps_approved = True, ps_riskScore = 12\<rparr>)"
  by (simp add: runPrecheck_def FRAUD_RULES_def fraud_rule_defs Let_def)

text \<open>
  Any rule list an operator may configure: the screening approves exactly when every rule does,
  and then the reported risk is the base score 10 plus the scores of all the rules.
\<close>

theorem precheck_any_rules:
  "runPrecheck rules b = Inr p \<longleftrightarrow>
     (\<forall>r \<in> set rules. rr_approved (fr_evaluate r b)) \<and>
     p = \<lparr>ps_approved = True, ps_riskScore = 10 + sum_list (map (\<lambda>r. rr_riskScore (fr_evaluate r b)) rules)\<rparr>"
  unfolding runPrecheck_def using run_rules_approved_iff run_rules_score by metis

definition sample_fraud_config :: fraud_config where
  "sample_fraud_config = \<lparr>fc_maxAmountThreshold = Some (Fin 500),
     fc_blacklistedMerchants = Some [''bad''], fc_supportedCurrencies = Some [''USD'', ''EUR'']\<rparr>"

lemma sample_fraud_config_simps:
  "max_threshold sample_fraud_config = Fin 500" "blacklist sample_fraud_config = [''bad'']"
  "supported_currencies sample_fraud_config = [''USD'', ''EUR'']"
  by (simp_all add: sample_fraud_config_def max_threshold_def blacklist_def supported_currencies_def)

lemma upper_usd: "js_upper (js_trim ''usd '') = ''USD''"
  by code_simp

theorem precheck_any_rules_witness:
  "runPrecheck (FRAUD_RULES sample_fraud_config)
     \<lparr>pr_merchantId = ''m1'', pr_amount = 100, pr_currency = ''usd ''\<rparr>
   = Inr \<lparr>ps_approved = True, ps_riskScore = 12\<rparr>"
  unfolding precheck_any_rules
  by (simp add: FRAUD_RULES_def fraud_rule_defs sample_fraud_config_simps upper_usd)

end
