(* ===== verification/Http.thy ===== *)
theory Http
  imports Errors
begin

text \<open>
  The internal HTTP client of \<open>packages/common/http\<close>: the registry of services, header propagation,
  the retry policy, the translation of transport failures into the platform's exceptions, and
  \<open>HttpClient.request\<close> that composes them. The transport itself (axios) is a parameter: for each
  request and each attempt it gives a response or a failure. \<open>js_env\<close> holds what is used of
  the JavaScript runtime and of NestJS's status enum: \<open>JSON.stringify\<close>, \<open>String(v)\<close> and the name
  of a status code. Logging and timing are left out.
\<close>

section \<open>Service registry\<close>

datatype InternalService = GATEWAY | MERCHANT | PAYMENT | ORDER | LEDGER | BALANCE | NOTIFICATION | FRAUD

fun service_name :: "InternalService \<Rightarrow> string" where
  "service_name GATEWAY = ''gateway''"
| "service_name MERCHANT = ''merchant-service''"
| "service_name PAYMENT = ''payment-service''"
| "service_name ORDER = ''order-service''"
| "service_name LEDGER = ''ledger-service''"
| "service_name BALANCE = ''balance-service''"
| "service_name NOTIFICATION = ''notification-service''"
| "service_name FRAUD = ''fraud-service''"

record services_config =
  sc_gatewayUrl :: string
  sc_merchantServiceUrl :: string
  sc_paymentServiceUrl :: string
  sc_orderServiceUrl :: string
  sc_ledgerServiceUrl :: string
  sc_balanceServiceUrl :: string
  sc_notificationServiceUrl :: string
  sc_fraudServiceUrl :: string

fun registry :: "services_config \<Rightarrow> InternalService \<Rightarrow> string" where
  "registry c GATEWAY = sc_gatewayUrl c"
| "registry c MERCHANT = sc_merchantServiceUrl c"
| "registry c PAYMENT = sc_paymentServiceUrl c"
| "registry c ORDER = sc_orderServiceUrl c"
| "registry c LEDGER = sc_ledgerServiceUrl c"
| "registry c BALANCE = sc_balanceServiceUrl c"
| "registry c NOTIFICATION = sc_notificationServiceUrl c"
| "registry c FRAUD = sc_fraudServiceUrl c"

definition registry_resolve :: "services_config \<Rightarrow> InternalService \<Rightarrow> exn + string" where
  "registry_resolve c service =
     (if registry c service = []
      then Inl (JsError ''Error'' [Lit (''Service '' @ service_name service @
                  '' is not registered in the service registry.'')])
      else Inr (registry c service))"

section \<open>Requests, headers and transport failures\<close>

type_synonym headers = "string \<Rightarrow> string option"

record request_context =
  rc_requestId :: "string option"
  rc_correlationId :: "string option"
  rc_merchantId :: "string option"

record http_request =
  hr_method :: string
  hr_url :: string
  hr_baseURL :: string
  hr_timeout :: nat
  hr_headers :: headers
  hr_data :: "json option"

definition truthy_header :: "headers \<Rightarrow> string \<Rightarrow> bool" where
  "truthy_header h k = (case h k of None \<Rightarrow> False | Some v \<Rightarrow> v \<noteq> [])"

text \<open>One of the three \<open>if\<close>s: set \<open>name\<close> unless the caller gave the header under either spelling.\<close>

definition propagate_one :: "string option \<Rightarrow> string \<Rightarrow> string \<Rightarrow> headers \<Rightarrow> headers" where
  "propagate_one v lower name h =
     (case v of None \<Rightarrow> h
      | Some s \<Rightarrow> if s \<noteq> [] \<and> \<not> truthy_header h lower \<and> \<not> truthy_header h name then h(name \<mapsto> s) else h)"

definition propagateHeaders :: "(headers \<Rightarrow> headers) \<Rightarrow> request_context \<Rightarrow> http_request \<Rightarrow> http_request" where
  "propagateHeaders inject ctx rq =
     (let h0 = hr_headers rq;
          h1 = propagate_one (rc_requestId ctx) ''x-request-id'' ''X-Request-ID'' h0;
          h2 = propagate_one (rc_correlationId ctx) ''x-correlation-id'' ''X-Correlation-ID'' h1;
          h3 = propagate_one (rc_merchantId ctx) ''x-merchant-id'' ''X-Merchant-ID'' h2
      in rq\<lparr>hr_headers := inject h3\<rparr>)"

datatype failure =
    AxiosResponse nat json
  | AxiosNoResponse "string option" string
  | AxiosSetup string
  | OtherError string

section \<open>The retry policy\<close>

definition response_status :: "failure \<Rightarrow> nat option" where
  "response_status e = (case e of AxiosResponse s d \<Rightarrow> Some s | _ \<Rightarrow> None)"

definition is4xx :: "failure \<Rightarrow> bool" where
  "is4xx e = (case response_status e of None \<Rightarrow> False | Some s \<Rightarrow> 400 \<le> s \<and> s < 500)"

definition should_retry :: "string \<Rightarrow> bool \<Rightarrow> bool" where
  "should_retry method forceRetry = (forceRetry \<or> js_upper method \<in> {''GET'', ''PUT'', ''DELETE''})"

text \<open>
  The \<open>while (true)\<close> loop: \<open>fn k\<close> is the outcome of call number \<open>k\<close>. The result comes with
  the list of the delays slept through, one for each retry.
\<close>

function retry_loop ::
  "bool \<Rightarrow> nat \<Rightarrow> nat \<Rightarrow> (nat \<Rightarrow> failure + 'a) \<Rightarrow> nat \<Rightarrow> (failure + 'a) \<times> nat list" where
  "retry_loop shouldRetry maxAttempts delayMs fn attempt =
     (case fn attempt of
        Inr v \<Rightarrow> (Inr v, [])
      | Inl e \<Rightarrow>
          if \<not> shouldRetry \<or> is4xx e \<or> attempt + 1 > maxAttempts then (Inl e, [])
          else (let (r, ds) = retry_loop shouldRetry maxAttempts delayMs fn (attempt + 1)
                in (r, delayMs * 2 ^ attempt # ds)))"
  by pat_completeness auto
termination
  by (relation "measure (\<lambda>(sr, m, d, fn, a). m - a)") auto

declare retry_loop.simps [simp del]

definition retry_execute ::
  "nat \<Rightarrow> nat \<Rightarrow> string \<Rightarrow> bool \<Rightarrow> (nat \<Rightarrow> failure + 'a) \<Rightarrow> (failure + 'a) \<times> nat list" where
  "retry_execute maxAttempts delayMs method forceRetry fn =
     retry_loop (should_retry method forceRetry) maxAttempts delayMs fn 0"

section \<open>Translation of failures\<close>

record js_env =
  je_stringify :: "json \<Rightarrow> string"
  je_string :: "json \<Rightarrow> string"
  je_status_name :: "nat \<Rightarrow> string option"

definition InternalServiceException ::
  "js_env \<Rightarrow> string \<Rightarrow> string \<Rightarrow> nat \<Rightarrow> (string \<times> json) list \<Rightarrow> json option \<Rightarrow> exn" where
  "InternalServiceException env name message status details data =
     HttpExn \<lparr>he_name = name, he_status = status,
       he_response = JObj [(''statusCode'', jnat status), (''message'', JStr message),
         (''error'', JStr (case je_status_name env status of Some n \<Rightarrow> n | None \<Rightarrow> ''InternalServiceError'')),
         (''details'', JObj details)],
       he_message = [Lit message], he_response_data = data\<rparr>"

definition ServiceUnavailableException :: "js_env \<Rightarrow> string \<Rightarrow> (string \<times> json) list \<Rightarrow> exn" where
  "ServiceUnavailableException env message details =
     InternalServiceException env ''ServiceUnavailableException'' message 503 details None"

definition RequestTimeoutException :: "js_env \<Rightarrow> string \<Rightarrow> (string \<times> json) list \<Rightarrow> exn" where
  "RequestTimeoutException env message details =
     InternalServiceException env ''RequestTimeoutException'' message 504 details None"

definition DownstreamResponseException ::
  "js_env \<Rightarrow> string \<Rightarrow> nat \<Rightarrow> json \<Rightarrow> (string \<times> json) list \<Rightarrow> exn" where
  "DownstreamResponseException env service statusCode responseData details =
     InternalServiceException env ''DownstreamResponseException''
       (''Downstream service ['' @ service @ ''] returned status code '' @ show_nat statusCode) statusCode
       (details @ [(''originalError'', JStr (if typeof_object responseData then je_stringify env responseData
                                  else je_string env responseData)),
         (''statusCode'', jnat statusCode)])
       (Some responseData)"

definition translate_failure :: "js_env \<Rightarrow> string \<Rightarrow> http_request \<Rightarrow> failure \<Rightarrow> exn" where
  "translate_failure env serviceName rq e =
     (let base = [(''service'', JStr serviceName), (''method'', JStr (js_upper (hr_method rq))),
                  (''url'', JStr (hr_baseURL rq @ hr_url rq))];
          details = (\<lambda>msg. base @ [(''originalError'', JStr msg)])
      in case e of
        AxiosResponse status data \<Rightarrow> DownstreamResponseException env serviceName status data base
      | AxiosNoResponse code msg \<Rightarrow>
          if code = Some ''ETIMEDOUT'' \<or> code = Some ''ECONNABORTED'' \<or> js_includes msg ''timeout''
          then RequestTimeoutException env
                 (''Request to ['' @ serviceName @ ''] timed out after '' @ show_nat (hr_timeout rq) @ ''ms'')
                 (details msg)
          else ServiceUnavailableException env
                 (''Service ['' @ serviceName @ ''] is unavailable (network error: '' @
                  str_or code ''UNKNOWN'' @ '')'') (details msg)
      | AxiosSetup msg \<Rightarrow> ServiceUnavailableException env
          (''Request setup error to ['' @ serviceName @ '']: '' @ msg) (details msg)
      | OtherError msg \<Rightarrow> ServiceUnavailableException env
          (''Request error to ['' @ serviceName @ '']: '' @ msg) (details msg))"

section \<open>The client\<close>

record http_client =
  hc_serviceName :: string
  hc_baseURL :: string
  hc_timeout :: nat
  hc_retries :: nat
  hc_retryDelay :: nat

record call_config =
  cc_timeout :: "nat option"
  cc_forceRetry :: bool
  cc_headers :: headers
  cc_data :: "json option"

definition HttpClient_request ::
  "js_env \<Rightarrow> (headers \<Rightarrow> headers) \<Rightarrow> (http_request \<Rightarrow> nat \<Rightarrow> failure + json) \<Rightarrow> http_client \<Rightarrow>
   request_context \<Rightarrow> string \<Rightarrow> string \<Rightarrow> call_config \<Rightarrow> exn + json" where
  "HttpClient_request env inject transport c ctx method url cfg =
     (let rq = propagateHeaders inject ctx
            \<lparr>hr_method = method, hr_url = url, hr_baseURL = hc_baseURL c,
             hr_timeout = (case cc_timeout cfg of Some t \<Rightarrow> t | None \<Rightarrow> hc_timeout c),
             hr_headers = cc_headers cfg, hr_data = cc_data cfg\<rparr>
      in case fst (retry_execute (hc_retries c) (hc_retryDelay c) method (cc_forceRetry cfg) (transport rq)) of
           Inr data \<Rightarrow> Inr data
         | Inl e \<Rightarrow> Inl (translate_failure env (hc_serviceName c) rq e))"

definition HttpClient_get where
  "HttpClient_get env inject transport c ctx url cfg =
     HttpClient_request env inject transport c ctx ''GET'' url cfg"

definition HttpClient_post where
  "HttpClient_post env inject transport c ctx url data cfg =
     HttpClient_request env inject transport c ctx ''POST'' url (cfg\<lparr>cc_data := data\<rparr>)"

definition HttpClient_put where
  "HttpClient_put env inject transport c ctx url data cfg =
     HttpClient_request env inject transport c ctx ''PUT'' url (cfg\<lparr>cc_data := data\<rparr>)"

definition HttpClient_patch where
  "HttpClient_patch env inject transport c ctx url data cfg =
     HttpClient_request env inject transport c ctx ''PATCH'' url (cfg\<lparr>cc_data := data\<rparr>)"

definition HttpClient_delete where
  "HttpClient_delete env inject transport c ctx url cfg =
     HttpClient_request env inject transport c ctx ''DELETE'' url cfg"

section \<open>Lemmas\<close>

lemma retry_loop_spec:
  "retry_loop sr m d fn a = (r, ds) \<Longrightarrow> a \<le> m \<Longrightarrow>
     r = fn (a + length ds) \<and> a + length ds \<le> m \<and>
     (\<forall>i < length ds. \<exists>e. fn (a + i) = Inl e \<and> \<not> is4xx e) \<and>
     ds = map (\<lambda>i. d * 2 ^ (a + i)) [0..<length ds] \<and>
     (\<not> sr \<longrightarrow> ds = []) \<and>
     (\<forall>e. r = Inl e \<longrightarrow> \<not> sr \<or> is4xx e \<or> a + length ds = m)"
proof (induction sr m d fn a arbitrary: r ds rule: retry_loop.induct)
  case (1 sr m d fn a)
  show ?case
  proof (cases "fn a")
    case (Inr v)
    with 1(2,3) show ?thesis by (auto simp: retry_loop.simps [of sr m d fn a])
  next
    case (Inl e)
    show ?thesis
    proof (cases "\<not> sr \<or> is4xx e \<or> a + 1 > m")
      case True
      with Inl 1(2,3) show ?thesis by (auto simp: retry_loop.simps [of sr m d fn a])
    next
      case False
      obtain ds' where ds: "ds = d * 2 ^ a # ds'" "retry_loop sr m d fn (a + 1) = (r, ds')"
      proof -
        have "retry_loop sr m d fn a = (let (r, ds) = retry_loop sr m d fn (a + 1) in (r, d * 2 ^ a # ds))"
          using False Inl by (subst retry_loop.simps) simp
        then show thesis using that 1(2) by (auto simp: Let_def split: prod.splits)
      qed
      have IH: "r = fn (a + 1 + length ds') \<and> a + 1 + length ds' \<le> m \<and>
        (\<forall>i < length ds'. \<exists>e. fn (a + 1 + i) = Inl e \<and> \<not> is4xx e) \<and>
        ds' = map (\<lambda>i. d * 2 ^ (a + 1 + i)) [0..<length ds'] \<and> (\<not> sr \<longrightarrow> ds' = []) \<and>
        (\<forall>e. r = Inl e \<longrightarrow> \<not> sr \<or> is4xx e \<or> a + 1 + length ds' = m)"
        using 1(1) [OF Inl False ds(2)] False by simp
      have "\<exists>e'. fn (a + i) = Inl e' \<and> \<not> is4xx e'" if "i < length ds" for i
        using that Inl False IH ds(1) by (cases i) auto
      moreover have "ds = map (\<lambda>i. d * 2 ^ (a + i)) [0..<length ds]"
      proof -
        have "[0..<length ds] = 0 # map Suc [0..<length ds']"
          using ds(1) by (simp add: map_Suc_upt upt_conv_Cons del: upt_Suc)
        then show ?thesis using IH ds(1) by (simp add: comp_def)
      qed
      ultimately show ?thesis using IH ds(1) False by auto
    qed
  qed
qed

section \<open>Properties\<close>

text \<open>
  The retry policy: the result is that of the last call made; at most \<open>maxAttempts\<close> retries
  follow the first call; every call before the last failed with something other than a 4xx answer;
  the delays double from \<open>delayMs\<close>; a failure is final only for a method that may not be retried,
  on a 4xx answer, or once the retries are used up.
\<close>

theorem retry_policy:
  assumes "retry_execute maxAttempts delayMs method forceRetry fn = (r, ds)"
  shows "r = fn (length ds) \<and> length ds \<le> maxAttempts
    \<and> (\<forall>i < length ds. \<exists>e. fn i = Inl e \<and> \<not> is4xx e)
    \<and> ds = map (\<lambda>i. delayMs * 2 ^ i) [0..<length ds]
    \<and> (\<forall>e. r = Inl e \<longrightarrow> \<not> should_retry method forceRetry \<or> is4xx e \<or> length ds = maxAttempts)"
  using retry_loop_spec [of "should_retry method forceRetry" maxAttempts delayMs fn 0 r ds] assms
  by (simp add: retry_execute_def)

lemma retry_example:
  "retry_execute 3 100 ''GET'' False
     (\<lambda>k. if k < 2 then Inl (AxiosResponse 500 JNull) else Inr (7::nat)) = (Inr 7, [100, 200])"
proof -
  have "js_upper ''GET'' = ''GET''" by code_simp
  then show ?thesis
    by (simp add: retry_execute_def should_retry_def retry_loop.simps is4xx_def response_status_def)
qed

theorem retry_policy_witness:
  "(Inr (7::nat) :: failure + nat) = (\<lambda>k. if k < 2 then Inl (AxiosResponse 500 JNull) else Inr 7) (length [100, 200::nat])
   \<and> length [100, 200::nat] \<le> 3"
  using retry_policy [OF retry_example] by simp

text \<open>
  A payment or validation request is never repeated by the client: a \<open>POST\<close> or \<open>PATCH\<close> without
  \<open>forceRetry\<close> makes exactly one call, whatever its outcome.
\<close>

theorem post_sent_once:
  "snd (retry_execute maxAttempts delayMs ''POST'' False fn) = []
   \<and> snd (retry_execute maxAttempts delayMs ''PATCH'' False fn) = []
   \<and> fst (retry_execute maxAttempts delayMs ''POST'' False fn) = fn 0"
proof -
  have u: "js_upper ''POST'' = ''POST''" "js_upper ''PATCH'' = ''PATCH''" by code_simp+
  then have "should_retry ''POST'' False = False" "should_retry ''PATCH'' False = False"
    by (simp_all add: should_retry_def)
  then show ?thesis
    by (simp add: retry_execute_def retry_loop.simps split: sum.split)
qed

text \<open>
  Header propagation keeps every header the caller gave, and sends the identifiers of the
  request context under the standard names unless the caller set them itself (with no tracing
  headers injected).
\<close>

theorem propagate_preserves:
  "(\<forall>k v. hr_headers rq k = Some v \<longrightarrow> v \<noteq> [] \<longrightarrow>
      hr_headers (propagateHeaders (\<lambda>h. h) ctx rq) k = Some v)
   \<and> (\<forall>s. rc_merchantId ctx = Some s \<longrightarrow> s \<noteq> [] \<longrightarrow> \<not> truthy_header (hr_headers rq) ''x-merchant-id'' \<longrightarrow>
        \<not> truthy_header (hr_headers rq) ''X-Merchant-ID'' \<longrightarrow>
        hr_headers (propagateHeaders (\<lambda>h. h) ctx rq) ''X-Merchant-ID'' = Some s)"
proof -
  have keep: "h k = Some v \<Longrightarrow> v \<noteq> [] \<Longrightarrow> propagate_one w l n h k = Some v" for h k v w l n
    by (auto simp: propagate_one_def truthy_header_def split: option.splits)
  have other: "k \<noteq> n \<Longrightarrow> propagate_one w l n h k = h k" for k n w l h
    by (auto simp: propagate_one_def split: option.splits)
  show ?thesis
    by (auto simp: propagateHeaders_def Let_def keep)
       (simp add: propagate_one_def [of _ "''x-merchant-id''"] truthy_header_def other)
qed

definition sample_request :: http_request where
  "sample_request = \<lparr>hr_method = ''POST'', hr_url = ''/p'', hr_baseURL = ''http://p'', hr_timeout = 2000,
     hr_headers = (\<lambda>k. None)(''x-api-key'' \<mapsto> ''k''), hr_data = None\<rparr>"

theorem propagate_preserves_witness:
  "hr_headers (propagateHeaders (\<lambda>h. h)
     \<lparr>rc_requestId = Some ''r'', rc_correlationId = None, rc_merchantId = Some ''m1''\<rparr> sample_request) ''X-Merchant-ID''
   = Some ''m1''
   \<and> hr_headers (propagateHeaders (\<lambda>h. h)
     \<lparr>rc_requestId = Some ''r'', rc_correlationId = None, rc_merchantId = Some ''m1''\<rparr> sample_request) ''x-api-key''
   = Some ''k''"
  using propagate_preserves [of sample_request "\<lparr>rc_requestId = Some ''r'', rc_correlationId = None, rc_merchantId = Some ''m1''\<rparr>"]
  by (simp add: sample_request_def truthy_header_def)

end
