(* ===== verification/Serializer.thy ===== *)
theory Serializer
  imports Errors
begin

text \<open>
  Event envelopes and their wire format: \<open>packages/events/src/envelope.ts\<close> and
  \<open>packages/common/src/messaging/serializer.ts\<close>. An envelope that has passed validation is a
  record; before that it is any JSON value. \<open>parse\<close> and \<open>stringify\<close> are the runtime's
  \<open>JSON.parse\<close> (on the buffer's text) and \<open>Buffer.from(JSON.stringify(..))\<close>; \<open>date_ok\<close> is
  \<open>!isNaN(Date.parse(..))\<close>. Upgrade functions are registered by the services, so the registry is an
  argument; since nothing forces them to raise the version, the upgrade loop is a partial function.
\<close>

section \<open>Envelopes\<close>

record envelope =
  e_eventId :: string
  e_eventType :: string
  e_correlationId :: string
  e_causationId :: string
  e_sagaId :: string
  e_timestamp :: string
  e_version :: jsnum
  e_payload :: json
  e_extra :: "(string \<times> json) list"

definition envelope_keys :: "string list" where
  "envelope_keys = [''eventId'', ''eventType'', ''correlationId'', ''causationId'', ''sagaId'',
     ''timestamp'', ''version'', ''payload'']"

definition envelope_json :: "envelope \<Rightarrow> json" where
  "envelope_json e = JObj
     ([(''eventId'', JStr (e_eventId e)), (''eventType'', JStr (e_eventType e)),
       (''correlationId'', JStr (e_correlationId e)), (''causationId'', JStr (e_causationId e)),
       (''sagaId'', JStr (e_sagaId e)), (''timestamp'', JStr (e_timestamp e)),
       (''version'', JNum (e_version e)), (''payload'', e_payload e)] @ e_extra e)"

definition jstring :: "json option \<Rightarrow> string" where
  "jstring v = (case v of Some (JStr s) \<Rightarrow> s | _ \<Rightarrow> [])"

definition jnumber :: "json option \<Rightarrow> jsnum" where
  "jnumber v = (case v of Some (JNum n) \<Rightarrow> n | _ \<Rightarrow> NaN)"

text \<open>The typed view of a validated object; other properties are kept.\<close>

definition as_envelope :: "json \<Rightarrow> envelope" where
  "as_envelope j =
     \<lparr>e_eventId = jstring (jget j ''eventId''), e_eventType = jstring (jget j ''eventType''),
      e_correlationId = jstring (jget j ''correlationId''), e_causationId = jstring (jget j ''causationId''),
      e_sagaId = jstring (jget j ''sagaId''), e_timestamp = jstring (jget j ''timestamp''),
      e_version = jnumber (jget j ''version''),
      e_payload = (case jget j ''payload'' of Some p \<Rightarrow> p | None \<Rightarrow> JNull),
      e_extra = (case j of JObj ps \<Rightarrow> filter (\<lambda>p. fst p \<notin> set envelope_keys) ps | _ \<Rightarrow> [])\<rparr>"

definition CURRENT_EVENT_VERSION :: rat where "CURRENT_EVENT_VERSION = 1"

section \<open>Exceptions\<close>

definition MalformedEventEnvelopeException :: "string \<Rightarrow> exn" where
  "MalformedEventEnvelopeException msg = JsError ''MalformedEventEnvelopeException'' [Lit msg]"

definition UnsupportedEventVersionException :: "frag list \<Rightarrow> exn" where
  "UnsupportedEventVersionException msg = JsError ''UnsupportedEventVersionException'' msg"

definition EventDeserializationException :: "string \<Rightarrow> exn" where
  "EventDeserializationException msg = JsError ''EventDeserializationException'' [Lit msg]"

definition MissingEventUpgradePathException :: "frag list \<Rightarrow> exn" where
  "MissingEventUpgradePathException msg = JsError ''MissingEventUpgradePathException'' msg"

section \<open>Validation\<close>

definition nonblank :: "json option \<Rightarrow> bool" where
  "nonblank v = (case v of Some (JStr s) \<Rightarrow> js_trim s \<noteq> [] | _ \<Rightarrow> False)"

definition validateEnvelope :: "(string \<Rightarrow> bool) \<Rightarrow> json \<Rightarrow> exn + unit" where
  "validateEnvelope date_ok env =
     (if \<not> truthy env \<or> \<not> typeof_object env
      then Inl (MalformedEventEnvelopeException ''Envelope must be a valid object'')
      else if \<not> nonblank (jget env ''eventId'')
      then Inl (MalformedEventEnvelopeException ''eventId is missing or empty'')
      else if \<not> nonblank (jget env ''eventType'')
      then Inl (MalformedEventEnvelopeException ''eventType is missing or empty'')
      else if \<not> nonblank (jget env ''correlationId'')
      then Inl (MalformedEventEnvelopeException ''correlationId is missing or empty'')
      else if \<not> nonblank (jget env ''causationId'')
      then Inl (MalformedEventEnvelopeException ''causationId is missing or empty'')
      else if \<not> nonblank (jget env ''sagaId'')
      then Inl (MalformedEventEnvelopeException ''sagaId is missing or empty'')
      else if \<not> nonblank (jget env ''timestamp'') \<or> \<not> date_ok (jstring (jget env ''timestamp''))
      then Inl (MalformedEventEnvelopeException ''timestamp is missing or invalid'')
      else if (case jget env ''version'' of Some (JNum n) \<Rightarrow> n = NaN | _ \<Rightarrow> True)
      then Inl (UnsupportedEventVersionException [Lit ''version is missing or invalid''])
      else if jget env ''payload'' = None
      then Inl (MalformedEventEnvelopeException ''payload property must exist'')
      else Inr ())"

section \<open>The upgrade registry\<close>

type_synonym upgrade = "envelope \<Rightarrow> exn + envelope"
type_synonym upgrade_registry = "string \<Rightarrow> (jsnum \<Rightarrow> upgrade option) option"

definition registry_register :: "string \<Rightarrow> jsnum \<Rightarrow> upgrade \<Rightarrow> upgrade_registry \<Rightarrow> upgrade_registry" where
  "registry_register eventType fromVersion f reg =
     (let inner = (case reg eventType of None \<Rightarrow> (\<lambda>v. None) | Some m \<Rightarrow> m)
      in reg(eventType \<mapsto> inner(fromVersion \<mapsto> f)))"

definition registry_getUpgrade :: "upgrade_registry \<Rightarrow> string \<Rightarrow> jsnum \<Rightarrow> upgrade option" where
  "registry_getUpgrade reg eventType fromVersion =
     (case reg eventType of None \<Rightarrow> None | Some m \<Rightarrow> m fromVersion)"

definition registry_clear :: upgrade_registry where
  "registry_clear = (\<lambda>t. None)"

lemma getUpgrade_register:
  "registry_getUpgrade (registry_register t v f reg) t' v' =
     (if t' = t \<and> v' = v then Some f else registry_getUpgrade reg t' v')"
  by (auto simp: registry_getUpgrade_def registry_register_def Let_def split: option.split)

lemma getUpgrade_clear: "registry_getUpgrade registry_clear t v = None"
  by (simp add: registry_getUpgrade_def registry_clear_def)

section \<open>Upgrading\<close>

fun num_lt :: "jsnum \<Rightarrow> rat \<Rightarrow> bool" where
  "num_lt (Fin q) t = (q < t)"
| "num_lt (Inf pos) t = (\<not> pos)"
| "num_lt NaN t = False"

fun num_frag :: "jsnum \<Rightarrow> frag" where
  "num_frag (Fin q) = Num q"
| "num_frag (Inf pos) = Lit (if pos then ''Infinity'' else ''-Infinity'')"
| "num_frag NaN = Lit ''NaN''"

fun num_succ :: "jsnum \<Rightarrow> jsnum" where
  "num_succ (Fin q) = Fin (q + 1)"
| "num_succ x = x"

partial_function (option) upgrade_loop ::
  "upgrade_registry \<Rightarrow> rat \<Rightarrow> envelope \<Rightarrow> (exn + envelope) option" where
  "upgrade_loop reg target current =
     (if num_lt (e_version current) target
      then (case registry_getUpgrade reg (e_eventType current) (e_version current) of
              None \<Rightarrow> Some (Inl (MissingEventUpgradePathException
                [Lit (''No upgrade path found for event type '' @ [CHR 0x22] @ e_eventType current @ [CHR 0x22] @
                      '' from version ''), num_frag (e_version current), Lit '' to version '',
                 num_frag (num_succ (e_version current))]))
            | Some f \<Rightarrow> (case f current of
                Inl e \<Rightarrow> Some (Inl e)
              | Inr nxt \<Rightarrow> upgrade_loop reg target nxt))
      else Some (Inr current))"

definition version_positive_integer :: "jsnum \<Rightarrow> bool" where
  "version_positive_integer v = (is_integer v \<and> \<not> num_lt v 0 \<and> v \<noteq> Fin 0)"

definition version_beyond :: "jsnum \<Rightarrow> rat \<Rightarrow> bool" where
  "version_beyond v t = (case v of Fin q \<Rightarrow> t < q | Inf pos \<Rightarrow> pos | NaN \<Rightarrow> False)"

definition upgradeVersion :: "upgrade_registry \<Rightarrow> envelope \<Rightarrow> rat \<Rightarrow> (exn + envelope) option" where
  "upgradeVersion reg env target =
     (if \<not> version_positive_integer (e_version env)
      then Some (Inl (UnsupportedEventVersionException
             [Lit ''Invalid event version: '', num_frag (e_version env)]))
      else if version_beyond (e_version env) CURRENT_EVENT_VERSION
      then Some (Inl (UnsupportedEventVersionException
             [Lit ''Unsupported future event version: '', num_frag (e_version env)]))
      else if e_version env = Fin target then Some (Inr env)
      else upgrade_loop reg target env)"

section \<open>The serializer\<close>

definition canonicalEnvelope :: "json \<Rightarrow> json" where
  "canonicalEnvelope env = envelope_json ((as_envelope env)\<lparr>e_extra := []\<rparr>)"

definition serialize :: "(json \<Rightarrow> 'buf) \<Rightarrow> (string \<Rightarrow> bool) \<Rightarrow> json \<Rightarrow> exn + 'buf" where
  "serialize stringify date_ok env =
     rbind (validateEnvelope date_ok env) (\<lambda>u.
       let v = e_version (as_envelope env)
       in if \<not> version_positive_integer v
          then Inl (UnsupportedEventVersionException [Lit ''Invalid event version: '', num_frag v])
          else if v \<noteq> Fin CURRENT_EVENT_VERSION
          then Inl (UnsupportedEventVersionException
                 [Lit ''Producer is restricted to publishing current event version ('', Num CURRENT_EVENT_VERSION,
                  Lit ''), but got version '', num_frag v])
          else Inr (stringify (canonicalEnvelope env)))"

definition deserialize ::
  "('buf \<Rightarrow> json option) \<Rightarrow> (string \<Rightarrow> bool) \<Rightarrow> upgrade_registry \<Rightarrow> 'buf \<Rightarrow> (exn + envelope) option" where
  "deserialize parse date_ok reg buf =
     (case parse buf of
        None \<Rightarrow> Some (Inl (EventDeserializationException ''Failed to parse event JSON representation''))
      | Some parsed \<Rightarrow>
          if \<not> truthy parsed \<or> \<not> typeof_object parsed
          then Some (Inl (MalformedEventEnvelopeException ''Parsed JSON value is not a valid object''))
          else (case validateEnvelope date_ok parsed of
                  Inl e \<Rightarrow> Some (Inl e)
                | Inr u \<Rightarrow> upgradeVersion reg (as_envelope parsed) CURRENT_EVENT_VERSION))"

section \<open>Lemmas\<close>

lemmas serializer_exn_defs = MalformedEventEnvelopeException_def UnsupportedEventVersionException_def
  EventDeserializationException_def MissingEventUpgradePathException_def

lemma is_integer_Fin: "is_integer (Fin q) \<longleftrightarrow> q \<in> \<int>"
proof
  assume "is_integer (Fin q)"
  then obtain a where "quotient_of q = (a, 1)"
    by (cases "quotient_of q") (simp add: is_integer_def)
  from quotient_of_div [OF this] have "q = of_int a" by simp
  then show "q \<in> \<int>" by simp
next
  assume "q \<in> \<int>"
  then obtain a where "q = of_int a" by (auto simp: Ints_def)
  then show "is_integer (Fin q)" by (simp add: is_integer_def quotient_of_int)
qed

lemma version_positive_integer_cases:
  "version_positive_integer v \<Longrightarrow> \<exists>q. v = Fin q \<and> q \<in> \<int> \<and> 1 \<le> q"
proof (cases v)
  case (Fin q)
  assume "version_positive_integer v"
  with Fin have "q \<in> \<int>" "0 \<le> q" "q \<noteq> 0"
    by (auto simp: version_positive_integer_def is_integer_Fin)
  then obtain a where "q = of_int a" "0 < (of_int a :: rat)"
    by (auto simp: Ints_def)
  then have "q = of_int a" "1 \<le> a" by auto
  with Fin \<open>q \<in> \<int>\<close> show ?thesis by simp
qed (simp_all add: version_positive_integer_def is_integer_def)

lemma validate_Inr_envelope:
  "validateEnvelope date_ok (envelope_json e) = Inr () \<longleftrightarrow>
     js_trim (e_eventId e) \<noteq> [] \<and> js_trim (e_eventType e) \<noteq> [] \<and> js_trim (e_correlationId e) \<noteq> [] \<and>
     js_trim (e_causationId e) \<noteq> [] \<and> js_trim (e_sagaId e) \<noteq> [] \<and> js_trim (e_timestamp e) \<noteq> [] \<and>
     date_ok (e_timestamp e) \<and> e_version e \<noteq> NaN"
  by (simp add: validateEnvelope_def envelope_json_def nonblank_def jstring_def)

lemma nonblank_iff: "nonblank v \<longleftrightarrow> (\<exists>s. v = Some (JStr s) \<and> js_trim s \<noteq> [])"
  by (auto simp: nonblank_def split: option.splits json.splits)

lemma validate_Inr_iff:
  "validateEnvelope date_ok j = Inr () \<longleftrightarrow>
     truthy j \<and> typeof_object j \<and> nonblank (jget j ''eventId'') \<and> nonblank (jget j ''eventType'') \<and>
     nonblank (jget j ''correlationId'') \<and> nonblank (jget j ''causationId'') \<and>
     nonblank (jget j ''sagaId'') \<and> nonblank (jget j ''timestamp'') \<and>
     date_ok (jstring (jget j ''timestamp'')) \<and>
     (\<exists>n. jget j ''version'' = Some (JNum n) \<and> n \<noteq> NaN) \<and> jget j ''payload'' \<noteq> None"
proof -
  have v: "(case jget j ''version'' of Some (JNum n) \<Rightarrow> n = NaN | _ \<Rightarrow> True) \<longleftrightarrow>
        \<not> (\<exists>n. jget j ''version'' = Some (JNum n) \<and> n \<noteq> NaN)"
    by (auto split: option.split json.split)
  have if_Inr: "(if c then Inl e else r) = Inr () \<longleftrightarrow> \<not> c \<and> r = Inr ()" for c e and r :: "exn + unit"
    by simp
  show ?thesis unfolding validateEnvelope_def v if_Inr by blast
qed

text \<open>The canonical envelope reads back as the same record, without the extra properties.\<close>

lemma as_envelope_json:
  "as_envelope (envelope_json (e\<lparr>e_extra := []\<rparr>)) = e\<lparr>e_extra := []\<rparr>"
  by (simp add: as_envelope_def envelope_json_def jstring_def jnumber_def envelope_keys_def)

lemma validate_canonical:
  "validateEnvelope date_ok j = Inr () \<Longrightarrow> validateEnvelope date_ok (canonicalEnvelope j) = Inr ()"
  unfolding canonicalEnvelope_def validate_Inr_envelope
  by (auto simp: validate_Inr_iff as_envelope_def nonblank_iff jstring_def jnumber_def)

lemma serialize_Inr:
  "serialize stringify date_ok j = Inr b \<longleftrightarrow>
     validateEnvelope date_ok j = Inr () \<and> e_version (as_envelope j) = Fin 1 \<and>
     b = stringify (canonicalEnvelope j)"
proof -
  have "version_positive_integer (Fin 1)"
    by (simp add: version_positive_integer_def is_integer_Fin)
  then show ?thesis
    by (cases "validateEnvelope date_ok j") (auto simp: serialize_def Let_def CURRENT_EVENT_VERSION_def)
qed

text \<open>With the current version 1, the loop is never entered: there is nothing to upgrade from.\<close>

lemma upgradeVersion_current:
  "upgradeVersion reg env CURRENT_EVENT_VERSION =
     (if \<not> version_positive_integer (e_version env)
      then Some (Inl (UnsupportedEventVersionException [Lit ''Invalid event version: '', num_frag (e_version env)]))
      else if e_version env \<noteq> Fin 1
      then Some (Inl (UnsupportedEventVersionException [Lit ''Unsupported future event version: '', num_frag (e_version env)]))
      else Some (Inr env))"
  using version_positive_integer_cases [of "e_version env"]
  by (auto simp: upgradeVersion_def CURRENT_EVENT_VERSION_def version_beyond_def)

section \<open>Properties\<close>

text \<open>
  C38. Round trip: whatever the producer's \<open>serialize\<close> accepts, the consumer's \<open>deserialize\<close>
  returns, with every envelope field unchanged and every other property stripped, for any registry.
  The hypothesis is the round trip of the runtime's own \<open>JSON\<close> functions on the value written.
\<close>

theorem serialize_deserialize:
  assumes "parse (stringify (canonicalEnvelope j)) = Some (canonicalEnvelope j)"
    and "serialize stringify date_ok j = Inr buf"
  shows "deserialize parse date_ok reg buf = Some (Inr ((as_envelope j)\<lparr>e_extra := []\<rparr>))"
proof -
  from assms(2) have v: "validateEnvelope date_ok j = Inr ()" "e_version (as_envelope j) = Fin 1"
    "buf = stringify (canonicalEnvelope j)" by (simp_all add: serialize_Inr)
  have c: "as_envelope (canonicalEnvelope j) = (as_envelope j)\<lparr>e_extra := []\<rparr>"
    by (simp add: canonicalEnvelope_def as_envelope_json)
  have "version_positive_integer (Fin 1)" by (simp add: version_positive_integer_def is_integer_Fin)
  then show ?thesis
    using assms(1) v validate_canonical [OF v(1)] validate_Inr_iff [of date_ok "canonicalEnvelope j"]
    by (simp add: deserialize_def c upgradeVersion_current)
qed

definition sample_envelope :: envelope where
  "sample_envelope = \<lparr>e_eventId = ''e1'', e_eventType = ''PaymentInitiated'', e_correlationId = ''c1'',
     e_causationId = ''r1'', e_sagaId = ''c1'', e_timestamp = ''t'', e_version = Fin 1,
     e_payload = JObj [(''amount'', JNum (Fin 5))], e_extra = [(''requestId'', JStr ''r1'')]\<rparr>"

lemma sample_envelope_valid:
  "validateEnvelope (\<lambda>s. True) (envelope_json sample_envelope) = Inr ()"
  by (simp add: validate_Inr_envelope sample_envelope_def js_trim_def js_ws_def)

lemma as_envelope_sample: "as_envelope (envelope_json sample_envelope) = sample_envelope"
  by (simp add: as_envelope_def envelope_json_def sample_envelope_def jstring_def jnumber_def envelope_keys_def)

theorem serialize_deserialize_witness:
  "deserialize Some (\<lambda>s. True) registry_clear (canonicalEnvelope (envelope_json sample_envelope))
   = Some (Inr (sample_envelope\<lparr>e_extra := []\<rparr>))"
proof -
  have s: "serialize (\<lambda>j. j) (\<lambda>s. True) (envelope_json sample_envelope)
        = Inr (canonicalEnvelope (envelope_json sample_envelope))"
    by (simp add: serialize_Inr sample_envelope_valid as_envelope_sample) (simp add: sample_envelope_def)
  show ?thesis
    using serialize_deserialize [OF _ s, of Some registry_clear] by (simp add: as_envelope_sample)
qed

text \<open>
  C40. Deserialization always returns, does not depend on the registered upgrades, and accepts a
  message exactly when its text parses to a well-formed envelope of version 1.
\<close>

theorem deserialize_total:
  "(\<exists>r. deserialize parse date_ok reg buf = Some r)
   \<and> deserialize parse date_ok reg buf = deserialize parse date_ok reg' buf
   \<and> (deserialize parse date_ok reg buf = Some (Inr e) \<longleftrightarrow>
        (\<exists>j. parse buf = Some j \<and> validateEnvelope date_ok j = Inr () \<and>
             e_version (as_envelope j) = Fin 1 \<and> e = as_envelope j))"
proof (cases "parse buf")
  case None
  then show ?thesis by (simp add: deserialize_def)
next
  case (Some j)
  have p: "version_positive_integer (Fin 1)" by (simp add: version_positive_integer_def is_integer_Fin)
  show ?thesis
  proof (cases "validateEnvelope date_ok j")
    case (Inl e)
    with Some show ?thesis by (auto simp: deserialize_def)
  next
    case (Inr u)
    then have "truthy j" "typeof_object j" using validate_Inr_iff [of date_ok j] by auto
    with Some Inr p show ?thesis by (auto simp: deserialize_def upgradeVersion_current)
  qed
qed

text \<open>
  The upgrade loop ends whenever every registered step raises the version by at least one:
  it then returns a value, which on success has reached the target version.
\<close>

theorem upgrade_terminates:
  assumes "\<And>t v f c c'. registry_getUpgrade reg t v = Some f \<Longrightarrow> f c = Inr c' \<Longrightarrow>
             \<exists>q q'. e_version c = Fin q \<and> e_version c' = Fin q' \<and> q + 1 \<le> q'"
    and "e_version env = Fin q"
  shows "\<exists>r. upgrade_loop reg target env = Some r \<and>
             (\<forall>e'. r = Inr e' \<longrightarrow> \<not> num_lt (e_version e') target)"
  using assms(2)
proof (induction "nat \<lceil>target - q\<rceil>" arbitrary: q env rule: less_induct)
  case less
  show ?case
  proof (cases "q < target")
    case False
    with less.prems show ?thesis by (subst upgrade_loop.simps) simp
  next
    case True
    show ?thesis
    proof (cases "registry_getUpgrade reg (e_eventType env) (e_version env)")
      case None
      with True less.prems show ?thesis by (subst upgrade_loop.simps) simp
    next
      case (Some f)
      show ?thesis
      proof (cases "f env")
        case (Inl e)
        with True Some less.prems show ?thesis by (subst upgrade_loop.simps) simp
      next
        case (Inr c')
        obtain q' where q': "e_version c' = Fin q'" "q + 1 \<le> q'"
          using assms(1) [OF Some Inr] less.prems by auto
        have "nat \<lceil>target - q'\<rceil> < nat \<lceil>target - q\<rceil>"
          using True q'(2) by linarith
        from less.hyps [OF this q'(1)] show ?thesis
          using True Some Inr less.prems by (subst upgrade_loop.simps) simp
      qed
    qed
  qed
qed

definition bump_registry :: upgrade_registry where
  "bump_registry = registry_register ''PaymentInitiated'' (Fin 1)
     (\<lambda>c. case e_version c of Fin q \<Rightarrow> Inr (c\<lparr>e_version := Fin (q + 1)\<rparr>)
          | _ \<Rightarrow> Inl (UnsupportedEventVersionException [])) registry_clear"

theorem upgrade_terminates_witness:
  "\<exists>r. upgrade_loop bump_registry 2 sample_envelope = Some r \<and>
       (\<forall>e'. r = Inr e' \<longrightarrow> \<not> num_lt (e_version e') 2)"
proof (rule upgrade_terminates)
  show "\<exists>q q'. e_version c = Fin q \<and> e_version c' = Fin q' \<and> q + 1 \<le> q'"
    if "registry_getUpgrade bump_registry t v = Some f" "f c = Inr c'" for t v f c c'
    using that by (cases "e_version c")
      (auto simp: bump_registry_def getUpgrade_register getUpgrade_clear split: if_splits)
  show "e_version sample_envelope = Fin 1" by (simp add: sample_envelope_def)
qed

end
