(* ===== verification/PaymentService.thy ===== *)
theory PaymentService
  imports PaymentDomain Http
begin

text \<open>
  \<open>apps/payment-service/src/services/payment.service.ts\<close> and its controller and request DTO.
  \<open>createPayment\<close> is written stage by stage as the code runs it: local duplicate check, order
  validation, fraud pre-check, and one database transaction that inserts the payment and its
  outbox event. The two downstream calls are functions from the request body to what
  \<open>serviceClient\<close> returns or throws, and the requests made are recorded in order; a database error
  other than a violated unique key is an argument. Logging and metrics are left out.
\<close>

section \<open>Requests and state\<close>

record create_payment_body =
  cp_amount :: rat
  cp_currency :: string
  cp_reference :: string
  cp_paymentMethod :: "string option"

record payment_db =
  db_payments :: "payment list"
  db_outbox :: "outbox_event list"

text \<open>Clocks, drawn identifiers and active trace headers.\<close>

record create_env =
  ce_paymentId :: string
  ce_eventId :: string
  ce_now :: nat
  ce_eventNow :: nat
  ce_dbNow :: nat
  ce_iso_of :: "nat \<Rightarrow> string"
  ce_traceHeaders :: "(string \<times> string) list"

text \<open>Database errors: of the duplicate check, of either insert, of the commit.\<close>

record db_faults =
  df_lookup :: "exn option"
  df_payment :: "exn option"
  df_outbox :: "exn option"
  df_commit :: "exn option"

definition no_faults :: db_faults where
  "no_faults = \<lparr>df_lookup = None, df_payment = None, df_outbox = None, df_commit = None\<rparr>"

type_synonym downstream = "json \<Rightarrow> exn + json"
type_synonym call_log = "(string \<times> json) list"

definition or_fault :: "exn option \<Rightarrow> exn + 'a \<Rightarrow> exn + 'a" where
  "or_fault f r = (case f of Some e \<Rightarrow> Inl e | None \<Rightarrow> r)"

definition SUPPORTED_CURRENCIES :: "string list" where
  "SUPPORTED_CURRENCIES = [''INR'', ''USD'', ''EUR'', ''GBP'']"

text \<open>The decorators of \<open>CreatePaymentRequestDto\<close> on the body as received.\<close>

definition CreatePaymentRequestDto_ok :: "json \<Rightarrow> bool" where
  "CreatePaymentRequestDto_ok b \<longleftrightarrow>
     only_props [''amount'', ''currency'', ''reference'', ''paymentMethod''] b \<and>
     (case jget b ''amount'' of Some (JNum (Fin q)) \<Rightarrow> 0 < q | _ \<Rightarrow> False) \<and>
     (case jget b ''currency'' of Some (JStr s) \<Rightarrow> s \<in> set SUPPORTED_CURRENCIES | _ \<Rightarrow> False) \<and>
     (case jget b ''reference'' of Some (JStr s) \<Rightarrow> s \<noteq> [] \<and> length s \<le> 255 | _ \<Rightarrow> False) \<and>
     (case jget b ''paymentMethod'' of None \<Rightarrow> True | Some JNull \<Rightarrow> True | Some (JStr s) \<Rightarrow> True | _ \<Rightarrow> False)"

definition as_create_payment :: "json \<Rightarrow> create_payment_body" where
  "as_create_payment b =
     \<lparr>cp_amount = (case jget b ''amount'' of Some (JNum (Fin q)) \<Rightarrow> q | _ \<Rightarrow> 0),
      cp_currency = (case jget b ''currency'' of Some (JStr s) \<Rightarrow> s | _ \<Rightarrow> []),
      cp_reference = (case jget b ''reference'' of Some (JStr s) \<Rightarrow> s | _ \<Rightarrow> []),
      cp_paymentMethod = (case jget b ''paymentMethod'' of Some (JStr s) \<Rightarrow> Some s | _ \<Rightarrow> None)\<rparr>"

section \<open>Stage 1: local duplicate check\<close>

definition check_duplicate ::
  "db_faults \<Rightarrow> payment_db \<Rightarrow> string \<Rightarrow> string \<Rightarrow> exn + unit" where
  "check_duplicate flt db merchantId reference =
     or_fault (df_lookup flt)
       (case PaymentRepository_findByReference merchantId reference (db_payments db) of
          Some existing \<Rightarrow> Inl (DuplicatePaymentReferenceException merchantId reference)
        | None \<Rightarrow> Inr ())"

section \<open>Stage 2: order validation\<close>

text \<open>The three classes of \<open>common-http\<close> the service tells apart with \<open>instanceof\<close>.\<close>

definition http_class :: "string \<Rightarrow> exn \<Rightarrow> bool" where
  "http_class name e = (case e of HttpExn h \<Rightarrow> he_name h = name \<and> jget (he_response h) ''details'' \<noteq> None | _ \<Rightarrow> False)"

definition nest_500 :: "string \<Rightarrow> exn" where
  "nest_500 = nest_builtin ''InternalServerErrorException'' 500 ''Internal Server Error''"

definition nest_503 :: "string \<Rightarrow> exn" where
  "nest_503 = nest_builtin ''ServiceUnavailableException'' 503 ''Service Unavailable''"

definition map_order_error :: "string \<Rightarrow> rat \<Rightarrow> exn \<Rightarrow> exn" where
  "map_order_error reference amount e =
     (if http_class ''RequestTimeoutException'' e then nest_503 ''Order validation service timed out.''
      else if http_class ''ServiceUnavailableException'' e then nest_503 ''Order validation service is unavailable.''
      else if http_class ''DownstreamResponseException'' e
      then (if exn_status e = 404 \<or> exn_status e = 403 then OrderNotFoundException reference
            else if exn_status e = 422 then OrderAmountMismatchException reference amount amount
            else if exn_status e = 409 then OrderAlreadyPaidException reference
            else nest_500 ''Unexpected order validation failure.'')
      else nest_500 ''An unexpected error occurred during order validation.'')"

definition order_request_body :: "string \<Rightarrow> string \<Rightarrow> create_payment_body \<Rightarrow> json" where
  "order_request_body merchantId reference b = JObj
     [(''merchantId'', JStr merchantId), (''reference'', JStr reference),
      (''amount'', JNum (Fin (cp_amount b))), (''currency'', JStr (cp_currency b))]"

text \<open>\<open>r.k\<close> on a response: reading a property of \<open>null\<close> throws.\<close>

definition read_prop :: "json \<Rightarrow> string \<Rightarrow> exn + json option" where
  "read_prop r k = (if r = JNull then Inl (JsError ''TypeError'' [Lit (''Cannot read properties of null'')]) else Inr (jget r k))"

definition order_stage :: "downstream \<Rightarrow> string \<Rightarrow> string \<Rightarrow> create_payment_body \<Rightarrow> exn + json option" where
  "order_stage orders merchantId reference b =
     (case rbind (orders (order_request_body merchantId reference b)) (\<lambda>r. read_prop r ''orderId'') of
        Inr orderId \<Rightarrow> Inr orderId
      | Inl e \<Rightarrow> Inl (map_order_error reference (cp_amount b) e))"

section \<open>Stage 3: fraud pre-check\<close>

definition fraud_request_body :: "string \<Rightarrow> create_payment_body \<Rightarrow> json" where
  "fraud_request_body merchantId b = JObj
     [(''merchantId'', JStr merchantId), (''amount'', JNum (Fin (cp_amount b))),
      (''currency'', JStr (cp_currency b))]"

text \<open>The rejection with the score and reason of the answer, whatever JSON values they are.\<close>

definition fraud_rejection :: "string \<Rightarrow> create_payment_body \<Rightarrow> json option \<Rightarrow> json option \<Rightarrow> exn" where
  "fraud_rejection merchantId b risk reason =
     DomainException ''FraudRejectedException'' [Lit ''Payment rejected by fraud rules''] FRAUD_REJECTED 403
       ([(''merchantId'', JStr merchantId), (''amount'', JNum (Fin (cp_amount b))), (''currency'', JStr (cp_currency b))]
        @ (case risk of None \<Rightarrow> [] | Some v \<Rightarrow> [(''riskScore'', v)])
        @ (case reason of None \<Rightarrow> [] | Some v \<Rightarrow> [(''reason'', v)]))"

definition map_fraud_error :: "string \<Rightarrow> create_payment_body \<Rightarrow> exn \<Rightarrow> exn" where
  "map_fraud_error merchantId b e =
     (if http_class ''RequestTimeoutException'' e then nest_503 ''Fraud pre-check service timed out.''
      else if http_class ''ServiceUnavailableException'' e then nest_503 ''Fraud pre-check service is unavailable.''
      else if http_class ''DownstreamResponseException'' e
      then (if exn_status e = 403
            then FraudRejectedException merchantId (cp_amount b) (cp_currency b) 0 (Some ''Downstream fraud check failure'')
            else nest_503 ''Fraud pre-check service is unavailable.'')
      else nest_503 ''Fraud pre-check service encountered an unexpected error.'')"

definition fraud_stage :: "downstream \<Rightarrow> string \<Rightarrow> create_payment_body \<Rightarrow> exn + unit" where
  "fraud_stage fraud merchantId b =
     (case rbind (fraud (fraud_request_body merchantId b)) (\<lambda>r. rbind (read_prop r ''riskScore'') (\<lambda>risk. Inr (r, risk))) of
        Inl e \<Rightarrow> Inl (map_fraud_error merchantId b e)
      | Inr (r, risk) \<Rightarrow>
          if (case jget r ''approved'' of Some v \<Rightarrow> truthy v | None \<Rightarrow> False) then Inr ()
          else Inl (fraud_rejection merchantId b risk (jget r ''reason'')))"

section \<open>Stage 4: persistence\<close>

definition new_payment :: "create_env \<Rightarrow> request_context \<Rightarrow> create_payment_body \<Rightarrow> string \<Rightarrow> payment" where
  "new_payment env ctx b merchantId =
     (let requestId = str_or (rc_requestId ctx) ''N/A'';
          correlationId = str_or (rc_correlationId ctx) ''N/A''
      in PaymentEntity_create (ce_paymentId env) (ce_now env)
        \<lparr>pp_merchantId = merchantId, pp_amount = cp_amount b, pp_currency = cp_currency b,
         pp_reference = js_trim (cp_reference b), pp_requestId = requestId, pp_correlationId = correlationId,
         pp_causationId = str_or (rc_requestId ctx) correlationId,
         pp_createdBy = str_or (rc_merchantId ctx) ''MERCHANT'', pp_source = ''GATEWAY''\<rparr>)"

definition event_payload :: "payment \<Rightarrow> json option \<Rightarrow> create_payment_body \<Rightarrow> json" where
  "event_payload p orderId b = JObj
     [(''paymentId'', JStr (p_id p)), (''amount'', JNum (Fin (p_amount p))), (''currency'', JStr (p_currency p)),
      (''merchantId'', JStr (p_merchantId p)),
      (''orderId'', case jor orderId None of Some v \<Rightarrow> v | None \<Rightarrow> JStr []),
      (''paymentMethod'', JStr (str_or (cp_paymentMethod b) ''card''))]"

definition new_outbox_event :: "create_env \<Rightarrow> payment \<Rightarrow> json option \<Rightarrow> create_payment_body \<Rightarrow> outbox_event" where
  "new_outbox_event env p orderId b =
     OutboxEventEntity_create (ce_iso_of env) (ce_eventId env) (ce_eventNow env) (ce_traceHeaders env)
       \<lparr>op_aggregateId = p_id p, op_aggregateType = ''Payment'', op_eventType = ''PaymentInitiated'',
        op_payload = event_payload p orderId b, op_requestId = p_requestId p,
        op_correlationId = p_correlationId p, op_causationId = p_causationId p\<rparr>"

text \<open>\<open>prisma.$transaction\<close>: a throw anywhere, the commit included, rolls both inserts back.\<close>

definition persist_stage ::
  "create_env \<Rightarrow> db_faults \<Rightarrow> payment \<Rightarrow> outbox_event \<Rightarrow> payment_db \<Rightarrow> (exn + payment) \<times> payment_db" where
  "persist_stage env flt p ev db =
     (case rbind (or_fault (df_payment flt) (PaymentRepository_create (ce_dbNow env) p (db_payments db)))
        (\<lambda>(q, ps). rbind (or_fault (df_outbox flt) (OutboxRepository_save ev (db_outbox db)))
        (\<lambda>(e, es). or_fault (df_commit flt) (Inr (q, db\<lparr>db_payments := ps, db_outbox := es\<rparr>)))) of
        Inl e \<Rightarrow> (Inl e, db)
      | Inr (q, db') \<Rightarrow> (Inr q, db'))"

section \<open>The handler\<close>

text \<open>Everything after the duplicate check, on the database as it is by then.\<close>

definition createPayment_rest ::
  "create_env \<Rightarrow> db_faults \<Rightarrow> downstream \<Rightarrow> downstream \<Rightarrow> request_context \<Rightarrow> create_payment_body \<Rightarrow> string \<Rightarrow>
     payment_db \<Rightarrow> (exn + payment) \<times> call_log \<times> payment_db" where
  "createPayment_rest env flt orders fraud ctx b merchantId db =
     (let reference = js_trim (cp_reference b);
          order_call = (''/api/v1/internal/orders/validate'', order_request_body merchantId reference b);
          fraud_call = (''/api/v1/internal/fraud/precheck'', fraud_request_body merchantId b)
      in case order_stage orders merchantId reference b of
           Inl e \<Rightarrow> (Inl e, [order_call], db)
         | Inr orderId \<Rightarrow>
             (case fraud_stage fraud merchantId b of
                Inl e \<Rightarrow> (Inl e, [order_call, fraud_call], db)
              | Inr u \<Rightarrow>
                  (let p = new_payment env ctx b merchantId;
                       (r, db') = persist_stage env flt p (new_outbox_event env p orderId b) db
                   in (r, [order_call, fraud_call], db'))))"

definition createPayment ::
  "create_env \<Rightarrow> db_faults \<Rightarrow> downstream \<Rightarrow> downstream \<Rightarrow> request_context \<Rightarrow> create_payment_body \<Rightarrow> string \<Rightarrow>
     payment_db \<Rightarrow> (exn + payment) \<times> call_log \<times> payment_db" where
  "createPayment env flt orders fraud ctx b merchantId db =
     (case check_duplicate flt db merchantId (js_trim (cp_reference b)) of
        Inl e \<Rightarrow> (Inl e, [], db)
      | Inr u \<Rightarrow> createPayment_rest env flt orders fraud ctx b merchantId db)"

definition getPayment :: "string \<Rightarrow> payment_db \<Rightarrow> payment option" where
  "getPayment i db = PaymentRepository_findById i (db_payments db)"

section \<open>The controller\<close>

definition PaymentController_createPayment ::
  "exn \<Rightarrow> create_env \<Rightarrow> db_faults \<Rightarrow> downstream \<Rightarrow> downstream \<Rightarrow> request_context \<Rightarrow> headers \<Rightarrow> json \<Rightarrow>
     payment_db \<Rightarrow> (exn + (string \<times> json) list) \<times> call_log \<times> payment_db" where
  "PaymentController_createPayment validation_error env flt orders fraud ctx hs body db =
     (if \<not> CreatePaymentRequestDto_ok body then (Inl validation_error, [], db)
      else if \<not> truthy_header hs ''x-merchant-id''
      then (Inl (nest_builtin ''BadRequestException'' 400 ''Bad Request'' ''Missing x-merchant-id header''), [], db)
      else case createPayment env flt orders fraud ctx (as_create_payment body) (the (hs ''x-merchant-id'')) db of
             (Inl e, calls, db') \<Rightarrow> (Inl e, calls, db')
           | (Inr p, calls, db') \<Rightarrow>
               (Inr [(''paymentId'', JStr (p_id p)), (''status'', JStr (payment_status_str (p_status p)))], calls, db'))"

definition PaymentController_getPayment :: "(nat \<Rightarrow> string) \<Rightarrow> string \<Rightarrow> payment_db \<Rightarrow> exn + (string \<times> json) list" where
  "PaymentController_getPayment iso_of i db =
     (case getPayment i db of
        None \<Rightarrow> Inl (PaymentNotFoundException i)
      | Some p \<Rightarrow> Inr [(''paymentId'', JStr (p_id p)), (''merchantId'', JStr (p_merchantId p)),
          (''amount'', JNum (Fin (p_amount p))), (''currency'', JStr (p_currency p)),
          (''status'', JStr (payment_status_str (p_status p))), (''reference'', JStr (p_reference p)),
          (''createdAt'', JStr (iso_of (p_createdAt p))), (''updatedAt'', JStr (iso_of (p_updatedAt p)))])"

section \<open>Lemmas\<close>

lemma dto_amount:
  assumes "CreatePaymentRequestDto_ok b"
  shows "jget b ''amount'' = Some (JNum (Fin (cp_amount (as_create_payment b))))"
proof -
  have "case jget b ''amount'' of Some (JNum (Fin q)) \<Rightarrow> 0 < q | _ \<Rightarrow> False"
    using assms unfolding CreatePaymentRequestDto_ok_def by blast
  then show ?thesis by (simp add: as_create_payment_def split: option.splits json.splits jsnum.splits)
qed

lemma dto_currency:
  assumes "CreatePaymentRequestDto_ok b"
  shows "jget b ''currency'' = Some (JStr (cp_currency (as_create_payment b)))"
proof -
  have "case jget b ''currency'' of Some (JStr s) \<Rightarrow> s \<in> set SUPPORTED_CURRENCIES | _ \<Rightarrow> False"
    using assms unfolding CreatePaymentRequestDto_ok_def by blast
  then show ?thesis by (simp add: as_create_payment_def split: option.splits json.splits)
qed

lemma new_payment_simps [simp]:
  "p_id (new_payment env ctx b m) = ce_paymentId env" "p_merchantId (new_payment env ctx b m) = m"
  "p_amount (new_payment env ctx b m) = cp_amount b" "p_currency (new_payment env ctx b m) = cp_currency b"
  "p_reference (new_payment env ctx b m) = js_trim (cp_reference b)"
  "p_status (new_payment env ctx b m) = P_PENDING"
  by (simp_all add: new_payment_def PaymentEntity_create_def Let_def)

lemma new_outbox_event_simps [simp]:
  "ob_id (new_outbox_event env p o1 b) = ce_eventId env" "ob_aggregateId (new_outbox_event env p o1 b) = p_id p"
  "ob_eventType (new_outbox_event env p o1 b) = ''PaymentInitiated''"
  "ob_status (new_outbox_event env p o1 b) = O_PENDING" "ob_retryCount (new_outbox_event env p o1 b) = 0"
  by (simp_all add: new_outbox_event_def OutboxEventEntity_create_def)

text \<open>The event announces the payment: its envelope carries the event's own id and the payment's data.\<close>

definition announces :: "payment \<Rightarrow> outbox_event \<Rightarrow> bool" where
  "announces p e \<longleftrightarrow>
     ob_aggregateId e = p_id p \<and> ob_eventType e = ''PaymentInitiated'' \<and>
     jget (ob_payload e) ''eventId'' = Some (JStr (ob_id e)) \<and>
     (\<exists>pl. jget (ob_payload e) ''payload'' = Some pl \<and>
        jget pl ''paymentId'' = Some (JStr (p_id p)) \<and> jget pl ''amount'' = Some (JNum (Fin (p_amount p))) \<and>
        jget pl ''currency'' = Some (JStr (p_currency p)) \<and> jget pl ''merchantId'' = Some (JStr (p_merchantId p)))"

lemma announces_new: "announces p (new_outbox_event env p o1 b)"
  by (simp add: announces_def new_outbox_event_def OutboxEventEntity_create_def outbox_envelope_def event_payload_def)

lemma announces_update [simp]:
  "announces (p\<lparr>p_createdAt := t, p_updatedAt := u\<rparr>) e \<longleftrightarrow> announces p e"
  "announces p (e\<lparr>ob_partition := x, ob_offset := y, ob_lastAttemptAt := z, ob_traceHeaders := h\<rparr>) \<longleftrightarrow> announces p e"
  by (simp_all add: announces_def)

text \<open>What a client may rely on: unique keys, and one announcing event for each payment, in order.\<close>

definition db_ok :: "payment_db \<Rightarrow> bool" where
  "db_ok db \<longleftrightarrow> payments_ok (db_payments db) \<and> distinct (map ob_id (db_outbox db)) \<and>
     list_all2 announces (db_payments db) (db_outbox db)"

lemma or_fault_None [simp]: "or_fault None r = r"
  by (simp add: or_fault_def)

lemma or_fault_Inr: "or_fault f r = Inr x \<longleftrightarrow> f = None \<and> r = Inr x"
  by (simp add: or_fault_def split: option.split)

lemma persist_stage_Inr:
  "persist_stage env flt p ev db = (Inr q, db') \<longleftrightarrow>
     df_payment flt = None \<and> df_outbox flt = None \<and> df_commit flt = None \<and>
     (\<exists>ps e es. PaymentRepository_create (ce_dbNow env) p (db_payments db) = Inr (q, ps) \<and>
        OutboxRepository_save ev (db_outbox db) = Inr (e, es) \<and>
        db' = db\<lparr>db_payments := ps, db_outbox := es\<rparr>)"
  by (auto simp: persist_stage_def rbind_Inr_iff or_fault_Inr split: sum.splits)

lemma persist_stage_Inl: "persist_stage env flt p ev db = (Inl e, db') \<Longrightarrow> db' = db"
  by (auto simp: persist_stage_def split: sum.splits)

text \<open>The rest of the handler, decided by its three stages.\<close>

lemma createPayment_rest_Inr:
  "createPayment_rest env flt orders fraud ctx b m db = (Inr q, calls, db') \<longleftrightarrow>
     (\<exists>o1. order_stage orders m (js_trim (cp_reference b)) b = Inr o1 \<and> fraud_stage fraud m b = Inr () \<and>
        calls = [(''/api/v1/internal/orders/validate'', order_request_body m (js_trim (cp_reference b)) b),
                 (''/api/v1/internal/fraud/precheck'', fraud_request_body m b)] \<and>
        persist_stage env flt (new_payment env ctx b m) (new_outbox_event env (new_payment env ctx b m) o1 b) db
          = (Inr q, db'))"
  by (auto simp: createPayment_rest_def Let_def split: sum.splits prod.splits)

lemma createPayment_rest_Inl:
  "createPayment_rest env flt orders fraud ctx b m db = (Inl e, calls, db') \<Longrightarrow> db' = db"
  by (auto simp: createPayment_rest_def Let_def dest: persist_stage_Inl split: sum.splits prod.splits)

text \<open>When the whole handler succeeds, by its stages.\<close>

lemma check_duplicate_Inr:
  "check_duplicate flt db m ref = Inr u \<longleftrightarrow>
     df_lookup flt = None \<and> (\<forall>p \<in> set (db_payments db). p_merchantId p = m \<longrightarrow> p_reference p \<noteq> ref)"
  by (auto simp: check_duplicate_def or_fault_def PaymentRepository_findByReference_def find_None_iff
      split: option.splits dest: find_SomeD)

lemma createPayment_stages:
  "(\<exists>q calls db'. createPayment env flt orders fraud ctx b m db = (Inr q, calls, db')) \<longleftrightarrow>
     flt = no_faults \<and>
     (\<forall>p \<in> set (db_payments db). p_merchantId p = m \<longrightarrow> p_reference p \<noteq> js_trim (cp_reference b)) \<and>
     (\<exists>o1. order_stage orders m (js_trim (cp_reference b)) b = Inr o1) \<and> fraud_stage fraud m b = Inr () \<and>
     fits_int (cp_amount b) \<and> ce_paymentId env \<notin> p_id ` set (db_payments db) \<and>
     ce_eventId env \<notin> ob_id ` set (db_outbox db)"
proof -
  have nf: "flt = no_faults \<longleftrightarrow> df_lookup flt = None \<and> df_payment flt = None \<and> df_outbox flt = None \<and> df_commit flt = None"
    by (cases flt) (simp add: no_faults_def)
  have rest: "(\<exists>q calls db'. createPayment_rest env flt orders fraud ctx b m db = (Inr q, calls, db')) \<longleftrightarrow>
      (\<exists>o1. order_stage orders m (js_trim (cp_reference b)) b = Inr o1) \<and> fraud_stage fraud m b = Inr () \<and>
      df_payment flt = None \<and> df_outbox flt = None \<and> df_commit flt = None \<and> fits_int (cp_amount b) \<and>
      ce_paymentId env \<notin> p_id ` set (db_payments db) \<and>
      (m, js_trim (cp_reference b)) \<notin> (\<lambda>r. (p_merchantId r, p_reference r)) ` set (db_payments db) \<and>
      ce_eventId env \<notin> ob_id ` set (db_outbox db)"
    by (auto simp: createPayment_rest_Inr persist_stage_Inr PaymentRepository_create_Inr OutboxRepository_save_Inr)
  show ?thesis
    by (cases "check_duplicate flt db m (js_trim (cp_reference b))")
       (use check_duplicate_Inr [of flt db m "js_trim (cp_reference b)"] rest nf in \<open>auto simp: createPayment_def\<close>)
qed

text \<open>A successful run appends one payment and one event that announces it.\<close>

lemma createPayment_rest_appends:
  assumes "createPayment_rest env flt orders fraud ctx b m db = (Inr q, calls, db')"
  obtains ev where "db_payments db' = db_payments db @ [q]" "db_outbox db' = db_outbox db @ [ev]"
    "announces q ev" "ob_status ev = O_PENDING" "ob_retryCount ev = 0" "p_status q = P_PENDING"
    "p_merchantId q = m" "p_reference q = js_trim (cp_reference b)" "p_amount q = cp_amount b"
    "p_currency q = cp_currency b" "p_id q = ce_paymentId env"
    "payments_ok (db_payments db) \<Longrightarrow> payments_ok (db_payments db')" "ob_id ev \<notin> ob_id ` set (db_outbox db)"
proof -
  from assms obtain o1 ps e es where c:
    "PaymentRepository_create (ce_dbNow env) (new_payment env ctx b m) (db_payments db) = Inr (q, ps)"
    "OutboxRepository_save (new_outbox_event env (new_payment env ctx b m) o1 b) (db_outbox db) = Inr (e, es)"
    "db' = db\<lparr>db_payments := ps, db_outbox := es\<rparr>"
    unfolding createPayment_rest_Inr persist_stage_Inr by blast
  have q: "q = (new_payment env ctx b m)\<lparr>p_createdAt := ce_dbNow env, p_updatedAt := ce_dbNow env\<rparr>"
    "ps = db_payments db @ [q]" using c(1) by (auto simp: PaymentRepository_create_Inr)
  have e: "es = db_outbox db @ [e]" "announces (new_payment env ctx b m) e" "ob_status e = O_PENDING" "ob_retryCount e = 0"
    "ob_id e \<notin> ob_id ` set (db_outbox db)"
    using c(2) announces_new [of "new_payment env ctx b m" env o1 b] by (auto simp: OutboxRepository_save_Inr)
  show thesis
    by (rule that [of e]) (use c(3) q e payments_ok_create [OF _ c(1)] in auto)
qed

lemma db_ok_empty: "db_ok \<lparr>db_payments = [], db_outbox = []\<rparr>"
  by (simp add: db_ok_def)

lemma db_ok_rest:
  assumes "db_ok db" "createPayment_rest env flt orders fraud ctx b m db = (r, calls, db')"
  shows "db_ok db'"
proof (cases r)
  case (Inl e)
  with assms createPayment_rest_Inl show ?thesis by blast
next
  case (Inr q)
  with assms(2) obtain ev where "db_payments db' = db_payments db @ [q]" "db_outbox db' = db_outbox db @ [ev]"
    "announces q ev" "payments_ok (db_payments db) \<Longrightarrow> payments_ok (db_payments db')" "ob_id ev \<notin> ob_id ` set (db_outbox db)"
    by (auto elim!: createPayment_rest_appends)
  with assms(1) show ?thesis by (auto simp: db_ok_def intro!: list_all2_appendI)
qed

lemma createPayment_InrD:
  "createPayment env flt orders fraud ctx b m db = (Inr q, calls, db') \<Longrightarrow>
   createPayment_rest env flt orders fraud ctx b m db = (Inr q, calls, db')"
  unfolding createPayment_def
  by (cases "check_duplicate flt db m (js_trim (cp_reference b))") simp_all

lemma controller_create_Inr:
  assumes "PaymentController_createPayment verr env flt orders fraud ctx hs body db = (Inr res, calls, db')"
  shows "CreatePaymentRequestDto_ok body \<and>
    (\<exists>q. createPayment env flt orders fraud ctx (as_create_payment body) (the (hs ''x-merchant-id'')) db = (Inr q, calls, db') \<and>
         res = [(''paymentId'', JStr (p_id q)), (''status'', JStr (payment_status_str (p_status q)))])"
proof -
  obtain r cs d where c: "createPayment env flt orders fraud ctx (as_create_payment body) (the (hs ''x-merchant-id'')) db = (r, cs, d)"
    by (cases "createPayment env flt orders fraud ctx (as_create_payment body) (the (hs ''x-merchant-id'')) db")
  show ?thesis
    using assms unfolding PaymentController_createPayment_def c by (cases r) (simp_all split: if_splits)
qed

section \<open>Interleaved requests\<close>

text \<open>
  Requests run concurrently: \<open>check_duplicate\<close> reads one state of the database and the transaction
  later writes another. A request in flight is its merchant and body.
\<close>

inductive pay_step ::
  "payment_db \<times> (string \<times> create_payment_body) list \<Rightarrow> payment_db \<times> (string \<times> create_payment_body) list \<Rightarrow> bool" where
  Start: "check_duplicate flt db m (js_trim (cp_reference b)) = Inr () \<Longrightarrow> pay_step (db, fl) (db, fl @ [(m, b)])"
| Finish: "createPayment_rest env flt orders fraud ctx b m db = (r, calls, db') \<Longrightarrow>
     pay_step (db, fl @ (m, b) # gl) (db', fl @ gl)"

inductive_cases pay_stepE: "pay_step s s'"

lemma db_ok_step: "pay_step s s' \<Longrightarrow> db_ok (fst s) \<Longrightarrow> db_ok (fst s')"
  by (erule pay_stepE) (auto dest: db_ok_rest)

lemma db_ok_reachable: "pay_step\<^sup>*\<^sup>* s s' \<Longrightarrow> db_ok (fst s) \<Longrightarrow> db_ok (fst s')"
  by (induction rule: rtranclp_induct) (auto dest: db_ok_step)

section \<open>Properties\<close>

text \<open>
  C1. Atomicity, for every database error and every answer of the two services: either the caller
  gets an error and nothing is stored, or it gets the stored payment, which is \<open>PENDING\<close>, carries
  the request's data under the trimmed reference, and is stored together with exactly one new
  outbox event, pending and never tried, that announces it.
\<close>

theorem createPayment_atomic:
  "case createPayment env flt orders fraud ctx b m db of
     (Inl e, calls, db') \<Rightarrow> db' = db
   | (Inr q, calls, db') \<Rightarrow>
       \<exists>ev. db_payments db' = db_payments db @ [q] \<and> db_outbox db' = db_outbox db @ [ev] \<and>
         p_status q = P_PENDING \<and> p_merchantId q = m \<and> p_reference q = js_trim (cp_reference b) \<and>
         p_amount q = cp_amount b \<and> p_currency q = cp_currency b \<and>
         announces q ev \<and> ob_status ev = O_PENDING \<and> ob_retryCount ev = 0"
proof (cases "check_duplicate flt db m (js_trim (cp_reference b))")
  case (Inl e)
  then show ?thesis by (simp add: createPayment_def)
next
  case (Inr u)
  obtain r calls db' where r: "createPayment_rest env flt orders fraud ctx b m db = (r, calls, db')"
    by (cases "createPayment_rest env flt orders fraud ctx b m db") auto
  show ?thesis
  proof (cases r)
    case (Inl e)
    with Inr r show ?thesis by (auto simp: createPayment_def dest: createPayment_rest_Inl)
  next
    case (Inr q)
    with r obtain ev where "db_payments db' = db_payments db @ [q]" "db_outbox db' = db_outbox db @ [ev]"
      "announces q ev" "ob_status ev = O_PENDING" "ob_retryCount ev = 0" "p_status q = P_PENDING"
      "p_merchantId q = m" "p_reference q = js_trim (cp_reference b)" "p_amount q = cp_amount b"
      "p_currency q = cp_currency b"
      by (auto elim!: createPayment_rest_appends)
    with r Inr \<open>check_duplicate flt db m (js_trim (cp_reference b)) = Inr u\<close>
    show ?thesis by (auto simp: createPayment_def)
  qed
qed

text \<open>
  C10. However requests interleave, each checking for duplicates at one moment and writing at
  another, every reachable database keeps its unique keys and pairs each payment, in order, with
  the one event that announces it: no payment goes unannounced and no event is without its payment.
\<close>

theorem interleaved_requests_ok:
  assumes "pay_step\<^sup>*\<^sup>* (\<lparr>db_payments = [], db_outbox = []\<rparr>, []) (db, inflight)"
  shows "payments_ok (db_payments db) \<and> length (db_payments db) = length (db_outbox db)
    \<and> (\<forall>p \<in> set (db_payments db). \<exists>!e. e \<in> set (db_outbox db) \<and> ob_aggregateId e = p_id p \<and> announces p e)
    \<and> (\<forall>e \<in> set (db_outbox db). \<exists>p \<in> set (db_payments db). announces p e)"
proof -
  have ok: "db_ok db" using db_ok_reachable [OF assms] db_ok_empty by simp
  then have ps: "payments_ok (db_payments db)" and la: "list_all2 announces (db_payments db) (db_outbox db)"
    by (simp_all add: db_ok_def)
  have ids: "map p_id (db_payments db) = map ob_aggregateId (db_outbox db)"
    using la by (induction rule: list_all2_induct) (auto simp: announces_def)
  then have agg: "distinct (map ob_aggregateId (db_outbox db))" using ps by (simp add: payments_ok_def)
  note fwd = list_all2_ex1 [OF la] and bwd = list_all2_ex2 [OF la]
  have uniq: "\<exists>!e. e \<in> set (db_outbox db) \<and> ob_aggregateId e = p_id p \<and> announces p e"
    if p: "p \<in> set (db_payments db)" for p
  proof -
    obtain e where e: "e \<in> set (db_outbox db)" "announces p e" using fwd [OF p] by blast
    have "e' = e" if "e' \<in> set (db_outbox db)" "ob_aggregateId e' = p_id p" for e'
      using distinct_key_eq [OF agg that(1) e(1)] that(2) e(2) by (simp add: announces_def)
    with e show ?thesis by (auto simp: announces_def)
  qed
  show ?thesis using ps list_all2_lengthD [OF la] uniq bwd by blast
qed

definition sample_body :: create_payment_body where
  "sample_body = \<lparr>cp_amount = 100, cp_currency = ''USD'', cp_reference = '' r1 '', cp_paymentMethod = None\<rparr>"

definition sample_env :: create_env where
  "sample_env = \<lparr>ce_paymentId = ''p1'', ce_eventId = ''e1'', ce_now = 5, ce_eventNow = 6, ce_dbNow = 7,
     ce_iso_of = (\<lambda>t. ''t''), ce_traceHeaders = []\<rparr>"

definition sample_ctx :: request_context where
  "sample_ctx = \<lparr>rc_requestId = Some ''req1'', rc_correlationId = None, rc_merchantId = Some ''m1''\<rparr>"

definition sample_order_answer :: json where
  "sample_order_answer = JObj [(''valid'', JBool True), (''orderId'', JStr ''o1'')]"

definition sample_fraud_answer :: json where
  "sample_fraud_answer = JObj [(''approved'', JBool True), (''riskScore'', JNum (Fin 12))]"

definition empty_db :: payment_db where "empty_db = \<lparr>db_payments = [], db_outbox = []\<rparr>"

lemma order_stage_sample: "order_stage (\<lambda>rq. Inr sample_order_answer) m ref b = Inr (Some (JStr ''o1''))"
  by (simp add: order_stage_def sample_order_answer_def read_prop_def)

lemma fraud_stage_sample: "fraud_stage (\<lambda>rq. Inr sample_fraud_answer) m b = Inr ()"
  by (simp add: fraud_stage_def sample_fraud_answer_def read_prop_def)

lemma fresh_run:
  assumes "db_payments db = []" "db_outbox db = []" "fits_int (cp_amount b)"
  shows "\<exists>q calls db'. createPayment_rest sample_env no_faults (\<lambda>rq. Inr sample_order_answer)
           (\<lambda>rq. Inr sample_fraud_answer) sample_ctx b ''m1'' db = (Inr q, calls, db') \<and>
           db_payments db' = [q]"
  using assms
  by (simp add: createPayment_rest_def order_stage_sample fraud_stage_sample Let_def no_faults_def
      persist_stage_def PaymentRepository_create_def OutboxRepository_save_def)

lemma sample_reachable:
  "\<exists>q db'. pay_step\<^sup>*\<^sup>* (\<lparr>db_payments = [], db_outbox = []\<rparr>, []) (db', []) \<and> db_payments db' = [q]"
proof -
  let ?db = "\<lparr>db_payments = [], db_outbox = []\<rparr>"
  obtain q calls db' where r: "createPayment_rest sample_env no_faults (\<lambda>rq. Inr sample_order_answer)
      (\<lambda>rq. Inr sample_fraud_answer) sample_ctx sample_body ''m1'' ?db = (Inr q, calls, db')" "db_payments db' = [q]"
    using fresh_run [of ?db sample_body] by (auto simp: sample_body_def)
  have "check_duplicate no_faults ?db ''m1'' (js_trim (cp_reference sample_body)) = Inr ()"
    by (simp add: check_duplicate_def no_faults_def PaymentRepository_findByReference_def)
  from pay_step.Start [OF this, of "[]"] pay_step.Finish [OF r(1), of "[]" "[]"]
  have "pay_step (?db, []) (?db, [(''m1'', sample_body)])" "pay_step (?db, [(''m1'', sample_body)]) (db', [])"
    by simp_all
  then show ?thesis using r(2) by (meson converse_rtranclp_into_rtranclp rtranclp.rtrancl_refl)
qed

theorem interleaved_requests_ok_witness:
  "\<exists>db' :: payment_db. length (db_payments db') = 1 \<and> length (db_outbox db') = 1"
proof -
  obtain q db' where "pay_step\<^sup>*\<^sup>* (\<lparr>db_payments = [], db_outbox = []\<rparr>, []) (db', [])" "db_payments db' = [q]"
    using sample_reachable by blast
  with interleaved_requests_ok [OF this(1)] have "length (db_payments db') = 1 \<and> length (db_outbox db') = 1" by simp
  then show ?thesis by blast
qed

text \<open>
  When a request succeeds: no database error occurs, the reference is not yet used by the
  merchant, the order service and the fraud service both answer favourably, the identifiers are
  fresh and the amount is a 32-bit integer. Nothing else makes it fail.
\<close>

theorem createPayment_succeeds_iff:
  "(\<exists>q calls db'. createPayment env flt orders fraud ctx b m db = (Inr q, calls, db')) \<longleftrightarrow>
     flt = no_faults \<and>
     (\<forall>p \<in> set (db_payments db). p_merchantId p = m \<longrightarrow> p_reference p \<noteq> js_trim (cp_reference b)) \<and>
     (\<exists>r. orders (order_request_body m (js_trim (cp_reference b)) b) = Inr r \<and> r \<noteq> JNull) \<and>
     (\<exists>r v. fraud (fraud_request_body m b) = Inr r \<and> jget r ''approved'' = Some v \<and> truthy v) \<and>
     fits_int (cp_amount b) \<and> ce_paymentId env \<notin> p_id ` set (db_payments db) \<and>
     ce_eventId env \<notin> ob_id ` set (db_outbox db)"
proof -
  have ord: "(\<exists>o1. order_stage orders m ref b = Inr o1) \<longleftrightarrow>
      (\<exists>r. orders (order_request_body m ref b) = Inr r \<and> r \<noteq> JNull)" for ref
    by (cases "orders (order_request_body m ref b)") (auto simp: order_stage_def read_prop_def)
  have fr: "fraud_stage fraud m b = Inr u \<longleftrightarrow>
      (\<exists>r v. fraud (fraud_request_body m b) = Inr r \<and> jget r ''approved'' = Some v \<and> truthy v)" for u
    by (cases "fraud (fraud_request_body m b)")
       (auto simp: fraud_stage_def read_prop_def split: option.splits)
  show ?thesis
    unfolding createPayment_stages using ord [of "js_trim (cp_reference b)"] fr by blast
qed

theorem createPayment_succeeds_iff_witness:
  "\<exists>q calls db'. createPayment sample_env no_faults (\<lambda>rq. Inr sample_order_answer) (\<lambda>rq. Inr sample_fraud_answer)
     sample_ctx sample_body ''m1'' empty_db = (Inr q, calls, db')"
  unfolding createPayment_succeeds_iff
  by (simp add: sample_order_answer_def sample_fraud_answer_def sample_body_def empty_db_def)

text \<open>
  Failing fast: a duplicate known locally makes no request at all; the fraud service is asked
  only after the order service has accepted; and the requests are made in that order, each once.
\<close>

theorem createPayment_calls:
  "(let ref = js_trim (cp_reference b);
        oc = (''/api/v1/internal/orders/validate'', order_request_body m ref b);
        fc = (''/api/v1/internal/fraud/precheck'', fraud_request_body m b);
        calls = fst (snd (createPayment env flt orders fraud ctx b m db))
    in if check_duplicate flt db m ref \<noteq> Inr () then calls = []
       else if \<exists>e. order_stage orders m ref b = Inl e then calls = [oc]
       else calls = [oc, fc])"
  by (auto simp: createPayment_def createPayment_rest_def Let_def split: sum.split prod.split)

text \<open>
  What the client sees when the order service refuses: a foreign or unknown order is 404 alike,
  a mismatch 422, a paid order 409, any other answer 500, an unreachable or slow service 503; the
  fraud service is not asked and nothing is stored.
\<close>

theorem order_failure_status:
  assumes "check_duplicate flt db m (js_trim (cp_reference b)) = Inr ()"
    and "orders (order_request_body m (js_trim (cp_reference b)) b) = Inl e"
  shows "\<exists>x. createPayment env flt orders fraud ctx b m db
            = (Inl x, [(''/api/v1/internal/orders/validate'', order_request_body m (js_trim (cp_reference b)) b)], db) \<and>
     exn_status x =
       (if http_class ''DownstreamResponseException'' e
        then (if exn_status e \<in> {403, 404} then 404 else if exn_status e = 422 then 422
              else if exn_status e = 409 then 409 else 500)
        else if http_class ''RequestTimeoutException'' e \<or> http_class ''ServiceUnavailableException'' e then 503
        else 500)"
proof -
  have "exn_status (map_order_error ref a e) =
       (if http_class ''DownstreamResponseException'' e
        then (if exn_status e \<in> {403, 404} then 404 else if exn_status e = 422 then 422
              else if exn_status e = 409 then 409 else 500)
        else if http_class ''RequestTimeoutException'' e \<or> http_class ''ServiceUnavailableException'' e then 503
        else 500)" for ref a
    by (cases e) (auto simp: map_order_error_def http_class_def nest_500_def nest_503_def)
  then show ?thesis
    using assms by (simp add: createPayment_def createPayment_rest_def order_stage_def Let_def)
qed

theorem order_failure_status_witness:
  "\<exists>x. createPayment sample_env no_faults
         (\<lambda>rq. Inl (HttpExn \<lparr>he_name = ''DownstreamResponseException'', he_status = 403,
            he_response = JObj [(''details'', JObj [])], he_message = [], he_response_data = Some JNull\<rparr>))
         (\<lambda>rq. Inr sample_fraud_answer) sample_ctx sample_body ''m1'' empty_db
       = (Inl x, [(''/api/v1/internal/orders/validate'', order_request_body ''m1'' (js_trim '' r1 '') sample_body)], empty_db)
       \<and> exn_status x = 404"
  using order_failure_status [of no_faults empty_db "''m1''" sample_body
      "\<lambda>rq. Inl (HttpExn \<lparr>he_name = ''DownstreamResponseException'', he_status = 403,
         he_response = JObj [(''details'', JObj [])], he_message = [], he_response_data = Some JNull\<rparr>)" _ sample_env
      "\<lambda>rq. Inr sample_fraud_answer" sample_ctx]
  by (simp add: check_duplicate_def no_faults_def empty_db_def PaymentRepository_findByReference_def
      http_class_def exn_status_def sample_body_def)

text \<open>
  The race the unique key settles: when another request stores the same merchant and reference
  between this one's duplicate check and its transaction, nothing more is stored, but the client is
  told 500 rather than the 409 of \<open>DuplicatePaymentReferenceException\<close>.
\<close>

theorem lost_race_is_500:
  assumes "p \<in> set (db_payments db)" "p_merchantId p = m" "p_reference p = js_trim (cp_reference b)"
    and "order_stage orders m (js_trim (cp_reference b)) b = Inr o1" "fraud_stage fraud m b = Inr ()"
    and "fits_int (cp_amount b)" "df_payment flt = None"
  shows "\<exists>calls. createPayment_rest env flt orders fraud ctx b m db = (Inl P2002, calls, db) \<and> exn_status P2002 = 500"
proof -
  have "PaymentRepository_create (ce_dbNow env) (new_payment env ctx b m) (db_payments db) = Inl P2002"
    using assms(1-3,6) by (auto simp: PaymentRepository_create_def find_None_iff)
  then show ?thesis
    using assms by (simp add: createPayment_rest_def persist_stage_def Let_def P2002_def exn_status_def)
qed

definition stored_payment :: payment where
  "stored_payment = new_payment sample_env sample_ctx sample_body ''m1''"

theorem lost_race_is_500_witness:
  "\<exists>calls. createPayment_rest (sample_env\<lparr>ce_paymentId := ''p2''\<rparr>) no_faults (\<lambda>rq. Inr sample_order_answer)
     (\<lambda>rq. Inr sample_fraud_answer) sample_ctx sample_body ''m1'' (empty_db\<lparr>db_payments := [stored_payment]\<rparr>)
     = (Inl P2002, calls, empty_db\<lparr>db_payments := [stored_payment]\<rparr>) \<and> exn_status P2002 = 500"
  by (rule lost_race_is_500 [of stored_payment])
     (simp_all add: empty_db_def stored_payment_def order_stage_sample fraud_stage_sample sample_body_def no_faults_def)

text \<open>
  What was created can be read back: after the controller has answered with an id, \<open>GET\<close> with
  that id returns the payment of this merchant, as \<open>PENDING\<close>, with the amount and currency asked for.
\<close>

theorem created_payment_found:
  assumes "PaymentController_createPayment verr env flt orders fraud ctx hs body db
             = (Inr [(''paymentId'', JStr i), (''status'', st)], calls, db')"
  shows "\<exists>p. PaymentController_getPayment iso_of i db' = Inr p \<and> st = JStr ''PENDING'' \<and>
     map_of p ''merchantId'' = Some (JStr (the (hs ''x-merchant-id''))) \<and> map_of p ''status'' = Some (JStr ''PENDING'') \<and>
     map_of p ''amount'' = jget body ''amount'' \<and> map_of p ''currency'' = jget body ''currency''"
proof -
  obtain q where q: "createPayment env flt orders fraud ctx (as_create_payment body) (the (hs ''x-merchant-id'')) db
      = (Inr q, calls, db')" "i = p_id q" "st = JStr (payment_status_str (p_status q))"
    and ok: "CreatePaymentRequestDto_ok body"
    using controller_create_Inr [OF assms] by auto
  have rest: "createPayment_rest env flt orders fraud ctx (as_create_payment body) (the (hs ''x-merchant-id'')) db = (Inr q, calls, db')"
    using q(1) by (rule createPayment_InrD)
  obtain o1 ps where c: "PaymentRepository_create (ce_dbNow env)
      (new_payment env ctx (as_create_payment body) (the (hs ''x-merchant-id''))) (db_payments db) = Inr (q, ps)" "db_payments db' = ps"
    using rest by (auto simp: createPayment_rest_Inr persist_stage_Inr)
  then have q2: "q = (new_payment env ctx (as_create_payment body) (the (hs ''x-merchant-id'')))
       \<lparr>p_createdAt := ce_dbNow env, p_updatedAt := ce_dbNow env\<rparr>"
    "db_payments db' = db_payments db @ [q]" "p_id q \<notin> p_id ` set (db_payments db)"
    by (auto simp: PaymentRepository_create_Inr)
  have "find (\<lambda>r. p_id r = p_id q) (db_payments db) = None"
    using q2(3) find_key_None [of p_id "p_id q" "db_payments db"] by blast
  then have "getPayment i db' = Some q"
    unfolding getPayment_def PaymentRepository_findById_def q2(2) q(2) by (simp add: find_append)
  then show ?thesis
    using q(3) q2(1) dto_amount [OF ok] dto_currency [OF ok] by (simp add: PaymentController_getPayment_def)
qed

definition sample_json_body :: json where
  "sample_json_body = JObj [(''amount'', JNum (Fin 100)), (''currency'', JStr ''USD''), (''reference'', JStr ''r1'')]"

lemma sample_json_body_ok: "CreatePaymentRequestDto_ok sample_json_body"
  by (simp add: CreatePaymentRequestDto_ok_def only_props_def sample_json_body_def SUPPORTED_CURRENCIES_def)

theorem created_payment_found_witness:
  "\<exists>p i db'. PaymentController_getPayment (\<lambda>t. ''t'') i db' = Inr p \<and> map_of p ''amount'' = Some (JNum (Fin 100))"
proof -
  let ?hs = "(\<lambda>k. None)(''x-merchant-id'' \<mapsto> ''m1'')"
  have "fits_int (cp_amount (as_create_payment sample_json_body))"
    by (simp add: as_create_payment_def sample_json_body_def)
  then obtain q calls db' where r: "createPayment_rest sample_env no_faults (\<lambda>rq. Inr sample_order_answer)
      (\<lambda>rq. Inr sample_fraud_answer) sample_ctx (as_create_payment sample_json_body) ''m1'' empty_db = (Inr q, calls, db')"
    using fresh_run [of empty_db "as_create_payment sample_json_body"] by (auto simp: empty_db_def)
  have "createPayment sample_env no_faults (\<lambda>rq. Inr sample_order_answer) (\<lambda>rq. Inr sample_fraud_answer)
      sample_ctx (as_create_payment sample_json_body) ''m1'' empty_db = (Inr q, calls, db')"
    by (simp add: createPayment_def r check_duplicate_def PaymentRepository_findByReference_def empty_db_def no_faults_def)
       (use r in \<open>simp add: empty_db_def no_faults_def\<close>)
  then have "PaymentController_createPayment P2025 sample_env no_faults (\<lambda>rq. Inr sample_order_answer)
      (\<lambda>rq. Inr sample_fraud_answer) sample_ctx ?hs sample_json_body empty_db
      = (Inr [(''paymentId'', JStr (p_id q)), (''status'', JStr (payment_status_str (p_status q)))], calls, db')"
    by (simp add: PaymentController_createPayment_def sample_json_body_ok truthy_header_def)
  from created_payment_found [OF this, of "\<lambda>t. ''t''"] show ?thesis
    by (auto simp: sample_json_body_def)
qed

end
