(* ===== verification/Producer.thy ===== *)
theory Producer
  imports Serializer PaymentDomain
begin

text \<open>
  Publishing to Kafka: \<open>packages/common/src/messaging/topics.ts\<close> and \<open>producer.ts\<close>
  (\<open>KafkaEventProducer\<close>), and \<open>apps/outbox-relay/src/publisher.ts\<close>, which hands outbox rows to it.
  The broker is the argument \<open>send\<close> or \<open>sendBatch\<close> of kafkajs, which acknowledges with metadata or
  throws; \<open>inject\<close> gives the tracing headers drawn for a message (none when tracing fails).
  An event read from the outbox is a JSON value nobody has validated. Spans and metrics are left out.
\<close>

section \<open>Topics\<close>

text \<open>Own keys of the registry object.\<close>

definition TOPIC_REGISTRY :: "string \<Rightarrow> string option" where
  "TOPIC_REGISTRY = (\<lambda>k. None)(''PaymentInitiated'' \<mapsto> ''payments.initiated'', ''payments.dlq'' \<mapsto> ''payments.dlq'')"

definition resolveDlqTopic :: string where "resolveDlqTopic = ''payments.dlq''"

section \<open>The producer\<close>

record 'buf kafka_message =
  km_key :: string
  km_value :: 'buf
  km_headers :: "(string \<times> json) list"

record record_metadata =
  rm_topicName :: string
  rm_partition :: int
  rm_errorCode :: int
  rm_offset :: "string option"

record batch_item =
  bi_topic :: string
  bi_key :: string
  bi_event :: json
  bi_headers :: "(string \<times> string) list option"

record batch_result =
  br_eventId :: "json option"
  br_topicName :: string
  br_partition :: int
  br_offset :: string
  br_errorCode :: int

type_synonym inject = "(string \<times> string) list option \<Rightarrow> (string \<times> string) list"

text \<open>\<open>Object.assign(target, source)\<close>: a key of the source overwrites in place or is appended.\<close>

definition assign_one :: "(string \<times> json) list \<Rightarrow> string \<times> json \<Rightarrow> (string \<times> json) list" where
  "assign_one t kv =
     (if fst kv \<in> fst ` set t then map (\<lambda>p. if fst p = fst kv then kv else p) t else t @ [kv])"

definition object_assign :: "(string \<times> json) list \<Rightarrow> (string \<times> json) list \<Rightarrow> (string \<times> json) list" where
  "object_assign t src = foldl assign_one t src"

definition own_prop :: "string \<Rightarrow> json option \<Rightarrow> (string \<times> json) list" where
  "own_prop k v = (case v of None \<Rightarrow> [] | Some j \<Rightarrow> [(k, j)])"

definition final_headers :: "inject \<Rightarrow> json \<Rightarrow> (string \<times> string) list option \<Rightarrow> (string \<times> json) list" where
  "final_headers inject event headers =
     object_assign
       (own_prop ''correlationId'' (jget event ''correlationId'')
        @ own_prop ''causationId'' (jget event ''causationId'')
        @ own_prop ''requestId'' (jor (jget event ''requestId'') (Some (JStr []))))
       (map (\<lambda>(k, v). (k, JStr v)) (inject headers))"

text \<open>What producing needs of the runtime: \<open>JSON.stringify\<close> into a buffer, \<open>Date.parse\<close>, tracing.\<close>

record 'buf producer_env =
  pe_stringify :: "json \<Rightarrow> 'buf"
  pe_date_ok :: "string \<Rightarrow> bool"
  pe_inject :: inject

definition KafkaEventProducer_publish ::
  "'buf producer_env \<Rightarrow> (string \<Rightarrow> 'buf kafka_message list \<Rightarrow> exn + record_metadata list) \<Rightarrow>
   string \<Rightarrow> string \<Rightarrow> json \<Rightarrow> (string \<times> string) list option \<Rightarrow> exn + record_metadata list" where
  "KafkaEventProducer_publish env send topic key event headers =
     (let finalHeaders = final_headers (pe_inject env) event headers
      in rbind (serialize (pe_stringify env) (pe_date_ok env) event)
           (\<lambda>v. send topic [\<lparr>km_key = key, km_value = v, km_headers = finalHeaders\<rparr>]))"

definition prepare_message ::
  "'buf producer_env \<Rightarrow> batch_item \<Rightarrow> exn + string \<times> 'buf kafka_message" where
  "prepare_message env item =
     rbind (serialize (pe_stringify env) (pe_date_ok env) (bi_event item))
       (\<lambda>v. Inr (bi_topic item, \<lparr>km_key = bi_key item, km_value = v,
               km_headers = final_headers (pe_inject env) (bi_event item) (bi_headers item)\<rparr>))"

text \<open>\<open>messagesByTopic\<close>: one entry per topic, in the order the topics first appear.\<close>

definition push_message :: "(string \<times> 'm list) list \<Rightarrow> string \<times> 'm \<Rightarrow> (string \<times> 'm list) list" where
  "push_message g tm =
     (if fst tm \<in> fst ` set g
      then map (\<lambda>(t, ms). if t = fst tm then (t, ms @ [snd tm]) else (t, ms)) g
      else g @ [(fst tm, [snd tm])])"

definition group_by_topic :: "(string \<times> 'm) list \<Rightarrow> (string \<times> 'm list) list" where
  "group_by_topic ms = foldl push_message [] ms"

definition batch_metadata :: "record_metadata list \<Rightarrow> batch_item \<Rightarrow> batch_result" where
  "batch_metadata metadata item =
     (case find (\<lambda>m. rm_topicName m = bi_topic item) metadata of
        Some m \<Rightarrow> \<lparr>br_eventId = jget (bi_event item) ''eventId'', br_topicName = bi_topic item,
                   br_partition = rm_partition m, br_offset = (case rm_offset m of Some s \<Rightarrow> s | None \<Rightarrow> ''0''),
                   br_errorCode = rm_errorCode m\<rparr>
      | None \<Rightarrow> \<lparr>br_eventId = jget (bi_event item) ''eventId'', br_topicName = bi_topic item,
                 br_partition = 0, br_offset = ''0'', br_errorCode = 0\<rparr>)"

definition KafkaEventProducer_publishBatch ::
  "'buf producer_env \<Rightarrow> ((string \<times> 'buf kafka_message list) list \<Rightarrow> exn + record_metadata list) \<Rightarrow>
   batch_item list \<Rightarrow> exn + batch_result list" where
  "KafkaEventProducer_publishBatch env sendBatch items =
     rbind (rmap (prepare_message env) items) (\<lambda>prepared.
     rbind (sendBatch (group_by_topic prepared)) (\<lambda>metadata.
     Inr (map (batch_metadata metadata) items)))"

section \<open>The outbox publisher\<close>

definition EnvelopeMismatchException :: exn where
  "EnvelopeMismatchException = JsError ''EnvelopeMismatchException'' [Lit ''Outbox event payload is not a valid object'']"

definition OutboxPublicationException :: "frag list \<Rightarrow> exn" where
  "OutboxPublicationException msg = JsError ''OutboxPublicationException'' msg"

definition js_is_error :: "exn \<Rightarrow> bool" where
  "js_is_error e = (case e of NonError v \<Rightarrow> False | _ \<Rightarrow> True)"

definition serialization_error :: "exn \<Rightarrow> bool" where
  "serialization_error e = (js_is_error e \<and>
     exn_name e \<in> {''SerializationException'', ''MalformedEventEnvelopeException'', ''UnsupportedEventVersionException''})"

definition payload_envelope :: "outbox_event \<Rightarrow> exn + json" where
  "payload_envelope event =
     (if \<not> truthy (ob_payload event) \<or> \<not> typeof_object (ob_payload event) then Inl EnvelopeMismatchException
      else Inr (ob_payload event))"

definition event_topic :: "outbox_event \<Rightarrow> exn + string" where
  "event_topic event =
     (case TOPIC_REGISTRY (ob_eventType event) of
        None \<Rightarrow> Inl (OutboxPublicationException [Lit (''No topic mapping found for event type: '' @ ob_eventType event)])
      | Some t \<Rightarrow> Inr t)"

definition KafkaOutboxPublisher_publish ::
  "'buf producer_env \<Rightarrow> (string \<Rightarrow> 'buf kafka_message list \<Rightarrow> exn + record_metadata list) \<Rightarrow>
   outbox_event \<Rightarrow> exn + int \<times> string" where
  "KafkaOutboxPublisher_publish env send event =
     rbind (payload_envelope event) (\<lambda>envelope.
     rbind (event_topic event) (\<lambda>topic.
       case rbind (KafkaEventProducer_publish env send topic (ob_aggregateId event) envelope (ob_traceHeaders event))
              (\<lambda>metadata. case metadata of
                 [] \<Rightarrow> Inl (JsError ''Error'' [Lit ''Kafka broker returned empty metadata array''])
               | m # ms \<Rightarrow> Inr (rm_partition m, case rm_offset m of Some s \<Rightarrow> s | None \<Rightarrow> ''0'')) of
         Inr r \<Rightarrow> Inr r
       | Inl e \<Rightarrow> Inl (OutboxPublicationException
           (Lit (if serialization_error e then ''Serialization failed: '' else ''Kafka publish failed: '') # exn_message e))))"

record publication =
  pb_id :: "json option"
  pb_partition :: int
  pb_offset :: string

definition outbox_item :: "outbox_event \<Rightarrow> exn + batch_item" where
  "outbox_item event =
     rbind (payload_envelope event) (\<lambda>envelope.
     rbind (event_topic event) (\<lambda>topic.
       Inr \<lparr>bi_topic = topic, bi_key = ob_aggregateId event, bi_event = envelope, bi_headers = ob_traceHeaders event\<rparr>))"

text \<open>The row whose envelope carries the event id of the metadata.\<close>

definition publication_of :: "outbox_event list \<Rightarrow> batch_result \<Rightarrow> publication" where
  "publication_of events m =
     \<lparr>pb_id = (case find (\<lambda>e. truthy (ob_payload e) \<and> jget (ob_payload e) ''eventId'' = br_eventId m) events of
                 Some e \<Rightarrow> Some (JStr (ob_id e)) | None \<Rightarrow> br_eventId m),
      pb_partition = br_partition m, pb_offset = br_offset m\<rparr>"

definition KafkaOutboxPublisher_publishBatch ::
  "'buf producer_env \<Rightarrow> ((string \<times> 'buf kafka_message list) list \<Rightarrow> exn + record_metadata list) \<Rightarrow>
   outbox_event list \<Rightarrow> exn + publication list" where
  "KafkaOutboxPublisher_publishBatch env sendBatch events =
     rbind (rmap outbox_item events) (\<lambda>items.
       case KafkaEventProducer_publishBatch env sendBatch items of
         Inr metadataList \<Rightarrow> Inr (map (publication_of events) metadataList)
       | Inl e \<Rightarrow> Inl (OutboxPublicationException (Lit ''Kafka batch publish failed: '' # exn_message e)))"

definition ConsoleEventPublisher_publish :: "outbox_event \<Rightarrow> exn + int \<times> string" where
  "ConsoleEventPublisher_publish event = Inr (0, ''0'')"

definition ConsoleEventPublisher_publishBatch :: "outbox_event list \<Rightarrow> exn + publication list" where
  "ConsoleEventPublisher_publishBatch events =
     Inr (map (\<lambda>e. \<lparr>pb_id = Some (JStr (ob_id e)), pb_partition = 0, pb_offset = ''0''\<rparr>) events)"

section \<open>Lemmas\<close>

lemma push_message_topics:
  "fst ` set (push_message g tm) = insert (fst tm) (fst ` set g)"
proof -
  have "fst ` set (map (\<lambda>(t, ms). if t = x then (t, ms @ [y]) else (t, ms)) g) = fst ` set g" for x :: string and y
    by (force split: if_splits)
  then show ?thesis by (auto simp: push_message_def)
qed

lemma push_message_distinct:
  assumes "distinct (map fst g)"
  shows "distinct (map fst (push_message g tm))"
proof (cases "fst tm \<in> fst ` set g")
  case True
  have "map fst (map (\<lambda>(t, ms). if t = fst tm then (t, ms @ [snd tm]) else (t, ms)) g) = map fst g"
    by (induction g) auto
  with True assms show ?thesis by (simp only: push_message_def if_True)
next
  case False
  with assms show ?thesis by (auto simp: push_message_def)
qed

definition topic_messages :: "(string \<times> 'm list) list \<Rightarrow> string \<Rightarrow> 'm list" where
  "topic_messages g t = (case map_of g t of None \<Rightarrow> [] | Some ms \<Rightarrow> ms)"

lemma topic_messages_push:
  assumes "distinct (map fst g)"
  shows "topic_messages (push_message g tm) t =
         topic_messages g t @ (if t = fst tm then [snd tm] else [])"
proof (cases "fst tm \<in> fst ` set g")
  case True
  have "map_of (map (\<lambda>(u, ms). if u = fst tm then (u, ms @ [snd tm]) else (u, ms)) g) t =
        map_option (\<lambda>ms. if t = fst tm then ms @ [snd tm] else ms) (map_of g t)"
    by (induction g) auto
  moreover have "t = fst tm \<Longrightarrow> map_of g t \<noteq> None" using True by (simp add: map_of_eq_None_iff)
  ultimately show ?thesis using True by (auto simp: push_message_def topic_messages_def split: option.splits)
next
  case False
  then have "map_of g (fst tm) = None" by (simp add: map_of_eq_None_iff)
  with False show ?thesis by (auto simp: push_message_def topic_messages_def map_add_def split: option.splits)
qed

lemma group_by_topic_spec:
  "distinct (map fst (group_by_topic ms)) \<and>
   topic_messages (group_by_topic ms) t = map snd (filter (\<lambda>m. fst m = t) ms)"
  unfolding group_by_topic_def
proof (induction ms rule: rev_induct)
  case Nil
  then show ?case by (simp add: topic_messages_def)
next
  case (snoc m ms)
  then show ?case using push_message_distinct [of "foldl push_message [] ms" m] by (simp add: topic_messages_push)
qed

lemma publishBatch_Inr:
  "KafkaEventProducer_publishBatch env sendBatch items = Inr rs \<longleftrightarrow>
     (\<exists>prepared metadata. rmap (prepare_message env) items = Inr prepared \<and>
        sendBatch (group_by_topic prepared) = Inr metadata \<and> rs = map (batch_metadata metadata) items)"
  by (auto simp: KafkaEventProducer_publishBatch_def rbind_Inr_iff)

lemma outbox_publishBatch_Inr:
  "KafkaOutboxPublisher_publishBatch env sendBatch events = Inr ps \<longleftrightarrow>
     (\<exists>items rs. rmap outbox_item events = Inr items \<and>
        KafkaEventProducer_publishBatch env sendBatch items = Inr rs \<and> ps = map (publication_of events) rs)"
proof (cases "rmap outbox_item events")
  case (Inr items)
  then show ?thesis
    by (cases "KafkaEventProducer_publishBatch env sendBatch items")
       (auto simp: KafkaOutboxPublisher_publishBatch_def)
qed (simp add: KafkaOutboxPublisher_publishBatch_def)

section \<open>Properties\<close>

text \<open>
  A batch is sent as a whole and loses or reorders nothing: whenever the producer returns, the
  broker has acknowledged one batch that names every topic once and holds, under each topic, exactly
  the messages of the items of that topic in the order of the items; and when an event does not
  serialize the outcome does not depend on the broker, which is not contacted.
\<close>

theorem publishBatch_sends_all:
  "(\<forall>rs. KafkaEventProducer_publishBatch env sendBatch items = Inr rs \<longrightarrow>
      (\<exists>prepared metadata. list_all2 (\<lambda>i m. prepare_message env i = Inr m) items prepared \<and>
         sendBatch (group_by_topic prepared) = Inr metadata \<and>
         distinct (map fst (group_by_topic prepared)) \<and>
         (\<forall>t. topic_messages (group_by_topic prepared) t = map snd (filter (\<lambda>m. fst m = t) prepared))))
   \<and> ((\<exists>i \<in> set items. \<exists>e. prepare_message env i = Inl e) \<longrightarrow>
        KafkaEventProducer_publishBatch env sendBatch items = KafkaEventProducer_publishBatch env sendBatch' items
        \<and> (\<exists>e. KafkaEventProducer_publishBatch env sendBatch items = Inl e))"
proof (intro conjI allI impI)
  fix rs
  assume "KafkaEventProducer_publishBatch env sendBatch items = Inr rs"
  then obtain prepared metadata where "rmap (prepare_message env) items = Inr prepared"
      "sendBatch (group_by_topic prepared) = Inr metadata"
    by (auto simp: publishBatch_Inr)
  then show "\<exists>prepared metadata. list_all2 (\<lambda>i m. prepare_message env i = Inr m) items prepared \<and>
         sendBatch (group_by_topic prepared) = Inr metadata \<and>
         distinct (map fst (group_by_topic prepared)) \<and>
         (\<forall>t. topic_messages (group_by_topic prepared) t = map snd (filter (\<lambda>m. fst m = t) prepared))"
    using group_by_topic_spec [of prepared] by (auto simp: rmap_Inr_iff)
next
  assume "\<exists>i \<in> set items. \<exists>e. prepare_message env i = Inl e"
  then obtain e where "rmap (prepare_message env) items = Inl e"
    using rmap_Inl_ex [of "prepare_message env" items] by auto
  then show "KafkaEventProducer_publishBatch env sendBatch items = KafkaEventProducer_publishBatch env sendBatch' items"
    and "\<exists>e. KafkaEventProducer_publishBatch env sendBatch items = Inl e"
    by (simp_all add: KafkaEventProducer_publishBatch_def)
qed

definition plain_env :: "json producer_env" where
  "plain_env = \<lparr>pe_stringify = (\<lambda>j. j), pe_date_ok = (\<lambda>s. True), pe_inject = (\<lambda>h. [])\<rparr>"

definition ack_all :: "(string \<times> json kafka_message list) list \<Rightarrow> exn + record_metadata list" where
  "ack_all g = Inr (map (\<lambda>(t, ms). \<lparr>rm_topicName = t, rm_partition = 2, rm_errorCode = 0, rm_offset = Some ''41''\<rparr>) g)"

definition sample_item :: batch_item where
  "sample_item = \<lparr>bi_topic = ''payments.initiated'', bi_key = ''p1'', bi_event = envelope_json sample_envelope, bi_headers = None\<rparr>"

lemma prepare_sample: "\<exists>m. prepare_message plain_env sample_item = Inr (''payments.initiated'', m)"
  using sample_envelope_valid serialize_Inr [of "\<lambda>j. j" "\<lambda>s. True" "envelope_json sample_envelope"]
  by (auto simp: prepare_message_def plain_env_def sample_item_def as_envelope_sample rbind_Inr_iff)
     (simp add: sample_envelope_def)

theorem publishBatch_sends_all_witness:
  "\<exists>prepared. list_all2 (\<lambda>i m. prepare_message plain_env i = Inr m) [sample_item, sample_item] prepared \<and>
     length (topic_messages (group_by_topic prepared) ''payments.initiated'') = 2"
proof -
  obtain m where m: "prepare_message plain_env sample_item = Inr (''payments.initiated'', m)" using prepare_sample by blast
  have "\<exists>rs. KafkaEventProducer_publishBatch plain_env ack_all [sample_item, sample_item] = Inr rs"
    by (simp add: KafkaEventProducer_publishBatch_def m ack_all_def)
  then obtain prepared where p: "list_all2 (\<lambda>i m. prepare_message plain_env i = Inr m) [sample_item, sample_item] prepared"
      "topic_messages (group_by_topic prepared) ''payments.initiated'' =
         map snd (filter (\<lambda>m. fst m = ''payments.initiated'') prepared)"
    using publishBatch_sends_all [of plain_env ack_all "[sample_item, sample_item]"] by blast
  then show ?thesis using m by (intro exI [of _ prepared]) (auto simp: list_all2_Cons1)
qed

text \<open>
  The metadata handed back is looked up by topic alone, so every two events of one topic in a
  batch are given the same partition and offset, whatever the broker assigned to each of them.
\<close>

theorem publishBatch_metadata_by_topic:
  assumes "KafkaEventProducer_publishBatch env sendBatch items = Inr rs"
    and "i < length items" "j < length items" "bi_topic (items ! i) = bi_topic (items ! j)"
  shows "br_partition (rs ! i) = br_partition (rs ! j) \<and> br_offset (rs ! i) = br_offset (rs ! j)"
proof -
  obtain metadata where "rs = map (batch_metadata metadata) items"
    using assms(1) by (auto simp: publishBatch_Inr)
  with assms(2-4) show ?thesis by (simp add: batch_metadata_def split: option.split)
qed

theorem publishBatch_metadata_by_topic_witness:
  "\<exists>rs. KafkaEventProducer_publishBatch plain_env
          (\<lambda>g. Inr [\<lparr>rm_topicName = ''payments.initiated'', rm_partition = 0, rm_errorCode = 0, rm_offset = Some ''7''\<rparr>,
                     \<lparr>rm_topicName = ''payments.initiated'', rm_partition = 1, rm_errorCode = 0, rm_offset = Some ''3''\<rparr>])
          [sample_item, sample_item] = Inr rs
      \<and> br_partition (rs ! 0) = br_partition (rs ! 1)"
proof -
  obtain m where m: "prepare_message plain_env sample_item = Inr (''payments.initiated'', m)" using prepare_sample by blast
  let ?send = "\<lambda>g :: (string \<times> json kafka_message list) list. (Inr [\<lparr>rm_topicName = ''payments.initiated'', rm_partition = 0, rm_errorCode = 0, rm_offset = Some ''7''\<rparr>,
                     \<lparr>rm_topicName = ''payments.initiated'', rm_partition = 1, rm_errorCode = 0, rm_offset = Some ''3''\<rparr>] :: exn + record_metadata list)"
  obtain rs where rs: "KafkaEventProducer_publishBatch plain_env ?send [sample_item, sample_item] = Inr rs"
    by (simp add: KafkaEventProducer_publishBatch_def m)
  from publishBatch_metadata_by_topic [OF this, of 0 1] rs show ?thesis by auto
qed

lemma poison_batch:
  assumes "e \<in> set events"
    and "(\<exists>x. outbox_item e = Inl x) \<or> (\<exists>i x. outbox_item e = Inr i \<and> prepare_message env i = Inl x)"
  shows "\<exists>x. KafkaOutboxPublisher_publishBatch env sendBatch events = Inl x"
proof (cases "rmap outbox_item events")
  case (Inl x)
  then show ?thesis by (simp add: KafkaOutboxPublisher_publishBatch_def)
next
  case (Inr items)
  then have la: "list_all2 (\<lambda>e i. outbox_item e = Inr i) events items" by (simp add: rmap_Inr_iff)
  obtain i where i: "i \<in> set items" "outbox_item e = Inr i"
    using list_all2_ex1 [OF la assms(1)] by blast
  with assms(2) obtain x where "prepare_message env i = Inl x" by auto
  with i(1) have "\<exists>x. rmap (prepare_message env) items = Inl x"
    using rmap_Inl_ex [of "prepare_message env" items] by blast
  with Inr show ?thesis by (auto simp: KafkaOutboxPublisher_publishBatch_def KafkaEventProducer_publishBatch_def)
qed

text \<open>
  One bad row fails its whole batch: if any row of the batch has a payload that is no object, or
  an event type without a topic, or an envelope that does not validate, the publisher throws for the
  batch, whatever the other rows are and whatever the broker would answer.
\<close>

theorem poison_event_fails_batch:
  assumes "e \<in> set events"
    and "(\<exists>x. outbox_item e = Inl x) \<or> (\<exists>i x. outbox_item e = Inr i \<and> prepare_message env i = Inl x)"
  shows "\<exists>x. KafkaOutboxPublisher_publishBatch env sendBatch events = Inl x"
  using poison_batch [OF assms] .

definition sample_row :: outbox_event where
  "sample_row = OutboxEventEntity_create (\<lambda>t. ''t'') ''e1'' 5 []
     \<lparr>op_aggregateId = ''p1'', op_aggregateType = ''Payment'', op_eventType = ''PaymentInitiated'',
      op_payload = JObj [(''amount'', JNum (Fin 5))], op_requestId = ''r1'', op_correlationId = ''c1'', op_causationId = ''r1''\<rparr>"

theorem poison_event_fails_batch_witness:
  "\<exists>x. KafkaOutboxPublisher_publishBatch plain_env ack_all
         [sample_row, sample_row\<lparr>ob_id := ''e2'', ob_eventType := ''PaymentCompleted''\<rparr>] = Inl x"
  by (rule poison_event_fails_batch [of "sample_row\<lparr>ob_id := ''e2'', ob_eventType := ''PaymentCompleted''\<rparr>"])
     (simp_all add: outbox_item_def payload_envelope_def event_topic_def TOPIC_REGISTRY_def sample_row_def
        OutboxEventEntity_create_def outbox_envelope_def)

text \<open>The publications of a batch name rows of the batch.\<close>

lemma publishBatch_ids:
  assumes "KafkaOutboxPublisher_publishBatch env sendBatch events = Inr ps" "p \<in> set ps"
  shows "\<exists>e \<in> set events. pb_id p = Some (JStr (ob_id e))"
proof -
  obtain items metadata where it: "rmap outbox_item events = Inr items"
      "ps = map (publication_of events) (map (batch_metadata metadata) items)"
    using assms(1) unfolding outbox_publishBatch_Inr publishBatch_Inr by blast
  then have la: "list_all2 (\<lambda>e i. outbox_item e = Inr i) events items" by (simp add: rmap_Inr_iff)
  from it(2) assms(2) obtain i where i: "i \<in> set items" "p = publication_of events (batch_metadata metadata i)" by auto
  then obtain e where e: "e \<in> set events" "outbox_item e = Inr i"
    using list_all2_ex2 [OF la] by blast
  then have "truthy (ob_payload e) \<and> bi_event i = ob_payload e"
    by (auto simp: outbox_item_def payload_envelope_def rbind_Inr_iff split: if_splits)
  then have "find (\<lambda>e. truthy (ob_payload e) \<and> jget (ob_payload e) ''eventId'' = br_eventId (batch_metadata metadata i)) events \<noteq> None"
    using e(1) by (auto simp: find_None_iff batch_metadata_def split: option.splits)
  then obtain q where "find (\<lambda>e. truthy (ob_payload e) \<and> jget (ob_payload e) ''eventId'' = br_eventId (batch_metadata metadata i)) events = Some q"
    by blast
  with i(2) show ?thesis using find_SomeD by (fastforce simp: publication_of_def)
qed

end
