(* ===== verification/OutboxRelay.thy ===== *)
theory OutboxRelay
  imports Producer
begin

text \<open>
  The outbox relay's repository, \<open>apps/outbox-relay/src/repositories/outbox.repository.ts\<close>, over the
  outbox table. \<open>FOR UPDATE SKIP LOCKED\<close> skips the rows another transaction holds: the set \<open>locked\<close>
  of their ids is an argument. Rows of equal \<open>createdAt\<close> come in insertion order. What bounds the
  number of attempts is stated as the locale \<open>retry_budget\<close>.
\<close>

section \<open>A budget of retries\<close>

text \<open>
  \<open>fail i\<close> is what one failed attempt, of whatever kind \<open>i\<close>, does to a row: it counts the attempt, and
  leaves the row live while the count is below the limit and dead from then on.
\<close>

locale retry_budget =
  fixes count :: "'r \<Rightarrow> nat"
    and live :: "'r \<Rightarrow> bool"
    and dead :: "'r \<Rightarrow> bool"
    and fail :: "'i \<Rightarrow> 'r \<Rightarrow> 'r"
    and limit :: nat
  assumes fail_count: "live r \<Longrightarrow> count (fail i r) = count r + 1"
    and fail_live: "live r \<Longrightarrow> count r + 1 < limit \<Longrightarrow> live (fail i r)"
    and fail_dead: "live r \<Longrightarrow> limit \<le> count r + 1 \<Longrightarrow> dead (fail i r)"
begin

lemma fails_live:
  "live r \<Longrightarrow> count r + length is < limit \<Longrightarrow> live (fold fail is r) \<and> count (fold fail is r) = count r + length is"
  by (induction "is" arbitrary: r) (auto simp: fail_count fail_live)

lemma fails_dead:
  assumes "live r" "count r < limit" "length is = limit - count r"
  shows "dead (fold fail is r)"
proof -
  obtain js j where js: "is = js @ [j]" using assms(2,3) by (cases "is" rule: rev_cases) auto
  with assms have "live (fold fail js r)" "count (fold fail js r) = count r + length js"
    using fails_live [of r js] by auto
  then show ?thesis using fail_dead [of "fold fail js r" j] js assms(3) by simp
qed

end

section \<open>The repository\<close>

definition with_ids :: "string list \<Rightarrow> outbox_event \<Rightarrow> bool" where
  "with_ids ids r = (ob_id r \<in> set ids)"

definition claimable :: "string set \<Rightarrow> outbox_event \<Rightarrow> bool" where
  "claimable locked r = (ob_status r \<in> {O_PENDING, O_RETRYING} \<and> ob_id r \<notin> locked)"

definition claim_ids :: "string set \<Rightarrow> nat \<Rightarrow> outbox_event list \<Rightarrow> string list" where
  "claim_ids locked batchSize t = map ob_id (take batchSize (sort_key ob_createdAt (filter (claimable locked) t)))"

definition claim_row :: "nat \<Rightarrow> outbox_event \<Rightarrow> outbox_event" where
  "claim_row now r = r\<lparr>ob_status := O_PUBLISHING, ob_lastAttemptAt := Some now\<rparr>"

definition claimPending ::
  "nat \<Rightarrow> string set \<Rightarrow> nat \<Rightarrow> outbox_event list \<Rightarrow> outbox_event list \<times> outbox_event list" where
  "claimPending now locked batchSize t =
     (let ids = claim_ids locked batchSize t
      in if ids = [] then ([], t)
         else (let t' = tbl_upd (with_ids ids) (claim_row now) t
               in (sort_key ob_createdAt (filter (with_ids ids) t'), t')))"

definition Relay_markPublished ::
  "nat \<Rightarrow> string \<Rightarrow> int \<Rightarrow> string \<Rightarrow> outbox_event list \<Rightarrow> exn + outbox_event \<times> outbox_event list" where
  "Relay_markPublished now i part off =
     outbox_update i (\<lambda>r. ob_status r = O_PUBLISHING)
       (\<lambda>r. r\<lparr>ob_status := O_PUBLISHED, ob_publishedAt := Some now, ob_partition := Some part, ob_offset := Some off\<rparr>)"

definition Relay_markFailed :: "string \<Rightarrow> outbox_event list \<Rightarrow> exn + outbox_event \<times> outbox_event list" where
  "Relay_markFailed i =
     outbox_update i (\<lambda>r. ob_status r = O_PUBLISHING)
       (\<lambda>r. r\<lparr>ob_status := O_FAILED, ob_retryCount := ob_retryCount r + 1\<rparr>)"

definition Relay_markRetrying :: "string \<Rightarrow> outbox_event list \<Rightarrow> exn + outbox_event \<times> outbox_event list" where
  "Relay_markRetrying i =
     outbox_update i (\<lambda>r. ob_status r = O_FAILED) (\<lambda>r. r\<lparr>ob_status := O_RETRYING\<rparr>)"

definition stale :: "string set \<Rightarrow> nat \<Rightarrow> nat \<Rightarrow> outbox_event \<Rightarrow> bool" where
  "stale locked now staleTimeoutMs r =
     (ob_status r = O_PUBLISHING \<and> ob_id r \<notin> locked \<and>
      (case ob_lastAttemptAt r of None \<Rightarrow> False | Some t \<Rightarrow> t + staleTimeoutMs < now))"

definition recover_row :: "nat \<Rightarrow> outbox_event \<Rightarrow> outbox_event" where
  "recover_row retryLimit r =
     (let nextRetryCount = ob_retryCount r + 1
      in r\<lparr>ob_status := (if nextRetryCount < retryLimit then O_RETRYING else O_FAILED),
           ob_retryCount := nextRetryCount\<rparr>)"

definition recoverStale :: "nat \<Rightarrow> string set \<Rightarrow> nat \<Rightarrow> nat \<Rightarrow> outbox_event list \<Rightarrow> outbox_event list" where
  "recoverStale now locked staleTimeoutMs retryLimit t =
     (let ids = map ob_id (sort_key ob_createdAt (filter (stale locked now staleTimeoutMs) t))
      in if ids = [] then t else tbl_upd (with_ids ids) (recover_row retryLimit) t)"

definition countPending :: "outbox_event list \<Rightarrow> nat" where
  "countPending = tbl_count (\<lambda>r. ob_status r \<in> {O_PENDING, O_RETRYING, O_PUBLISHING})"

definition countFailed :: "outbox_event list \<Rightarrow> nat" where
  "countFailed = tbl_count (\<lambda>r. ob_status r = O_FAILED)"

definition countPublished :: "outbox_event list \<Rightarrow> nat" where
  "countPublished = tbl_count (\<lambda>r. ob_status r = O_PUBLISHED)"

text \<open>
  \<open>UPDATE ... FROM (VALUES ...) AS v WHERE e.id = v.id AND e.status = 'PUBLISHING'\<close>. Of several
  values with one id the first is used.
\<close>

definition published_row :: "nat \<Rightarrow> publication \<Rightarrow> outbox_event \<Rightarrow> outbox_event" where
  "published_row now p r =
     r\<lparr>ob_status := O_PUBLISHED, ob_publishedAt := Some now, ob_partition := Some (pb_partition p),
       ob_offset := Some (pb_offset p)\<rparr>"

definition publication_for :: "publication list \<Rightarrow> outbox_event \<Rightarrow> publication option" where
  "publication_for items r = find (\<lambda>p. pb_id p = Some (JStr (ob_id r))) items"

definition markPublishedBatch :: "nat \<Rightarrow> publication list \<Rightarrow> outbox_event list \<Rightarrow> outbox_event list" where
  "markPublishedBatch now items t =
     (if items = [] then t
      else tbl_upd (\<lambda>r. ob_status r = O_PUBLISHING \<and> publication_for items r \<noteq> None)
             (\<lambda>r. published_row now (the (publication_for items r)) r) t)"

definition markFailedBatch :: "string list \<Rightarrow> nat \<Rightarrow> outbox_event list \<Rightarrow> outbox_event list" where
  "markFailedBatch ids retryLimit t =
     (if ids = [] then t
      else tbl_upd (\<lambda>r. with_ids ids r \<and> ob_status r = O_FAILED \<and> ob_retryCount r < retryLimit)
             (\<lambda>r. r\<lparr>ob_status := O_RETRYING\<rparr>)
             (tbl_upd (\<lambda>r. with_ids ids r \<and> ob_status r = O_PUBLISHING)
                (\<lambda>r. r\<lparr>ob_status := O_FAILED, ob_retryCount := ob_retryCount r + 1\<rparr>) t))"

section \<open>Lemmas\<close>

text \<open>One failed attempt of a row being published, as \<open>markFailedBatch\<close> and \<open>recoverStale\<close> make it.\<close>

lemma tbl_upd_upd:
  "tbl_upd p f (tbl_upd q g t) =
   map (\<lambda>r. let s = (if q r then g r else r) in if p s then f s else s) t"
  by (simp add: tbl_upd_def Let_def)

text \<open>What the relay believes of every row, for the limit it is configured with.\<close>

definition row_ok :: "nat \<Rightarrow> outbox_event \<Rightarrow> bool" where
  "row_ok limit r \<longleftrightarrow>
     (ob_status r \<in> {O_PENDING, O_RETRYING, O_PUBLISHING} \<longrightarrow> ob_retryCount r < limit) \<and>
     (ob_status r = O_FAILED \<longrightarrow> ob_retryCount r = limit) \<and>
     (ob_status r = O_PUBLISHED \<longrightarrow> ob_retryCount r < limit \<and> ob_publishedAt r \<noteq> None)"

lemma recover_row_ok:
  "row_ok limit r \<Longrightarrow> ob_status r = O_PUBLISHING \<Longrightarrow> row_ok limit (recover_row limit r)"
  by (auto simp: row_ok_def recover_row_def Let_def)

lemma markFailedBatch_map:
  assumes "\<forall>r \<in> set t. row_ok limit r"
  shows "markFailedBatch ids limit t =
     tbl_upd (\<lambda>r. with_ids ids r \<and> ob_status r = O_PUBLISHING) (recover_row limit) t"
proof (cases "ids = []")
  case True
  then show ?thesis by (simp add: markFailedBatch_def with_ids_def tbl_upd_none)
next
  case False
  have "(let s = (if with_ids ids r \<and> ob_status r = O_PUBLISHING
                 then r\<lparr>ob_status := O_FAILED, ob_retryCount := ob_retryCount r + 1\<rparr> else r)
         in if with_ids ids s \<and> ob_status s = O_FAILED \<and> ob_retryCount s < limit then s\<lparr>ob_status := O_RETRYING\<rparr> else s)
       = (if with_ids ids r \<and> ob_status r = O_PUBLISHING then recover_row limit r else r)"
    if "r \<in> set t" for r
    using assms that by (auto simp: with_ids_def row_ok_def recover_row_def Let_def)
  then show ?thesis
    unfolding markFailedBatch_def tbl_upd_upd if_not_P [OF False] unfolding tbl_upd_def by (rule map_cong [OF refl])
qed

lemma markPublishedBatch_eq:
  "markPublishedBatch now items t =
     tbl_upd (\<lambda>r. ob_status r = O_PUBLISHING \<and> publication_for items r \<noteq> None)
       (\<lambda>r. published_row now (the (publication_for items r)) r) t"
  by (simp add: markPublishedBatch_def publication_for_def tbl_upd_none)

lemma recoverStale_eq:
  assumes "distinct (map ob_id t)"
  shows "recoverStale now locked st limit t = tbl_upd (stale locked now st) (recover_row limit) t"
proof -
  have eq: "with_ids (map ob_id (sort_key ob_createdAt (filter (stale locked now st) t))) r \<longleftrightarrow> stale locked now st r"
    if "r \<in> set t" for r
    using that distinct_key_eq [OF assms] by (auto simp: with_ids_def)
  have upd: "tbl_upd (with_ids (map ob_id (sort_key ob_createdAt (filter (stale locked now st) t)))) (recover_row limit) t
      = tbl_upd (stale locked now st) (recover_row limit) t"
    using eq by (simp add: tbl_upd_def)
  have emp: "filter (stale locked now st) t = [] \<Longrightarrow> tbl_upd (stale locked now st) (recover_row limit) t = t"
    by (rule tbl_upd_none) (auto simp: filter_empty_conv)
  show ?thesis
  proof (cases "filter (stale locked now st) t = []")
    case True
    with emp show ?thesis by (simp add: recoverStale_def)
  next
    case False
    then have "map ob_id (sort_key ob_createdAt (filter (stale locked now st) t)) \<noteq> []"
      by (metis length_0_conv length_map length_sort)
    with upd show ?thesis by (simp add: recoverStale_def Let_def)
  qed
qed

lemma claim_row_simps [simp]:
  "ob_id (claim_row now r) = ob_id r" "ob_createdAt (claim_row now r) = ob_createdAt r"
  "ob_status (claim_row now r) = O_PUBLISHING" "ob_retryCount (claim_row now r) = ob_retryCount r"
  by (simp_all add: claim_row_def)

lemma recover_row_simps [simp]:
  "ob_id (recover_row limit r) = ob_id r" "ob_retryCount (recover_row limit r) = ob_retryCount r + 1"
  by (simp_all add: recover_row_def Let_def)

lemma published_row_simps [simp]:
  "ob_id (published_row now p r) = ob_id r" "ob_status (published_row now p r) = O_PUBLISHED"
  by (simp_all add: published_row_def)

lemma claim_ids_set:
  assumes "distinct (map ob_id t)"
  shows "set (claim_ids locked n t) \<subseteq> ob_id ` {r \<in> set t. claimable locked r}"
    and "distinct (claim_ids locked n t)" and "length (claim_ids locked n t) \<le> n"
proof -
  have "set (take n (sort_key ob_createdAt (filter (claimable locked) t))) \<subseteq> set (filter (claimable locked) t)"
    using set_take_subset [of n "sort_key ob_createdAt (filter (claimable locked) t)"] by simp
  then show "set (claim_ids locked n t) \<subseteq> ob_id ` {r \<in> set t. claimable locked r}"
    by (auto simp: claim_ids_def)
  have "distinct (map ob_id (filter (claimable locked) t))" using assms by (simp add: distinct_map_filter)
  then have "distinct (map ob_id (sort_key ob_createdAt (filter (claimable locked) t)))"
    by (simp add: distinct_map)
  then show "distinct (claim_ids locked n t)"
    by (simp add: claim_ids_def take_map [symmetric])
  show "length (claim_ids locked n t) \<le> n" by (simp add: claim_ids_def)
qed

text \<open>What \<open>claimPending\<close> did to the table, and the rows it returns.\<close>

lemma claimPending_eq:
  "claimPending now locked n t =
     (let ids = claim_ids locked n t; t' = tbl_upd (with_ids ids) (claim_row now) t
      in (sort_key ob_createdAt (filter (with_ids ids) t'), t'))"
  by (simp add: claimPending_def Let_def with_ids_def tbl_upd_none)

lemma claimPending_set:
  assumes "claimPending now locked n t = (es, t')"
  shows "set es = claim_row now ` {r \<in> set t. ob_id r \<in> set (claim_ids locked n t)}"
  using assms by (auto simp: claimPending_eq Let_def set_tbl_upd with_ids_def split: if_splits)

lemma claimPending_length:
  assumes "distinct (map ob_id t)" "claimPending now locked n t = (es, t')"
  shows "length es \<le> n" and "distinct (map ob_id es)"
proof -
  have t': "t' = tbl_upd (with_ids (claim_ids locked n t)) (claim_row now) t"
    and es: "es = sort_key ob_createdAt (filter (with_ids (claim_ids locked n t)) t')"
    using assms(2) by (auto simp: claimPending_eq Let_def)
  have d: "distinct (map ob_id (filter (with_ids (claim_ids locked n t)) t'))"
    using assms(1) by (simp add: t' distinct_map_filter map_tbl_upd)
  then show d2: "distinct (map ob_id es)" by (simp add: es distinct_map)
  have "set (map ob_id es) \<subseteq> set (claim_ids locked n t)" by (auto simp: es with_ids_def)
  then have "card (set (map ob_id es)) \<le> card (set (claim_ids locked n t))" by (rule card_mono [OF finite_set])
  then show "length es \<le> n"
    using distinct_card [OF d2] claim_ids_set [OF assms(1), of locked n]
    by (simp add: distinct_card del: set_map)
qed

section \<open>The budget of the outbox\<close>

text \<open>
  A failed batch and a stale recovery spend one retry of a row that is being published; a live row
  is then claimed again, which spends nothing.
\<close>

definition fail_attempt :: "nat \<Rightarrow> outbox_event \<Rightarrow> outbox_event" where
  "fail_attempt limit r = recover_row limit (r\<lparr>ob_status := O_PUBLISHING\<rparr>)"

interpretation ob_budget: retry_budget ob_retryCount
  "\<lambda>r. ob_status r \<in> {O_PENDING, O_RETRYING, O_PUBLISHING}" "\<lambda>r. ob_status r = O_FAILED"
  "\<lambda>u :: unit. fail_attempt limit" limit for limit
  by unfold_locales (auto simp: fail_attempt_def recover_row_def Let_def)

section \<open>Properties of the repository\<close>

text \<open>
  C32. What a claim takes: at most \<open>batchSize\<close> rows, each once, all of them unlocked and \<open>PENDING\<close> or
  \<open>RETRYING\<close> before and \<open>PUBLISHING\<close> after, in the order of their creation; no unlocked eligible row
  that is older than a claimed one is left behind; every other row is untouched.
\<close>

theorem claim_fifo:
  assumes "distinct (map ob_id t)" "claimPending now locked n t = (es, t')"
  shows "length es \<le> n \<and> distinct (map ob_id es) \<and> sorted (map ob_createdAt es)
    \<and> (\<forall>e \<in> set es. \<exists>r \<in> set t. e = claim_row now r \<and> claimable locked r \<and> e \<in> set t')
    \<and> (\<forall>r \<in> set t. claimable locked r \<longrightarrow> ob_id r \<notin> ob_id ` set es \<longrightarrow> (\<forall>e \<in> set es. ob_createdAt e \<le> ob_createdAt r))
    \<and> (\<forall>r \<in> set t. ob_id r \<notin> ob_id ` set es \<longrightarrow> r \<in> set t')"
proof -
  let ?s = "sort_key ob_createdAt (filter (claimable locked) t)"
  have ids: "set (claim_ids locked n t) = ob_id ` set (take n ?s)" by (simp add: claim_ids_def)
  have t': "t' = tbl_upd (with_ids (claim_ids locked n t)) (claim_row now) t"
    using assms(2) by (auto simp: claimPending_eq Let_def)
  have es: "set es = claim_row now ` {r \<in> set t. ob_id r \<in> set (claim_ids locked n t)}"
    by (rule claimPending_set [OF assms(2)])
  have sub: "set (take n ?s) \<subseteq> {r \<in> set t. claimable locked r}" using set_take_subset [of n ?s] by auto
  have tk: "r \<in> set (take n ?s)" if inT: "r \<in> set t" and member: "ob_id r \<in> set (claim_ids locked n t)" for r
  proof -
    obtain q where "q \<in> set (take n ?s)" "ob_id q = ob_id r" using member ids by auto
    with sub inT distinct_key_eq [OF assms(1)] show ?thesis by blast
  qed
  have members: "\<forall>e \<in> set es. \<exists>r \<in> set t. e = claim_row now r \<and> claimable locked r \<and> e \<in> set t'"
    using es tk sub by (auto simp: t' set_tbl_upd with_ids_def)
  have eids: "ob_id ` set es = set (claim_ids locked n t)"
  proof -
    have "ob_id ` set es = ob_id ` {r \<in> set t. ob_id r \<in> set (claim_ids locked n t)}" by (simp add: es image_image)
    also have "\<dots> = set (claim_ids locked n t)" using claim_ids_set(1) [OF assms(1), of locked n] by auto
    finally show ?thesis .
  qed
  have fifo: "ob_createdAt e \<le> ob_createdAt r"
    if r: "r \<in> set t" "claimable locked r" "ob_id r \<notin> ob_id ` set es" and e: "e \<in> set es" for r e
  proof -
    have "r \<in> set ?s" using r by simp
    moreover have "r \<notin> set (take n ?s)" using r(3) eids ids by auto
    ultimately have rd: "r \<in> set (drop n ?s)" by (metis append_take_drop_id Un_iff set_append)
    obtain q where q: "q \<in> set t" "ob_id q \<in> set (claim_ids locked n t)" "e = claim_row now q" using e es by auto
    have "sorted (map ob_createdAt (take n ?s @ drop n ?s))" by simp
    then have "ob_createdAt q \<le> ob_createdAt r"
      using tk [OF q(1,2)] rd unfolding map_append sorted_append by auto
    with q(3) show ?thesis by simp
  qed
  have "sorted (map ob_createdAt es)" using assms(2) by (auto simp: claimPending_eq Let_def)
  moreover have "\<forall>r \<in> set t. ob_id r \<notin> ob_id ` set es \<longrightarrow> r \<in> set t'"
    using eids by (auto simp: t' set_tbl_upd with_ids_def)
  ultimately show ?thesis
    using claimPending_length [OF assms] members fifo by blast
qed

definition sample_table :: "outbox_event list" where
  "sample_table = [sample_row\<lparr>ob_id := ''e3'', ob_createdAt := 9\<rparr>, sample_row,
     sample_row\<lparr>ob_id := ''e2'', ob_status := O_PUBLISHED\<rparr>]"

lemma sample_row_simps [simp]:
  "ob_id sample_row = ''e1''" "ob_createdAt sample_row = 5" "ob_status sample_row = O_PENDING" "ob_retryCount sample_row = 0"
  by (simp_all add: sample_row_def OutboxEventEntity_create_def)

lemma sample_claim:
  "claimPending 20 {} 1 sample_table =
     ([claim_row 20 sample_row], [sample_row\<lparr>ob_id := ''e3'', ob_createdAt := 9\<rparr>, claim_row 20 sample_row,
        sample_row\<lparr>ob_id := ''e2'', ob_status := O_PUBLISHED\<rparr>])"
  by (simp add: claimPending_eq claim_ids_def sample_table_def claimable_def with_ids_def Let_def)

theorem claim_fifo_witness:
  "sorted (map ob_createdAt [claim_row 20 sample_row]) \<and> claimable {} sample_row"
  using claim_fifo [OF _ sample_claim] by (simp add: sample_table_def claimable_def)

text \<open>
  C33. How often a row may fail: starting from a fresh pending row, a failed attempt leaves it to be
  retried until the \<open>retryLimit\<close>-th one, which makes it \<open>FAILED\<close> for good; \<open>markFailedBatch\<close> and
  \<open>recoverStale\<close> both spend exactly one attempt of exactly the rows being published.
\<close>

theorem failures_bounded:
  assumes "\<forall>r \<in> set t. row_ok limit r" "distinct (map ob_id t)"
    and "ob_status e = O_PENDING" "ob_retryCount e = 0" "0 < limit"
  shows "(n < limit \<longrightarrow> ob_status ((fail_attempt limit ^^ n) e) \<in> {O_PENDING, O_RETRYING, O_PUBLISHING})
    \<and> ob_status ((fail_attempt limit ^^ limit) e) = O_FAILED
    \<and> markFailedBatch ids limit t = tbl_upd (\<lambda>r. with_ids ids r \<and> ob_status r = O_PUBLISHING) (fail_attempt limit) t
    \<and> recoverStale now locked st limit t = tbl_upd (stale locked now st) (fail_attempt limit) t"
proof -
  have f: "fail_attempt limit r = recover_row limit r" if "ob_status r = O_PUBLISHING" for r
  proof -
    have "r\<lparr>ob_status := O_PUBLISHING\<rparr> = r" using that by (cases r) simp
    then show ?thesis by (simp add: fail_attempt_def)
  qed
  have "markFailedBatch ids limit t = tbl_upd (\<lambda>r. with_ids ids r \<and> ob_status r = O_PUBLISHING) (fail_attempt limit) t"
    unfolding markFailedBatch_map [OF assms(1)] by (simp add: tbl_upd_def f)
  moreover have "recoverStale now locked st limit t = tbl_upd (stale locked now st) (fail_attempt limit) t"
    unfolding recoverStale_eq [OF assms(2)] by (simp add: tbl_upd_def f stale_def)
  ultimately show ?thesis
    using ob_budget.fails_live [of e "replicate n ()" limit] ob_budget.fails_dead [of e limit "replicate limit ()"] assms(3-5)
    by (simp add: fold_replicate)
qed

theorem failures_bounded_witness:
  "ob_status ((fail_attempt 3 ^^ 3) sample_row) = O_FAILED \<and>
   ob_status ((fail_attempt 3 ^^ 2) sample_row) \<in> {O_PENDING, O_RETRYING, O_PUBLISHING}"
  using failures_bounded [of "[]" 3 sample_row 2] by simp

end
