(* ===== verification/Relay.thy ===== *)
theory Relay
  imports OutboxRelay
begin

text \<open>
  The relay process: \<open>apps/outbox-relay/src/poller.ts\<close>, \<open>relay.service.ts\<close> and \<open>scheduler.ts\<close>.
  Several relay instances, numbered, work on one outbox table. A batch that has been claimed is in
  flight until its \<open>runPublish\<close> finishes; \<open>rs_sent\<close> collects the rows of the batches the broker has
  acknowledged. What an \<open>EventPublisher\<close> owes the relay is the locale \<open>event_publisher\<close>.
  Gauges and metrics are left out.
\<close>

section \<open>The publisher interface\<close>

locale event_publisher =
  fixes publish :: "outbox_event list \<Rightarrow> exn + publication list"
  assumes names_rows: "publish es = Inr ps \<Longrightarrow> p \<in> set ps \<Longrightarrow> \<exists>e \<in> set es. pb_id p = Some (JStr (ob_id e))"
begin

lemma only_batch_rows_published:
  assumes "publish es = Inr ps" "r \<in> set (markPublishedBatch now ps t)" "r \<notin> set t"
  shows "ob_id r \<in> ob_id ` set es"
proof -
  obtain q where q: "q \<in> set t" "publication_for ps q \<noteq> None" "r = published_row now (the (publication_for ps q)) q"
    using assms(2,3) by (auto simp: markPublishedBatch_eq set_tbl_upd split: if_splits)
  then obtain p where "publication_for ps q = Some p" by auto
  then have "p \<in> set ps" "pb_id p = Some (JStr (ob_id q))"
    using find_SomeD by (fastforce simp: publication_for_def)+
  then obtain e where "e \<in> set es" "ob_id e = ob_id q" using names_rows [OF assms(1), of p] by force
  then show ?thesis using q(3) by (auto intro: rev_image_eqI)
qed

end

interpretation kafka_pub: event_publisher "KafkaOutboxPublisher_publishBatch env sendBatch" for env sendBatch
  by unfold_locales (rule publishBatch_ids)

interpretation console_pub: event_publisher ConsoleEventPublisher_publishBatch
proof unfold_locales
  fix es ps p
  assume "ConsoleEventPublisher_publishBatch es = Inr ps" "p \<in> set ps"
  then show "\<exists>e \<in> set es. pb_id p = Some (JStr (ob_id e))"
    by (fastforce simp: ConsoleEventPublisher_publishBatch_def)
qed

section \<open>State\<close>

record relay_config =
  rl_staleTimeoutMs :: nat
  rl_retryLimit :: nat
  rl_batchSize :: nat
  rl_maxInFlight :: nat

record relay_state =
  rs_table :: "outbox_event list"
  rs_active :: "nat \<Rightarrow> nat"
  rs_batches :: "(nat \<times> outbox_event list) list"
  rs_sent :: "string set"

section \<open>One cycle\<close>

definition pollPending :: "nat \<Rightarrow> string set \<Rightarrow> nat \<Rightarrow> outbox_event list \<Rightarrow> outbox_event list \<times> outbox_event list" where
  "pollPending now locked batchSize t = claimPending now locked batchSize t"

text \<open>
  One round of the loop of relay \<open>i\<close>: \<open>None\<close> when it is left because of back-pressure or because
  nothing was claimed, otherwise the claimed events, now counted and in flight.
\<close>

definition relay_claim ::
  "relay_config \<Rightarrow> nat \<Rightarrow> nat \<Rightarrow> string set \<Rightarrow> relay_state \<Rightarrow> (relay_state \<times> outbox_event list) option" where
  "relay_claim cfg i now locked st =
     (if rl_maxInFlight cfg \<le> rs_active st i then None
      else let capacity = rl_maxInFlight cfg - rs_active st i;
               (events, t') = pollPending now locked (min (rl_batchSize cfg) capacity) (rs_table st)
           in if events = [] then None
              else Some (st\<lparr>rs_table := t', rs_active := (rs_active st)(i := rs_active st i + length events),
                            rs_batches := rs_batches st @ [(i, events)]\<rparr>, events))"

text \<open>
  Between two rounds the database is awaited, and batches may finish or other relays work:
  \<open>cy_between\<close> is what happens then. A poll that throws leaves the loop.
\<close>

record cycle_env =
  cy_now :: "nat \<Rightarrow> nat"
  cy_locked :: "nat \<Rightarrow> string set"
  cy_poll_fault :: "nat \<Rightarrow> bool"
  cy_between :: "nat \<Rightarrow> relay_state \<Rightarrow> relay_state"

fun spawn_loop ::
  "relay_config \<Rightarrow> nat \<Rightarrow> cycle_env \<Rightarrow> nat \<Rightarrow> relay_state \<Rightarrow> relay_state \<times> outbox_event list list" where
  "spawn_loop cfg i ce 0 st0 = (st0, [])"
| "spawn_loop cfg i ce (Suc n) st0 =
     (let st = cy_between ce n st0
      in if cy_poll_fault ce n then (st, [])
         else case relay_claim cfg i (cy_now ce n) (cy_locked ce n) st of
           None \<Rightarrow> (st, [])
         | Some (st', events) \<Rightarrow>
             if length events < min (rl_batchSize cfg) (rl_maxInFlight cfg - rs_active st i) then (st', [events])
             else (let (st'', bs) = spawn_loop cfg i ce n st' in (st'', events # bs)))"

definition maxBatchesPerCycle :: nat where "maxBatchesPerCycle = 10"

definition recover ::
  "relay_config \<Rightarrow> nat \<Rightarrow> string set \<Rightarrow> relay_state \<Rightarrow> relay_state" where
  "recover cfg now locked st =
     st\<lparr>rs_table := recoverStale now locked (rl_staleTimeoutMs cfg) (rl_retryLimit cfg) (rs_table st)\<rparr>"

definition processBatch ::
  "relay_config \<Rightarrow> nat \<Rightarrow> nat \<Rightarrow> string set \<Rightarrow> bool \<Rightarrow> cycle_env \<Rightarrow> relay_state \<Rightarrow> relay_state \<times> outbox_event list list" where
  "processBatch cfg i now locked stale_fault ce st =
     spawn_loop cfg i ce maxBatchesPerCycle (if stale_fault then st else recover cfg now locked st)"

text \<open>
  \<open>runPublish\<close> of one batch, its \<open>finally\<close> included. \<open>mark_fault\<close> and \<open>fail_fault\<close> are database errors of
  the two bulk transitions; an error of the second is only logged.
\<close>

definition runPublish ::
  "relay_config \<Rightarrow> nat \<Rightarrow> nat \<Rightarrow> (outbox_event list \<Rightarrow> exn + publication list) \<Rightarrow> exn option \<Rightarrow> bool \<Rightarrow>
   outbox_event list \<Rightarrow> relay_state \<Rightarrow> (exn + unit) \<times> relay_state" where
  "runPublish cfg i now publish mark_fault fail_fault events st =
     (let failed = (\<lambda>s. if fail_fault then s
             else s\<lparr>rs_table := markFailedBatch (map ob_id events) (rl_retryLimit cfg) (rs_table s)\<rparr>);
          release = (\<lambda>s. s\<lparr>rs_active := (rs_active s)(i := rs_active s i - length events)\<rparr>)
      in case publish events of
           Inl e \<Rightarrow> (Inl e, release (failed st))
         | Inr metadataList \<Rightarrow>
             (let st1 = st\<lparr>rs_sent := rs_sent st \<union> ob_id ` set events\<rparr>
              in case mark_fault of
                   Some e \<Rightarrow> (Inl e, release (failed st1))
                 | None \<Rightarrow> (Inr (), release (st1\<lparr>rs_table := markPublishedBatch now metadataList (rs_table st1)\<rparr>))))"

section \<open>All relays at work\<close>

text \<open>
  The payment service inserts fresh rows; relays recover, claim and finish in any order; a relay
  that crashes loses its batches and its counter.
\<close>

inductive relay_step :: "relay_config \<Rightarrow> relay_state \<Rightarrow> relay_state \<Rightarrow> bool" for cfg :: relay_config where
  Insert: "OutboxRepository_save ev (rs_table st) = Inr (m, t') \<Longrightarrow> ob_status ev = O_PENDING \<Longrightarrow>
     ob_retryCount ev = 0 \<Longrightarrow> relay_step cfg st (st\<lparr>rs_table := t'\<rparr>)"
| Recover: "relay_step cfg st (recover cfg now locked st)"
| Claim: "relay_claim cfg i now locked st = Some (st', events) \<Longrightarrow> relay_step cfg st st'"
| Finish: "rs_batches st = bs @ (i, events) # cs \<Longrightarrow>
     runPublish cfg i now (KafkaOutboxPublisher_publishBatch (env :: json producer_env) sendBatch)
       mark_fault fail_fault events (st\<lparr>rs_batches := bs @ cs\<rparr>) = (r, st') \<Longrightarrow> relay_step cfg st st'"
| Crash: "relay_step cfg st (st\<lparr>rs_batches := filter (\<lambda>b. fst b \<noteq> i) (rs_batches st), rs_active := (rs_active st)(i := 0)\<rparr>)"

inductive_cases relay_stepE: "relay_step cfg st st'"

definition batch_load :: "nat \<Rightarrow> (nat \<times> outbox_event list) list \<Rightarrow> nat" where
  "batch_load i bs = sum_list (map (\<lambda>b. length (snd b)) (filter (\<lambda>b. fst b = i) bs))"

definition table_ok :: "nat \<Rightarrow> string set \<Rightarrow> outbox_event list \<Rightarrow> bool" where
  "table_ok limit sent t \<longleftrightarrow> distinct (map ob_id t) \<and>
     (\<forall>r \<in> set t. row_ok limit r \<and> (ob_status r = O_PUBLISHED \<longrightarrow> ob_id r \<in> sent))"

definition load_ok :: "relay_config \<Rightarrow> relay_state \<Rightarrow> bool" where
  "load_ok cfg st \<longleftrightarrow> (\<forall>i. rs_active st i = batch_load i (rs_batches st)) \<and>
     (\<forall>i. batch_load i (rs_batches st) \<le> rl_maxInFlight cfg)"

definition relay_ok :: "relay_config \<Rightarrow> relay_state \<Rightarrow> bool" where
  "relay_ok cfg st \<longleftrightarrow> table_ok (rl_retryLimit cfg) (rs_sent st) (rs_table st) \<and> load_ok cfg st"

lemma batch_load_simps [simp]:
  "batch_load i [] = 0"
  "batch_load i (bs @ cs) = batch_load i bs + batch_load i cs"
  "batch_load i ((j, es) # bs) = (if j = i then length es else 0) + batch_load i bs"
  "batch_load i (filter (\<lambda>b. fst b \<noteq> j) bs) = (if i = j then 0 else batch_load i bs)"
  by (induction bs) (auto simp: batch_load_def)

subsection \<open>The table under each operation\<close>

lemma table_ok_upd:
  assumes "table_ok limit sent t" "\<And>r. r \<in> set t \<Longrightarrow> p r \<Longrightarrow> row_ok limit (f r)" "\<And>r. ob_id (f r) = ob_id r"
    and "\<And>r. r \<in> set t \<Longrightarrow> p r \<Longrightarrow> ob_status (f r) = O_PUBLISHED \<Longrightarrow> ob_id r \<in> sent'" "sent \<subseteq> sent'"
  shows "table_ok limit sent' (tbl_upd p f t)"
  using assms by (auto simp: table_ok_def map_tbl_upd set_tbl_upd)

lemma table_ok_insert:
  assumes "table_ok limit sent t" "OutboxRepository_save ev t = Inr (m, t')" "ob_status ev = O_PENDING"
    "ob_retryCount ev = 0" "0 < limit"
  shows "table_ok limit sent t'"
  using assms by (auto simp: table_ok_def OutboxRepository_save_Inr row_ok_def)

lemma table_ok_recover:
  assumes "table_ok limit sent t"
  shows "table_ok limit sent (recoverStale now locked st limit t)"
proof -
  have "distinct (map ob_id t)" using assms by (simp add: table_ok_def)
  then show ?thesis
    unfolding recoverStale_eq [OF \<open>distinct (map ob_id t)\<close>]
    by (intro table_ok_upd [OF assms])
       (use assms in \<open>auto simp: table_ok_def stale_def recover_row_ok, auto simp: recover_row_def Let_def split: if_splits\<close>)
qed

lemma table_ok_failed:
  assumes "table_ok limit sent t"
  shows "table_ok limit sent (markFailedBatch ids limit t)"
proof -
  have "\<forall>r \<in> set t. row_ok limit r" using assms by (simp add: table_ok_def)
  then show ?thesis
    unfolding markFailedBatch_map [OF \<open>\<forall>r \<in> set t. row_ok limit r\<close>]
    by (intro table_ok_upd [OF assms])
       (auto simp: recover_row_ok, auto simp: recover_row_def Let_def split: if_splits)
qed

lemma row_ok_published:
  "row_ok limit r \<Longrightarrow> ob_status r = O_PUBLISHING \<Longrightarrow> row_ok limit (published_row now p r)"
  by (auto simp: row_ok_def published_row_def)

lemma row_ok_claim: "row_ok limit r \<Longrightarrow> claimable locked r \<Longrightarrow> row_ok limit (claim_row now r)"
  by (auto simp: row_ok_def claim_row_def claimable_def)

lemma table_ok_published:
  assumes "table_ok limit sent t" "\<And>p. p \<in> set ps \<Longrightarrow> \<exists>e \<in> set es. pb_id p = Some (JStr (ob_id e))"
  shows "table_ok limit (sent \<union> ob_id ` set es) (markPublishedBatch now ps t)"
  unfolding markPublishedBatch_eq
proof (rule table_ok_upd [OF assms(1)])
  show "row_ok limit (published_row now (the (publication_for ps r)) r)"
    if "r \<in> set t" "ob_status r = O_PUBLISHING \<and> publication_for ps r \<noteq> None" for r
    using assms(1) that by (auto simp: table_ok_def row_ok_published)
  show "ob_id r \<in> sent \<union> ob_id ` set es"
    if marked: "ob_status r = O_PUBLISHING \<and> publication_for ps r \<noteq> None" for r
  proof -
    obtain p where "publication_for ps r = Some p" using marked by auto
    then have "p \<in> set ps" "pb_id p = Some (JStr (ob_id r))"
      using find_SomeD by (fastforce simp: publication_for_def)+
    then obtain e where "e \<in> set es" "ob_id e = ob_id r" using assms(2) by fastforce
    then show ?thesis by (auto intro: rev_image_eqI)
  qed
qed auto

lemma table_ok_claim:
  assumes "table_ok limit sent t" "claimPending now locked n t = (es, t')"
  shows "table_ok limit sent t'"
proof -
  have d: "distinct (map ob_id t)" using assms(1) by (simp add: table_ok_def)
  have t': "t' = tbl_upd (with_ids (claim_ids locked n t)) (claim_row now) t"
    using assms(2) by (auto simp: claimPending_eq Let_def)
  have "claimable locked r" if inT: "r \<in> set t" and chosen: "with_ids (claim_ids locked n t) r" for r
  proof -
    have "ob_id r \<in> ob_id ` {r \<in> set t. claimable locked r}"
      using chosen claim_ids_set(1) [OF d, of locked n] by (auto simp: with_ids_def)
    then obtain q where "q \<in> set t" "claimable locked q" "ob_id r = ob_id q" by blast
    with inT distinct_key_eq [OF d] show ?thesis by blast
  qed
  with assms(1) show ?thesis
    unfolding t' by (intro table_ok_upd [OF assms(1)]) (auto simp: table_ok_def dest: row_ok_claim)
qed

subsection \<open>The invariant\<close>

lemma relay_claim_SomeE:
  assumes "relay_claim cfg i now locked st = Some (st', events)"
  obtains t' where "rs_active st i < rl_maxInFlight cfg" "events \<noteq> []"
    "claimPending now locked (min (rl_batchSize cfg) (rl_maxInFlight cfg - rs_active st i)) (rs_table st) = (events, t')"
    "st' = st\<lparr>rs_table := t', rs_active := (rs_active st)(i := rs_active st i + length events),
              rs_batches := rs_batches st @ [(i, events)]\<rparr>"
  using assms by (auto simp: relay_claim_def pollPending_def split: if_splits prod.splits)

lemma relay_claim_ok:
  assumes "relay_ok cfg st" "relay_claim cfg i now locked st = Some (st', events)"
  shows "relay_ok cfg st'" and "length events \<le> min (rl_batchSize cfg) (rl_maxInFlight cfg - rs_active st i)"
proof -
  obtain t' where c: "rs_active st i < rl_maxInFlight cfg"
    "claimPending now locked (min (rl_batchSize cfg) (rl_maxInFlight cfg - rs_active st i)) (rs_table st) = (events, t')"
    "st' = st\<lparr>rs_table := t', rs_active := (rs_active st)(i := rs_active st i + length events),
              rs_batches := rs_batches st @ [(i, events)]\<rparr>"
    using relay_claim_SomeE [OF assms(2)] by blast
  have t: "table_ok (rl_retryLimit cfg) (rs_sent st) (rs_table st)" and l: "load_ok cfg st"
    using assms(1) by (simp_all add: relay_ok_def)
  show len: "length events \<le> min (rl_batchSize cfg) (rl_maxInFlight cfg - rs_active st i)"
    using claimPending_length(1) [OF _ c(2)] t by (simp add: table_ok_def)
  have "load_ok cfg st'" using l len c(1) by (auto simp: load_ok_def c(3))
  then show "relay_ok cfg st'" using table_ok_claim [OF t c(2)] by (simp add: relay_ok_def c(3))
qed

lemma runPublish_cases:
  assumes "runPublish cfg i now publish mark_fault fail_fault events st = (r, st')"
  shows "rs_batches st' = rs_batches st \<and> rs_active st' = (rs_active st)(i := rs_active st i - length events) \<and>
    (\<exists>sent. rs_sent st' = rs_sent st \<union> sent \<and>
       (rs_table st' = rs_table st \<or>
        rs_table st' = markFailedBatch (map ob_id events) (rl_retryLimit cfg) (rs_table st) \<or>
        (\<exists>ps. publish events = Inr ps \<and> sent = ob_id ` set events \<and>
           rs_table st' = markPublishedBatch now ps (rs_table st))))"
proof (cases "publish events")
  case (Inl e)
  then show ?thesis
    using assms by (intro conjI exI [of _ "{}"]) (auto simp: runPublish_def Let_def split: if_splits)
next
  case (Inr ps)
  show ?thesis
  proof (cases mark_fault)
    case None
    with Inr show ?thesis
      using assms by (intro conjI exI [of _ "ob_id ` set events"]) (auto simp: runPublish_def Let_def)
  next
    case (Some e)
    with Inr show ?thesis
      using assms by (intro conjI exI [of _ "ob_id ` set events"]) (auto simp: runPublish_def Let_def split: if_splits)
  qed
qed

lemma table_ok_mono: "table_ok limit sent t \<Longrightarrow> sent \<subseteq> sent' \<Longrightarrow> table_ok limit sent' t"
  by (auto simp: table_ok_def)

lemma runPublish_ok:
  assumes "event_publisher publish"
    and "table_ok (rl_retryLimit cfg) (rs_sent st) (rs_table st)"
    and "runPublish cfg i now publish mark_fault fail_fault events st = (r, st')"
  shows "table_ok (rl_retryLimit cfg) (rs_sent st') (rs_table st')"
proof -
  obtain sent where s: "rs_sent st' = rs_sent st \<union> sent" and
    t: "rs_table st' = rs_table st \<or> rs_table st' = markFailedBatch (map ob_id events) (rl_retryLimit cfg) (rs_table st) \<or>
        (\<exists>ps. publish events = Inr ps \<and> sent = ob_id ` set events \<and>
           rs_table st' = markPublishedBatch now ps (rs_table st))"
    using runPublish_cases [OF assms(3)] by blast
  have m: "table_ok (rl_retryLimit cfg) (rs_sent st') (rs_table st)" using table_ok_mono [OF assms(2)] s by simp
  from t show ?thesis
  proof (elim disjE exE conjE)
    fix ps
    assume "publish events = Inr ps" "sent = ob_id ` set events" "rs_table st' = markPublishedBatch now ps (rs_table st)"
    then show ?thesis
      using table_ok_published [OF assms(2), of ps events now] event_publisher.names_rows [OF assms(1)] s by auto
  qed (use m table_ok_failed [OF m] in auto)
qed

lemma relay_ok_step:
  assumes "relay_step cfg st st'" "relay_ok cfg st" "0 < rl_retryLimit cfg"
  shows "relay_ok cfg st'"
  using assms(1)
proof (cases rule: relay_step.cases)
  case (Insert ev m t')
  with assms(2,3) show ?thesis by (auto simp: relay_ok_def load_ok_def intro: table_ok_insert)
next
  case (Recover now locked)
  with assms(2) show ?thesis by (auto simp: relay_ok_def load_ok_def recover_def table_ok_recover)
next
  case (Claim i now locked events)
  with assms(2) relay_claim_ok show ?thesis by blast
next
  case (Finish bs i events cs now env sendBatch mark_fault fail_fault r)
  let ?st = "st\<lparr>rs_batches := bs @ cs\<rparr>"
  have "table_ok (rl_retryLimit cfg) (rs_sent st') (rs_table st')"
    using runPublish_ok [OF kafka_pub.event_publisher_axioms, of cfg ?st] Finish(2) assms(2) by (auto simp: relay_ok_def)
  moreover have "load_ok cfg st'"
  proof -
    have "rs_batches st' = bs @ cs" "rs_active st' = (rs_active st)(i := rs_active st i - length events)"
      using runPublish_cases [OF Finish(2)] by simp_all
    moreover have load: "batch_load j (rs_batches st) = (if i = j then length events else 0) + batch_load j (bs @ cs)" for j
      using Finish(1) by simp
    moreover have "rs_active st j = batch_load j (rs_batches st)" "batch_load j (rs_batches st) \<le> rl_maxInFlight cfg" for j
      using assms(2) by (simp_all add: relay_ok_def load_ok_def)
    moreover have "batch_load j (bs @ cs) \<le> rl_maxInFlight cfg" for j
    proof -
      have "batch_load j (bs @ cs) \<le> batch_load j (rs_batches st)" unfolding load by simp
      also have "\<dots> \<le> rl_maxInFlight cfg" using assms(2) by (simp add: relay_ok_def load_ok_def)
      finally show ?thesis .
    qed
    ultimately show ?thesis
      unfolding load_ok_def by (simp del: batch_load_simps)
  qed
  ultimately show ?thesis by (simp add: relay_ok_def)
next
  case (Crash i)
  with assms(2) show ?thesis by (auto simp: relay_ok_def load_ok_def)
qed

lemma relay_ok_reachable:
  "(relay_step cfg)\<^sup>*\<^sup>* st st' \<Longrightarrow> relay_ok cfg st \<Longrightarrow> 0 < rl_retryLimit cfg \<Longrightarrow> relay_ok cfg st'"
  by (induction rule: rtranclp_induct) (auto dest: relay_ok_step)

definition relay_init :: relay_state where
  "relay_init = \<lparr>rs_table = [], rs_active = (\<lambda>i. 0), rs_batches = [], rs_sent = {}\<rparr>"

lemma relay_ok_init: "relay_ok cfg relay_init"
  by (simp add: relay_ok_def relay_init_def table_ok_def load_ok_def)

section \<open>Properties of the relay\<close>

text \<open>
  C11. Whatever relays do, in whatever order, crashes and stale recoveries included: an event is
  \<open>PUBLISHED\<close> only after the broker has acknowledged a batch that contains it; it is \<open>FAILED\<close> only
  with all \<open>retryLimit\<close> attempts spent, and live only with some left; and no relay ever has more than
  \<open>maxInFlightMessages\<close> events in flight.
\<close>

theorem relay_invariant:
  assumes "(relay_step cfg)\<^sup>*\<^sup>* relay_init st" "0 < rl_retryLimit cfg"
  shows "(\<forall>r \<in> set (rs_table st).
            (ob_status r = O_PUBLISHED \<longrightarrow> ob_id r \<in> rs_sent st) \<and>
            (ob_status r = O_FAILED \<longrightarrow> ob_retryCount r = rl_retryLimit cfg) \<and>
            (ob_status r \<in> {O_PENDING, O_RETRYING, O_PUBLISHING} \<longrightarrow> ob_retryCount r < rl_retryLimit cfg))
       \<and> (\<forall>i. rs_active st i = batch_load i (rs_batches st) \<and> rs_active st i \<le> rl_maxInFlight cfg)"
  using relay_ok_reachable [OF assms(1) relay_ok_init assms(2)]
  by (auto simp: relay_ok_def table_ok_def load_ok_def row_ok_def)

definition sample_cfg :: relay_config where
  "sample_cfg = \<lparr>rl_staleTimeoutMs = 300000, rl_retryLimit = 3, rl_batchSize = 100, rl_maxInFlight = 1000\<rparr>"

definition saved_row :: outbox_event where
  "saved_row = sample_row\<lparr>ob_partition := None, ob_offset := None, ob_lastAttemptAt := None, ob_traceHeaders := Some []\<rparr>"

lemma saved_row_simps [simp]:
  "ob_id saved_row = ''e1''" "ob_status saved_row = O_PENDING" "ob_aggregateId saved_row = ''p1''"
  "ob_eventType saved_row = ''PaymentInitiated''"
  by (simp_all add: saved_row_def sample_row_def OutboxEventEntity_create_def)

definition claimed_state :: relay_state where
  "claimed_state = relay_init\<lparr>rs_table := [claim_row 10 saved_row], rs_active := (\<lambda>i. 0)(0 := 1),
     rs_batches := [(0, [claim_row 10 saved_row])]\<rparr>"

lemma claimed_reachable: "(relay_step sample_cfg)\<^sup>*\<^sup>* relay_init claimed_state"
proof -
  have "OutboxRepository_save sample_row (rs_table relay_init) = Inr (saved_row, [saved_row])"
    by (simp add: OutboxRepository_save_def relay_init_def Let_def saved_row_def sample_row_def OutboxEventEntity_create_def)
  then have s1: "relay_step sample_cfg relay_init (relay_init\<lparr>rs_table := [saved_row]\<rparr>)"
    by (rule relay_step.Insert) simp_all
  have s2: "relay_claim sample_cfg 0 10 {} (relay_init\<lparr>rs_table := [saved_row]\<rparr>) = Some (claimed_state, [claim_row 10 saved_row])"
    by (simp add: relay_claim_def sample_cfg_def relay_init_def pollPending_def claimPending_eq claim_ids_def
        claimable_def with_ids_def Let_def claimed_state_def)
  show ?thesis
    using s1 relay_step.Claim [OF s2] by (meson converse_rtranclp_into_rtranclp rtranclp.rtrancl_refl)
qed

theorem relay_invariant_witness:
  "\<exists>st :: relay_state. rs_active st 0 = 1 \<and> rs_active st 0 = batch_load 0 (rs_batches st) \<and> rs_active st 0 \<le> 1000"
proof -
  have "rs_active claimed_state 0 = batch_load 0 (rs_batches claimed_state) \<and>
      rs_active claimed_state 0 \<le> rl_maxInFlight sample_cfg"
    by (rule spec [OF conjunct2 [OF relay_invariant [OF claimed_reachable]]]) (simp add: sample_cfg_def)
  then show ?thesis by (intro exI [of _ claimed_state]) (simp add: sample_cfg_def claimed_state_def)
qed

text \<open>A published row is left alone by every operation of the relay.\<close>

lemma tbl_upd_keeps: "r \<in> set t \<Longrightarrow> \<not> p r \<Longrightarrow> r \<in> set (tbl_upd p f t)"
  by (auto simp: set_tbl_upd)

lemma published_kept_step:
  assumes "relay_step cfg st st'" "relay_ok cfg st" "r \<in> set (rs_table st)" "ob_status r = O_PUBLISHED"
  shows "r \<in> set (rs_table st')"
  using assms(1)
proof (cases rule: relay_step.cases)
  case (Insert ev m t')
  with assms(3) show ?thesis by (auto simp: OutboxRepository_save_Inr)
next
  case (Recover now locked)
  have "distinct (map ob_id (rs_table st))" using assms(2) by (simp add: relay_ok_def table_ok_def)
  with Recover assms(3,4) show ?thesis by (simp add: recover_def recoverStale_eq tbl_upd_keeps stale_def)
next
  case (Claim i now locked events)
  obtain t' where c: "claimPending now locked (min (rl_batchSize cfg) (rl_maxInFlight cfg - rs_active st i)) (rs_table st) = (events, t')"
      "rs_table st' = t'"
    using relay_claim_SomeE [OF Claim] by (metis relay_state.select_convs(1) relay_state.surjective relay_state.update_convs(1-3))
  have d: "distinct (map ob_id (rs_table st))" using assms(2) by (simp add: relay_ok_def table_ok_def)
  let ?n = "min (rl_batchSize cfg) (rl_maxInFlight cfg - rs_active st i)"
  have "rs_table st' = tbl_upd (with_ids (claim_ids locked ?n (rs_table st))) (claim_row now) (rs_table st)"
    using c by (simp add: claimPending_eq Let_def)
  moreover have "\<not> with_ids (claim_ids locked ?n (rs_table st)) r"
  proof
    assume "with_ids (claim_ids locked ?n (rs_table st)) r"
    then have "ob_id r \<in> ob_id ` {q \<in> set (rs_table st). claimable locked q}"
      using claim_ids_set(1) [OF d, of locked ?n] by (auto simp: with_ids_def)
    then obtain q where q: "q \<in> set (rs_table st)" "claimable locked q" "ob_id r = ob_id q" by blast
    then have "r = q" using distinct_key_eq [OF d assms(3)] by blast
    with q(2) assms(4) show False by (simp add: claimable_def)
  qed
  ultimately show ?thesis using tbl_upd_keeps [OF assms(3)] by metis
next
  case (Finish bs i events cs now env sendBatch mark_fault fail_fault r')
  have ro: "\<forall>r \<in> set (rs_table st). row_ok (rl_retryLimit cfg) r" using assms(2) by (simp add: relay_ok_def table_ok_def)
  from runPublish_cases [OF Finish(2)]
  have "rs_table st' = rs_table st \<or> rs_table st' = markFailedBatch (map ob_id events) (rl_retryLimit cfg) (rs_table st) \<or>
        (\<exists>ps. rs_table st' = markPublishedBatch now ps (rs_table st))" by auto
  then show ?thesis
    using assms(3,4) by (auto simp: markFailedBatch_map [OF ro] markPublishedBatch_eq tbl_upd_keeps)
next
  case (Crash i)
  with assms(3) show ?thesis by simp
qed

text \<open>
  \<open>PUBLISHED\<close> is final: once a row is published it stays in the table exactly as it is, its
  partition, offset and time included, through every later step of every relay.
\<close>

theorem published_final:
  assumes "(relay_step cfg)\<^sup>*\<^sup>* relay_init st" "0 < rl_retryLimit cfg"
    and "(relay_step cfg)\<^sup>*\<^sup>* st st'" "r \<in> set (rs_table st)" "ob_status r = O_PUBLISHED"
  shows "r \<in> set (rs_table st')"
  using assms(3)
proof (induction rule: rtranclp_induct)
  case base
  from assms(4) show ?case .
next
  case (step s s')
  have "(relay_step cfg)\<^sup>*\<^sup>* relay_init s" using assms(1) step.hyps(1) by (rule rtranclp_trans)
  then have "relay_ok cfg s" using relay_ok_reachable relay_ok_init assms(2) by blast
  with step published_kept_step assms(5) show ?case by blast
qed

lemma saved_row_published:
  "\<exists>ps p. KafkaOutboxPublisher_publishBatch plain_env ack_all [claim_row 10 saved_row] = Inr ps \<and>
      publication_for ps (claim_row 10 saved_row) = Some p"
proof -
  let ?e = "ob_payload (claim_row 10 saved_row)"
  have e: "?e = outbox_envelope ''e1'' ''t'' \<lparr>op_aggregateId = ''p1'', op_aggregateType = ''Payment'',
      op_eventType = ''PaymentInitiated'', op_payload = JObj [(''amount'', JNum (Fin 5))], op_requestId = ''r1'',
      op_correlationId = ''c1'', op_causationId = ''r1''\<rparr>"
    by (simp add: claim_row_def saved_row_def sample_row_def OutboxEventEntity_create_def)
  have v: "validateEnvelope (\<lambda>s. True) ?e = Inr ()" "e_version (as_envelope ?e) = Fin 1"
    unfolding e outbox_envelope_def
    by (simp_all add: validate_Inr_iff nonblank_def js_trim_def js_ws_def as_envelope_def jnumber_def)
  have it: "outbox_item (claim_row 10 saved_row) = Inr \<lparr>bi_topic = ''payments.initiated'', bi_key = ''p1'',
      bi_event = ?e, bi_headers = Some []\<rparr>"
    by (simp add: outbox_item_def payload_envelope_def event_topic_def TOPIC_REGISTRY_def e outbox_envelope_def)
       (simp add: claim_row_def saved_row_def sample_row_def OutboxEventEntity_create_def)
  have "\<exists>m. prepare_message plain_env \<lparr>bi_topic = ''payments.initiated'', bi_key = ''p1'', bi_event = ?e, bi_headers = Some []\<rparr> = Inr m"
    using v serialize_Inr [of "\<lambda>j. j" "\<lambda>s. True" ?e] by (simp add: prepare_message_def plain_env_def rbind_Inr_iff)
  then obtain m where m: "prepare_message plain_env \<lparr>bi_topic = ''payments.initiated'', bi_key = ''p1'', bi_event = ?e, bi_headers = Some []\<rparr> = Inr m"
    by blast
  then obtain ps where ps: "KafkaOutboxPublisher_publishBatch plain_env ack_all [claim_row 10 saved_row] = Inr ps" "length ps = 1"
    by (simp add: KafkaOutboxPublisher_publishBatch_def KafkaEventProducer_publishBatch_def it ack_all_def)
  then obtain p where "ps = [p]" by (cases ps) auto
  with ps(1) publishBatch_ids [OF ps(1), of p] show ?thesis by (simp add: publication_for_def)
qed

theorem published_final_witness:
  "\<exists>st st' :: relay_state. \<exists>r. relay_step sample_cfg st st' \<and> ob_status r = O_PUBLISHED \<and> r \<in> set (rs_table st) \<and> r \<in> set (rs_table st')"
proof -
  obtain ps p where ps: "KafkaOutboxPublisher_publishBatch plain_env ack_all [claim_row 10 saved_row] = Inr ps"
      "publication_for ps (claim_row 10 saved_row) = Some p" using saved_row_published by blast
  let ?pub = "published_row 11 p (claim_row 10 saved_row)"
  let ?st = "claimed_state\<lparr>rs_table := [?pub], rs_active := (\<lambda>i. 0), rs_batches := [], rs_sent := {''e1''}\<rparr>"
  have "runPublish sample_cfg 0 11 (KafkaOutboxPublisher_publishBatch plain_env ack_all) None False
      [claim_row 10 saved_row] (claimed_state\<lparr>rs_batches := [] @ []\<rparr>) = (Inr (), ?st)"
    by (simp add: runPublish_def ps markPublishedBatch_eq claimed_state_def relay_init_def Let_def fun_upd_idem)
  then have "relay_step sample_cfg claimed_state ?st"
    by (intro relay_step.Finish [where bs = "[]" and cs = "[]" and i = 0 and events = "[claim_row 10 saved_row]"])
       (simp_all add: claimed_state_def)
  with claimed_reachable have reach: "(relay_step sample_cfg)\<^sup>*\<^sup>* relay_init ?st" by simp
  have next_step: "relay_step sample_cfg ?st (recover sample_cfg 99 {} ?st)" by (rule relay_step.Recover)
  have "?pub \<in> set (rs_table (recover sample_cfg 99 {} ?st))"
    by (rule published_final [OF reach]) (use next_step in \<open>auto simp: sample_cfg_def\<close>)
  then show ?thesis
    using next_step by (intro exI [of _ ?st] exI [of _ "recover sample_cfg 99 {} ?st"] exI [of _ ?pub]) simp
qed

lemma spawn_loop_batches:
  assumes "\<And>n st. relay_ok cfg st \<Longrightarrow> relay_ok cfg (cy_between ce n st)" "relay_ok cfg st"
  shows "relay_ok cfg (fst (spawn_loop cfg i ce n st)) \<and> length (snd (spawn_loop cfg i ce n st)) \<le> n \<and>
    (\<forall>b \<in> set (snd (spawn_loop cfg i ce n st)). b \<noteq> [] \<and> length b \<le> rl_batchSize cfg)"
  using assms(2)
proof (induction n arbitrary: st)
  case 0
  then show ?case by simp
next
  case (Suc n)
  let ?st = "cy_between ce n st"
  have ok: "relay_ok cfg ?st" using assms(1) Suc.prems .
  show ?case
  proof (cases "cy_poll_fault ce n \<or> relay_claim cfg i (cy_now ce n) (cy_locked ce n) ?st = None")
    case True
    with ok show ?thesis by (auto simp: Let_def split: option.split)
  next
    case False
    then obtain st' es where c: "relay_claim cfg i (cy_now ce n) (cy_locked ce n) ?st = Some (st', es)" by auto
    have ne: "es \<noteq> []" using relay_claim_SomeE [OF c] by blast
    have len: "length es \<le> rl_batchSize cfg" and ok': "relay_ok cfg st'" using relay_claim_ok [OF ok c] by auto
    show ?thesis
      using False c ne len ok' Suc.IH [OF ok'] by (auto simp: Let_def split: prod.splits)
  qed
qed

text \<open>
  One cycle: whatever happens between its rounds, as long as that never pushes the relay beyond
  its capacity, the loop claims at most ten batches, none of them empty or larger than \<open>batchSize\<close>,
  and ends with the relay within its capacity.
\<close>

theorem cycle_bounded:
  assumes "relay_ok cfg st" "\<And>n s. relay_ok cfg s \<Longrightarrow> relay_ok cfg (cy_between ce n s)"
    and "processBatch cfg i now locked stale_fault ce st = (st', batches)"
  shows "length batches \<le> 10 \<and> (\<forall>b \<in> set batches. b \<noteq> [] \<and> length b \<le> rl_batchSize cfg)
    \<and> rs_active st' i \<le> rl_maxInFlight cfg"
proof -
  have "relay_ok cfg (recover cfg now locked st)"
    using assms(1) by (auto simp: relay_ok_def load_ok_def recover_def table_ok_recover)
  with assms(1) have "relay_ok cfg (if stale_fault then st else recover cfg now locked st)" by simp
  from spawn_loop_batches [OF assms(2) this, of i 10] assms(3)
  show ?thesis by (auto simp: processBatch_def maxBatchesPerCycle_def relay_ok_def load_ok_def)
qed

theorem cycle_bounded_witness:
  "length (snd (processBatch sample_cfg 0 5 {} False
     \<lparr>cy_now = (\<lambda>n. 6), cy_locked = (\<lambda>n. {}), cy_poll_fault = (\<lambda>n. False), cy_between = (\<lambda>n s. s)\<rparr> relay_init)) \<le> 10"
  using cycle_bounded [OF relay_ok_init, of sample_cfg
      "\<lparr>cy_now = (\<lambda>n. 6), cy_locked = (\<lambda>n. {}), cy_poll_fault = (\<lambda>n. False), cy_between = (\<lambda>n s. s)\<rparr>" 0 5 "{}" False]
  by (cases "processBatch sample_cfg 0 5 {} False
     \<lparr>cy_now = (\<lambda>n. 6), cy_locked = (\<lambda>n. {}), cy_poll_fault = (\<lambda>n. False), cy_between = (\<lambda>n s. s)\<rparr> relay_init") simp

text \<open>
  C39. Nothing stays claimed for ever: after a crash, the first recovery that runs once the stale
  timeout is over, on a row no other transaction holds, makes the row \<open>RETRYING\<close> if it has attempts
  left and \<open>FAILED\<close> if not; rows that are not stale are untouched.
\<close>

theorem stale_recovered:
  assumes "distinct (map ob_id (rs_table st))" "r \<in> set (rs_table st)"
  shows "(stale locked now (rl_staleTimeoutMs cfg) r \<longrightarrow>
            recover_row (rl_retryLimit cfg) r \<in> set (rs_table (recover cfg now locked st)) \<and>
            (ob_status (recover_row (rl_retryLimit cfg) r) = O_RETRYING \<longleftrightarrow> ob_retryCount r + 1 < rl_retryLimit cfg) \<and>
            (ob_status (recover_row (rl_retryLimit cfg) r) = O_FAILED \<longleftrightarrow> rl_retryLimit cfg \<le> ob_retryCount r + 1))
       \<and> (\<not> stale locked now (rl_staleTimeoutMs cfg) r \<longrightarrow> r \<in> set (rs_table (recover cfg now locked st)))"
  using assms(2) by (auto simp: recover_def recoverStale_eq [OF assms(1)] set_tbl_upd recover_row_def Let_def)

theorem stale_recovered_witness:
  "recover_row 3 (claim_row 10 saved_row) \<in> set (rs_table (recover sample_cfg 400000 {} claimed_state))
   \<and> ob_status (recover_row 3 (claim_row 10 saved_row)) = O_RETRYING"
proof -
  have "stale {} 400000 (rl_staleTimeoutMs sample_cfg) (claim_row 10 saved_row)"
    by (simp add: stale_def sample_cfg_def claim_row_def saved_row_def sample_row_def OutboxEventEntity_create_def)
  moreover have "ob_retryCount (claim_row 10 saved_row) = 0" by (simp add: saved_row_def)
  ultimately show ?thesis
    using stale_recovered [of claimed_state "claim_row 10 saved_row" "{}" 400000 sample_cfg]
    by (simp add: claimed_state_def sample_cfg_def)
qed

text \<open>
  The cost of one bad row: when a batch holds an event the publisher cannot turn into a message,
  the whole batch fails before the broker is asked; every row of the batch that is still being
  published, the good ones too, loses one of its attempts, and nothing counts as sent.
\<close>

theorem poison_costs_every_row:
  assumes "e \<in> set events" "\<exists>x. outbox_item e = Inl x"
    and "\<forall>r \<in> set (rs_table st). row_ok (rl_retryLimit cfg) r"
  shows "\<exists>x. runPublish cfg i now (KafkaOutboxPublisher_publishBatch env sendBatch) mark_fault False events st =
     (Inl x, st\<lparr>rs_table := tbl_upd (\<lambda>r. ob_id r \<in> ob_id ` set events \<and> ob_status r = O_PUBLISHING)
                              (recover_row (rl_retryLimit cfg)) (rs_table st),
                rs_active := (rs_active st)(i := rs_active st i - length events)\<rparr>)"
proof -
  obtain x where "KafkaOutboxPublisher_publishBatch env sendBatch events = Inl x"
    using poison_batch [OF assms(1)] assms(2) by blast
  then show ?thesis by (simp add: runPublish_def Let_def markFailedBatch_map [OF assms(3)] with_ids_def)
qed

theorem poison_costs_every_row_witness:
  "\<exists>x st' :: relay_state. runPublish sample_cfg 0 11 (KafkaOutboxPublisher_publishBatch plain_env ack_all) None False
       [claim_row 10 saved_row, saved_row\<lparr>ob_id := ''bad'', ob_payload := JNull\<rparr>] claimed_state = (Inl x, st')
     \<and> map ob_retryCount (rs_table st') = [1]"
proof -
  have "\<exists>x. runPublish sample_cfg 0 11 (KafkaOutboxPublisher_publishBatch plain_env ack_all) None False
       [claim_row 10 saved_row, saved_row\<lparr>ob_id := ''bad'', ob_payload := JNull\<rparr>] claimed_state =
     (Inl x, claimed_state\<lparr>rs_table := tbl_upd (\<lambda>r. ob_id r \<in> ob_id ` set [claim_row 10 saved_row, saved_row\<lparr>ob_id := ''bad'', ob_payload := JNull\<rparr>] \<and> ob_status r = O_PUBLISHING)
                              (recover_row (rl_retryLimit sample_cfg)) (rs_table claimed_state),
                rs_active := (rs_active claimed_state)(0 := rs_active claimed_state 0
                   - length [claim_row 10 saved_row, saved_row\<lparr>ob_id := ''bad'', ob_payload := JNull\<rparr>])\<rparr>)"
    by (rule poison_costs_every_row [of "saved_row\<lparr>ob_id := ''bad'', ob_payload := JNull\<rparr>"])
       (simp_all add: outbox_item_def payload_envelope_def claimed_state_def row_ok_def sample_cfg_def saved_row_def)
  then show ?thesis by (auto simp: claimed_state_def saved_row_def)
qed

end
