(* ===== verification/Scheduler.thy ===== *)
theory Scheduler
  imports Prelude
begin

text \<open>
  The polling loop of the relay, \<open>apps/outbox-relay/src/scheduler.ts\<close>: a timer that arms itself again
  after each cycle. Timers are numbered in the order they are armed; \<open>sd_timeoutId\<close> is the one the
  service remembers, and \<open>sd_cycles\<close> counts the calls of \<open>processBatch\<close> that have not returned.
\<close>

record scheduler =
  sd_isRunning :: bool
  sd_isPolling :: bool
  sd_timeoutId :: "nat option"
  sd_timers :: "nat list"
  sd_next :: nat
  sd_cycles :: nat

definition scheduler_init :: scheduler where
  "scheduler_init = \<lparr>sd_isRunning = False, sd_isPolling = False, sd_timeoutId = None, sd_timers = [],
     sd_next = 0, sd_cycles = 0\<rparr>"

definition scheduleNextPoll :: "scheduler \<Rightarrow> scheduler" where
  "scheduleNextPoll s =
     (if \<not> sd_isRunning s then s
      else s\<lparr>sd_timeoutId := Some (sd_next s), sd_timers := sd_timers s @ [sd_next s], sd_next := sd_next s + 1\<rparr>)"

definition onApplicationBootstrap :: "scheduler \<Rightarrow> scheduler" where
  "onApplicationBootstrap s = scheduleNextPoll (s\<lparr>sd_isRunning := True\<rparr>)"

definition onApplicationShutdown :: "scheduler \<Rightarrow> scheduler" where
  "onApplicationShutdown s =
     (let s' = s\<lparr>sd_isRunning := False\<rparr>
      in case sd_timeoutId s of None \<Rightarrow> s' | Some t \<Rightarrow> s'\<lparr>sd_timers := removeAll t (sd_timers s)\<rparr>)"

text \<open>The callback of a timer, up to the call of \<open>processBatch\<close>, and what follows its return or throw.\<close>

definition timer_fires :: "nat \<Rightarrow> scheduler \<Rightarrow> scheduler" where
  "timer_fires t s =
     (let s = s\<lparr>sd_timers := removeAll t (sd_timers s)\<rparr>
      in if \<not> sd_isRunning s then s
         else if sd_isPolling s then scheduleNextPoll s
         else s\<lparr>sd_isPolling := True, sd_cycles := sd_cycles s + 1\<rparr>)"

definition cycle_ends :: "scheduler \<Rightarrow> scheduler" where
  "cycle_ends s = scheduleNextPoll (s\<lparr>sd_isPolling := False, sd_cycles := sd_cycles s - 1\<rparr>)"

inductive sched_step :: "scheduler \<Rightarrow> scheduler \<Rightarrow> bool" where
  Fire: "t \<in> set (sd_timers s) \<Longrightarrow> sched_step s (timer_fires t s)"
| End: "0 < sd_cycles s \<Longrightarrow> sched_step s (cycle_ends s)"
| Shutdown: "sched_step s (onApplicationShutdown s)"

inductive_cases sched_stepE: "sched_step s s'"

lemmas scheduler_defs = timer_fires_def cycle_ends_def onApplicationShutdown_def onApplicationBootstrap_def
  scheduleNextPoll_def Let_def

text \<open>With one bootstrap there is one chain of timers and cycles, alive as long as the service runs.\<close>

definition sched_ok :: "scheduler \<Rightarrow> bool" where
  "sched_ok s \<longleftrightarrow>
     (if sd_isRunning s then length (sd_timers s) + sd_cycles s = 1 else length (sd_timers s) + sd_cycles s \<le> 1) \<and>
     (sd_isPolling s \<longleftrightarrow> sd_cycles s = 1) \<and>
     (\<forall>t. sd_timers s = [t] \<longrightarrow> sd_timeoutId s = Some t)"

lemma sched_ok_bootstrap: "sched_ok (onApplicationBootstrap scheduler_init)"
  by (simp add: sched_ok_def scheduler_defs scheduler_init_def)

lemma sched_ok_step:
  assumes "sched_step s s'" "sched_ok s"
  shows "sched_ok s'"
  using assms(1)
proof (cases rule: sched_step.cases)
  case (Fire t)
  then obtain ts where "sd_timers s = [t] \<and> sd_cycles s = 0"
    using assms(2) by (cases "sd_timers s") (auto simp: sched_ok_def split: if_splits)
  with Fire assms(2) show ?thesis by (auto simp: sched_ok_def scheduler_defs)
next
  case End
  then have "sd_timers s = [] \<and> sd_cycles s = 1"
    using assms(2) by (cases "sd_timers s") (auto simp: sched_ok_def split: if_splits)
  with End assms(2) show ?thesis by (auto simp: sched_ok_def scheduler_defs)
next
  case Shutdown
  consider "sd_timers s = []" | t where "sd_timers s = [t]" "sd_timeoutId s = Some t" "sd_cycles s = 0"
    using assms(2) by (cases "sd_timers s") (auto simp: sched_ok_def split: if_splits)
  then show ?thesis
  proof cases
    case 1
    with Shutdown assms(2) show ?thesis
      by (auto simp: sched_ok_def onApplicationShutdown_def Let_def split: option.split if_splits)
  next
    case 2
    with Shutdown assms(2) show ?thesis by (auto simp: sched_ok_def onApplicationShutdown_def Let_def)
  qed
qed

lemma stopped_step: "sched_step s s' \<Longrightarrow> \<not> sd_isRunning s \<Longrightarrow> \<not> sd_isRunning s' \<and> sd_cycles s' \<le> sd_cycles s"
  by (erule sched_stepE) (auto simp: scheduler_defs split: option.splits)

section \<open>Properties\<close>

text \<open>
  C35. The scheduler neither overlaps nor stalls: after the bootstrap, while the service runs there is
  always exactly one armed timer or one running cycle, never both and never two; and once it has
  been shut down no further cycle is ever started.
\<close>

theorem scheduler_single_chain:
  assumes "sched_step\<^sup>*\<^sup>* (onApplicationBootstrap scheduler_init) s"
  shows "(sd_isRunning s \<longrightarrow> length (sd_timers s) + sd_cycles s = 1) \<and> sd_cycles s \<le> 1
    \<and> (\<not> sd_isRunning s \<longrightarrow> (\<forall>s'. sched_step\<^sup>*\<^sup>* s s' \<longrightarrow> \<not> sd_isRunning s' \<and> sd_cycles s' \<le> sd_cycles s))"
proof -
  have "sched_ok s"
    using assms by (induction rule: rtranclp_induct) (auto simp: sched_ok_bootstrap dest: sched_ok_step)
  moreover have "\<not> sd_isRunning s' \<and> sd_cycles s' \<le> sd_cycles s" if "sched_step\<^sup>*\<^sup>* s s'" "\<not> sd_isRunning s" for s'
    using that by (induction rule: rtranclp_induct) (use stopped_step in fastforce)+
  ultimately show ?thesis by (auto simp: sched_ok_def split: if_splits)
qed

theorem scheduler_single_chain_witness:
  "length (sd_timers (timer_fires 0 (onApplicationBootstrap scheduler_init)))
   + sd_cycles (timer_fires 0 (onApplicationBootstrap scheduler_init)) = 1"
proof -
  have "sched_step (onApplicationBootstrap scheduler_init) (timer_fires 0 (onApplicationBootstrap scheduler_init))"
    by (rule sched_step.Fire) (simp add: scheduler_defs scheduler_init_def)
  then have "sched_step\<^sup>*\<^sup>* (onApplicationBootstrap scheduler_init) (timer_fires 0 (onApplicationBootstrap scheduler_init))"
    by blast
  from scheduler_single_chain [OF this] show ?thesis by (simp add: scheduler_defs scheduler_init_def)
qed

end
