(* ===== verification/Inbox.thy ===== *)
theory Inbox
  imports Serializer PaymentDomain
begin

text \<open>
  The consumer's inbox, \<open>packages/common/src/messaging/inbox.repository.ts\<close>, over the \<open>InboxEvent\<close>
  table of \<open>order.prisma\<close>, whose unique key is the pair of consumer and event id. The envelope's
  timestamp is kept as the text it was sent as.
\<close>

section \<open>Rows\<close>

datatype InboxStatus = I_RECEIVED | I_PROCESSING | I_PROCESSED | I_FAILED | I_RETRYING | I_DLQ_SENT

record inbox_event =
  ib_id :: string
  ib_eventId :: string
  ib_consumer :: string
  ib_status :: InboxStatus
  ib_payload :: json
  ib_receivedAt :: nat
  ib_processedAt :: "nat option"
  ib_retryCount :: nat
  ib_eventType :: string
  ib_correlationId :: string
  ib_causationId :: string
  ib_sagaId :: string
  ib_timestamp :: string
  ib_version :: jsnum

type_synonym inbox = "inbox_event list"

definition ib_key :: "inbox_event \<Rightarrow> string \<times> string" where
  "ib_key r = (ib_consumer r, ib_eventId r)"

lemma ib_key_update [simp]:
  "ib_key (r\<lparr>ib_status := s\<rparr>) = ib_key r" "ib_key (r\<lparr>ib_processedAt := p\<rparr>) = ib_key r"
  "ib_key (r\<lparr>ib_retryCount := n\<rparr>) = ib_key r"
  by (simp_all add: ib_key_def)

section \<open>The repository\<close>

definition recordReceived :: "string \<Rightarrow> nat \<Rightarrow> envelope \<Rightarrow> string \<Rightarrow> inbox \<Rightarrow> exn + inbox_event \<times> inbox" where
  "recordReceived uuid now e consumer t =
     (if find (\<lambda>r. ib_key r = (consumer, e_eventId e)) t \<noteq> None then Inl P2002
      else let r = \<lparr>ib_id = uuid, ib_eventId = e_eventId e, ib_consumer = consumer, ib_status = I_RECEIVED,
               ib_payload = e_payload e, ib_receivedAt = now, ib_processedAt = None, ib_retryCount = 0,
               ib_eventType = e_eventType e, ib_correlationId = e_correlationId e, ib_causationId = e_causationId e,
               ib_sagaId = e_sagaId e, ib_timestamp = e_timestamp e, ib_version = e_version e\<rparr>
           in Inr (r, t @ [r]))"

definition findByEventIdAndConsumer :: "string \<Rightarrow> string \<Rightarrow> inbox \<Rightarrow> inbox_event option" where
  "findByEventIdAndConsumer eventId consumer t = find (\<lambda>r. ib_key r = (consumer, eventId)) t"

definition transitionStatus ::
  "string \<Rightarrow> string \<Rightarrow> InboxStatus list \<Rightarrow> InboxStatus \<Rightarrow> inbox \<Rightarrow> inbox_event option \<times> inbox" where
  "transitionStatus eventId consumer fromStatus toStatus t =
     (let p = (\<lambda>r. ib_key r = (consumer, eventId) \<and> ib_status r \<in> set fromStatus);
          t' = tbl_upd p (\<lambda>r. r\<lparr>ib_status := toStatus\<rparr>) t
      in if tbl_count p t = 0 then (None, t') else (findByEventIdAndConsumer eventId consumer t', t'))"

definition updateStatus ::
  "nat \<Rightarrow> string \<Rightarrow> string \<Rightarrow> InboxStatus \<Rightarrow> nat option \<Rightarrow> inbox \<Rightarrow> exn + inbox_event \<times> inbox" where
  "updateStatus now eventId consumer status retryCount t =
     (case find (\<lambda>r. ib_key r = (consumer, eventId)) t of
        None \<Rightarrow> Inl P2025
      | Some r \<Rightarrow>
          let f = (\<lambda>r. r\<lparr>ib_status := status,
                         ib_processedAt := (if status = I_PROCESSED then Some now else ib_processedAt r),
                         ib_retryCount := (case retryCount of Some n \<Rightarrow> n | None \<Rightarrow> ib_retryCount r)\<rparr>)
          in Inr (f r, tbl_upd (\<lambda>r. ib_key r = (consumer, eventId)) f t))"

definition prepareForReplay :: "string \<Rightarrow> string \<Rightarrow> inbox \<Rightarrow> bool \<times> inbox" where
  "prepareForReplay eventId consumer t =
     (let p = (\<lambda>r. ib_key r = (consumer, eventId) \<and> ib_status r = I_DLQ_SENT)
      in (0 < tbl_count p t, tbl_upd p (\<lambda>r. r\<lparr>ib_status := I_RETRYING, ib_retryCount := 0\<rparr>) t))"

definition countDlqDepth :: "string \<Rightarrow> inbox \<Rightarrow> nat" where
  "countDlqDepth consumer = tbl_count (\<lambda>r. ib_consumer r = consumer \<and> ib_status r = I_DLQ_SENT)"

section \<open>Lemmas\<close>

text \<open>The state of one event for one consumer: its status and retry count, if it is known.\<close>

definition entry :: "string \<Rightarrow> string \<Rightarrow> inbox \<Rightarrow> (InboxStatus \<times> nat) option" where
  "entry eventId consumer t =
     map_option (\<lambda>r. (ib_status r, ib_retryCount r)) (findByEventIdAndConsumer eventId consumer t)"

lemma find_upd_key:
  assumes "\<And>r. ib_key (f r) = ib_key r"
  shows "find (\<lambda>r. ib_key r = k) (tbl_upd p f t) =
         map_option (\<lambda>r. if p r then f r else r) (find (\<lambda>r. ib_key r = k) t)"
  using find_tbl_upd [of ib_key f k p t, OF assms] by simp

lemma tbl_count_pos:
  assumes "distinct (map k t)"
  shows "tbl_count (\<lambda>r. k r = x \<and> q r) t = 0 \<longleftrightarrow>
         \<not> (\<exists>r. find (\<lambda>r. k r = x) t = Some r \<and> q r)"
proof -
  have "tbl_count (\<lambda>r. k r = x \<and> q r) t = 0 \<longleftrightarrow> (\<forall>r \<in> set t. k r = x \<longrightarrow> \<not> q r)"
    by (auto simp: tbl_count_def filter_empty_conv)
  also have "\<dots> \<longleftrightarrow> \<not> (\<exists>r. find (\<lambda>r. k r = x) t = Some r \<and> q r)"
    using find_key_unique [OF assms] find_SomeD by fastforce
  finally show ?thesis .
qed

abbreviation inbox_ok :: "inbox \<Rightarrow> bool" where
  "inbox_ok t \<equiv> distinct (map ib_key t)"

lemma recordReceived_spec:
  "case recordReceived uuid now e c t of
     Inl x \<Rightarrow> x = P2002 \<and> entry (e_eventId e) c t \<noteq> None
   | Inr (r, t') \<Rightarrow> entry (e_eventId e) c t = None \<and> entry (e_eventId e) c t' = Some (I_RECEIVED, 0) \<and>
       (inbox_ok t \<longrightarrow> inbox_ok t')"
proof (cases "find (\<lambda>r. ib_key r = (c, e_eventId e)) t")
  case None
  then have "(c, e_eventId e) \<notin> ib_key ` set t" by (simp add: find_key_None)
  with None show ?thesis
    by (simp add: recordReceived_def entry_def findByEventIdAndConsumer_def Let_def find_append)
       (simp add: ib_key_def)
next
  case (Some r)
  then show ?thesis by (simp add: recordReceived_def entry_def findByEventIdAndConsumer_def)
qed

lemma transitionStatus_spec:
  assumes "inbox_ok t" "transitionStatus i c from to t = (res, t')"
  shows "inbox_ok t' \<and> (res = None \<longleftrightarrow> (\<forall>s n. entry i c t = Some (s, n) \<longrightarrow> s \<notin> set from))
    \<and> entry i c t' = map_option (\<lambda>(s, n). (if s \<in> set from then to else s, n)) (entry i c t)"
proof -
  let ?p = "\<lambda>r. ib_key r = (c, i) \<and> ib_status r \<in> set from"
  have t': "t' = tbl_upd ?p (\<lambda>r. r\<lparr>ib_status := to\<rparr>) t"
    using assms(2) by (auto simp: transitionStatus_def Let_def split: if_splits)
  have f: "findByEventIdAndConsumer i c t' = map_option (\<lambda>r. if ?p r then r\<lparr>ib_status := to\<rparr> else r) (findByEventIdAndConsumer i c t)"
    unfolding t' findByEventIdAndConsumer_def by (rule find_upd_key) simp
  have key: "findByEventIdAndConsumer i c t = Some r \<Longrightarrow> ib_key r = (c, i)" for r
    by (auto simp: findByEventIdAndConsumer_def dest: find_SomeD)
  have cnt: "tbl_count ?p t = 0 \<longleftrightarrow> \<not> (\<exists>r. findByEventIdAndConsumer i c t = Some r \<and> ib_status r \<in> set from)"
    unfolding findByEventIdAndConsumer_def by (rule tbl_count_pos [OF assms(1)])
  have "res = (if tbl_count ?p t = 0 then None else findByEventIdAndConsumer i c t')"
    using assms(2) t' by (auto simp: transitionStatus_def Let_def split: if_splits)
  moreover have "inbox_ok t'" using assms(1) by (simp add: t' map_tbl_upd)
  ultimately show ?thesis
    using f cnt key by (cases "findByEventIdAndConsumer i c t") (auto simp: entry_def)
qed

lemma updateStatus_spec:
  "case updateStatus now i c s rc t of
     Inl x \<Rightarrow> entry i c t = None
   | Inr (r, t') \<Rightarrow> (inbox_ok t \<longrightarrow> inbox_ok t') \<and>
       (\<exists>s0 n. entry i c t = Some (s0, n) \<and> entry i c t' = Some (s, case rc of Some m \<Rightarrow> m | None \<Rightarrow> n))"
proof (cases "find (\<lambda>r. ib_key r = (c, i)) t")
  case None
  then show ?thesis by (simp add: updateStatus_def entry_def findByEventIdAndConsumer_def)
next
  case (Some r)
  then have "ib_key r = (c, i)" by (auto dest: find_SomeD)
  with Some show ?thesis
    by (simp add: updateStatus_def entry_def findByEventIdAndConsumer_def Let_def find_upd_key map_tbl_upd split: option.split)
qed

lemma prepareForReplay_spec:
  assumes "inbox_ok t" "prepareForReplay i c t = (ok, t')"
  shows "(ok \<longleftrightarrow> (\<exists>n. entry i c t = Some (I_DLQ_SENT, n)))
    \<and> entry i c t' = (if ok then Some (I_RETRYING, 0) else entry i c t)"
proof -
  let ?p = "\<lambda>r. ib_key r = (c, i) \<and> ib_status r = I_DLQ_SENT"
  have t': "t' = tbl_upd ?p (\<lambda>r. r\<lparr>ib_status := I_RETRYING, ib_retryCount := 0\<rparr>) t" and ok: "ok \<longleftrightarrow> 0 < tbl_count ?p t"
    using assms(2) by (auto simp: prepareForReplay_def Let_def)
  have cnt: "tbl_count ?p t = 0 \<longleftrightarrow> \<not> (\<exists>r. findByEventIdAndConsumer i c t = Some r \<and> ib_status r = I_DLQ_SENT)"
    unfolding findByEventIdAndConsumer_def by (rule tbl_count_pos [OF assms(1)])
  have key: "findByEventIdAndConsumer i c t = Some r \<Longrightarrow> ib_key r = (c, i)" for r
    by (auto simp: findByEventIdAndConsumer_def dest: find_SomeD)
  have "findByEventIdAndConsumer i c t' = map_option (\<lambda>r. if ?p r then r\<lparr>ib_status := I_RETRYING, ib_retryCount := 0\<rparr> else r)
        (findByEventIdAndConsumer i c t)"
    unfolding t' findByEventIdAndConsumer_def by (rule find_upd_key) simp
  then show ?thesis
    using ok cnt key by (cases "findByEventIdAndConsumer i c t") (auto simp: entry_def)
qed

end
