(* ===== verification/Consumer.thy ===== *)
theory Consumer
  imports Inbox OutboxRelay
begin

text \<open>
  \<open>packages/common/src/messaging/consumer.ts\<close>: what \<open>BaseKafkaConsumer\<close> does with each message, and
  \<open>dead-letter.types.ts\<close>, \<open>dead-letter.replayer.ts\<close>. The state is the inbox table and the effects made
  so far. Every await is a \<open>point\<close> of the handler where an error may strike (\<open>cn_fault\<close>) and where other
  workers may change the table meanwhile (\<open>cn_between\<close>), the database calls, the business handler, the
  publication of a dead letter and the offset commit alike. The handler runs, and it may throw. Deserializing is an argument; \<open>Serializer\<close> defines it.
\<close>

section \<open>State\<close>

datatype effect = HandlerRun string | Committed nat | DlqPublished string

type_synonym cstate = "inbox \<times> effect list"

datatype point = P_find | P_record | P_refind | P_claim | P_current | P_handle | P_processed | P_commit
  | P_lookup | P_retrying | P_dlq | P_dlq_sent | P_failed

record 'buf consumer_env =
  cn_groupId :: string
  cn_retryLimit :: nat
  cn_now :: nat
  cn_uuid :: string
  cn_iso :: string
  cn_reason :: "exn \<Rightarrow> string"
  cn_deserialize :: "'buf \<Rightarrow> exn + envelope"
  cn_publish :: "string \<Rightarrow> string \<Rightarrow> json \<Rightarrow> exn + record_metadata list"
  cn_fault :: "point \<Rightarrow> exn option"
  cn_between :: "point \<Rightarrow> inbox \<Rightarrow> inbox"

record 'buf message =
  mg_value :: "'buf option"
  mg_offset :: nat

type_synonym 'a handler = "(cstate, exn, 'a) proc"

section \<open>The calls it makes\<close>

definition db_call :: "'buf consumer_env \<Rightarrow> point \<Rightarrow> (inbox \<Rightarrow> exn + 'a \<times> inbox) \<Rightarrow> 'a handler" where
  "db_call env pt f = (\<lambda>(t, effs).
     let t1 = cn_between env pt t
     in case cn_fault env pt of
          Some e \<Rightarrow> (Inl e, (t1, effs))
        | None \<Rightarrow> (case f t1 of Inl e \<Rightarrow> (Inl e, (t1, effs)) | Inr (x, t2) \<Rightarrow> (Inr x, (t2, effs))))"

definition p_find :: "'buf consumer_env \<Rightarrow> point \<Rightarrow> envelope \<Rightarrow> inbox_event option handler" where
  "p_find env pt e = db_call env pt (\<lambda>t. Inr (findByEventIdAndConsumer (e_eventId e) (cn_groupId env) t, t))"

definition p_record :: "'buf consumer_env \<Rightarrow> envelope \<Rightarrow> inbox_event handler" where
  "p_record env e = db_call env P_record (recordReceived (cn_uuid env) (cn_now env) e (cn_groupId env))"

definition p_claim :: "'buf consumer_env \<Rightarrow> envelope \<Rightarrow> inbox_event option handler" where
  "p_claim env e = db_call env P_claim
     (\<lambda>t. Inr (transitionStatus (e_eventId e) (cn_groupId env) [I_RECEIVED, I_RETRYING, I_FAILED] I_PROCESSING t))"

definition p_update :: "'buf consumer_env \<Rightarrow> point \<Rightarrow> envelope \<Rightarrow> InboxStatus \<Rightarrow> nat option \<Rightarrow> inbox_event handler" where
  "p_update env pt e s n = db_call env pt (updateStatus (cn_now env) (e_eventId e) (cn_groupId env) s n)"

definition p_handle :: "'buf consumer_env \<Rightarrow> envelope \<Rightarrow> unit handler" where
  "p_handle env e = (\<lambda>(t, effs).
     (case cn_fault env P_handle of Some x \<Rightarrow> Inl x | None \<Rightarrow> Inr (),
      (cn_between env P_handle t, effs @ [HandlerRun (e_eventId e)])))"

text \<open>\<open>commitOffset\<close> of the offset after the message's. It is awaited, so other workers may act until it is done.\<close>

definition p_commit :: "'buf consumer_env \<Rightarrow> 'buf message \<Rightarrow> unit handler" where
  "p_commit env msg = (\<lambda>(t, effs).
     let t1 = cn_between env P_commit t
     in case cn_fault env P_commit of
          Some x \<Rightarrow> (Inl x, (t1, effs))
        | None \<Rightarrow> (Inr (), (t1, effs @ [Committed (mg_offset msg + 1)])))"

text \<open>Publishing a dead letter; validating and serializing it precede the awaited \<open>send\<close> and are part of it.\<close>

definition p_publish :: "'buf consumer_env \<Rightarrow> string \<Rightarrow> string \<Rightarrow> json \<Rightarrow> unit handler" where
  "p_publish env topic key ev = (\<lambda>(t, effs).
     let t1 = cn_between env P_dlq t
     in case (case cn_fault env P_dlq of Some x \<Rightarrow> Inl x | None \<Rightarrow> cn_publish env topic key ev) of
          Inl x \<Rightarrow> (Inl x, (t1, effs))
        | Inr m \<Rightarrow> (Inr (), (t1, effs @ [DlqPublished key])))"

section \<open>Dead letters\<close>

definition DEAD_LETTER_EVENT_TYPE :: string where "DEAD_LETTER_EVENT_TYPE = ''DeadLetterRecord''"

record dead_letter =
  dl_originalEvent :: json
  dl_failureReason :: string
  dl_retryCount :: nat
  dl_consumer :: string
  dl_failedAt :: string
  dl_dlqTopic :: string

definition dead_letter_json :: "dead_letter \<Rightarrow> json" where
  "dead_letter_json d = JObj
     [(''originalEvent'', dl_originalEvent d), (''failureReason'', JStr (dl_failureReason d)),
      (''retryCount'', jnat (dl_retryCount d)), (''consumer'', JStr (dl_consumer d)),
      (''failedAt'', JStr (dl_failedAt d)), (''dlqTopic'', JStr (dl_dlqTopic d))]"

definition dlq_envelope :: "'buf consumer_env \<Rightarrow> envelope \<Rightarrow> exn \<Rightarrow> nat \<Rightarrow> envelope" where
  "dlq_envelope env e err newRetryCount =
     \<lparr>e_eventId = e_eventId e, e_eventType = DEAD_LETTER_EVENT_TYPE, e_correlationId = e_correlationId e,
      e_causationId = e_eventId e, e_sagaId = e_sagaId e, e_timestamp = cn_iso env, e_version = Fin 1,
      e_payload = dead_letter_json
        \<lparr>dl_originalEvent = envelope_json e, dl_failureReason = cn_reason env err, dl_retryCount = newRetryCount,
         dl_consumer = cn_groupId env, dl_failedAt = cn_iso env, dl_dlqTopic = resolveDlqTopic\<rparr>,
      e_extra = []\<rparr>"

section \<open>Processing a message\<close>

definition EventProcessingInProgressException :: "string \<Rightarrow> string \<Rightarrow> exn" where
  "EventProcessingInProgressException eventId consumer =
     JsError ''EventProcessingInProgressException''
       [Lit (''Event '' @ eventId @ '' is currently being processed by consumer '' @ consumer @ ''.'')]"

definition isPrismaUniqueConstraintError :: "exn \<Rightarrow> bool" where
  "isPrismaUniqueConstraintError e = (case e of PrismaError c m \<Rightarrow> c = ''P2002'' | BaseExn b \<Rightarrow> be_code b = ''P2002'' | _ \<Rightarrow> False)"

definition in_progress :: "'buf consumer_env \<Rightarrow> envelope \<Rightarrow> 'a handler" where
  "in_progress env e = pthrow (EventProcessingInProgressException (e_eventId e) (cn_groupId env))"

text \<open>The bounded retries exhausted: forward to the dead letter queue.\<close>

definition send_to_dlq :: "'buf consumer_env \<Rightarrow> 'buf message \<Rightarrow> envelope \<Rightarrow> exn \<Rightarrow> nat \<Rightarrow> unit handler" where
  "send_to_dlq env msg e err newRetryCount =
     pcatch
       (pbind (p_publish env resolveDlqTopic (e_eventId e) (envelope_json (dlq_envelope env e err newRetryCount)))
         (\<lambda>_. pbind (p_update env P_dlq_sent e I_DLQ_SENT (Some newRetryCount))
         (\<lambda>_. p_commit env msg)))
       (\<lambda>dlqErr. pbind (p_update env P_failed e I_FAILED (Some newRetryCount)) (\<lambda>_. pthrow dlqErr))"

definition handler_failed :: "'buf consumer_env \<Rightarrow> 'buf message \<Rightarrow> envelope \<Rightarrow> exn \<Rightarrow> unit handler" where
  "handler_failed env msg e err =
     pbind (p_find env P_lookup e) (\<lambda>currentRecord.
       let newRetryCount = (case currentRecord of Some r \<Rightarrow> ib_retryCount r | None \<Rightarrow> 0) + 1
       in if newRetryCount \<le> cn_retryLimit env
          then pbind (p_update env P_retrying e I_RETRYING (Some newRetryCount)) (\<lambda>_. pthrow err)
          else send_to_dlq env msg e err newRetryCount)"

definition run_handler :: "'buf consumer_env \<Rightarrow> 'buf message \<Rightarrow> envelope \<Rightarrow> unit handler" where
  "run_handler env msg e =
     pcatch (pbind (p_handle env e) (\<lambda>_. pbind (p_update env P_processed e I_PROCESSED None) (\<lambda>_. p_commit env msg)))
       (handler_failed env msg e)"

definition claim_and_run :: "'buf consumer_env \<Rightarrow> 'buf message \<Rightarrow> envelope \<Rightarrow> unit handler" where
  "claim_and_run env msg e =
     pbind (p_claim env e) (\<lambda>transitioned. case transitioned of
       None \<Rightarrow> pbind (p_find env P_current e) (\<lambda>current. case current of
           Some r \<Rightarrow> if ib_status r \<in> {I_PROCESSED, I_DLQ_SENT} then p_commit env msg else in_progress env e
         | None \<Rightarrow> in_progress env e)
     | Some r \<Rightarrow> run_handler env msg e)"

text \<open>A row found, now or after a collision: done already, being processed, or to be claimed.\<close>

definition dispatch :: "'buf consumer_env \<Rightarrow> 'buf message \<Rightarrow> envelope \<Rightarrow> inbox_event \<Rightarrow> unit handler" where
  "dispatch env msg e r =
     (if ib_status r \<in> {I_PROCESSED, I_DLQ_SENT} then p_commit env msg
      else if ib_status r = I_PROCESSING then in_progress env e
      else claim_and_run env msg e)"

definition first_delivery :: "'buf consumer_env \<Rightarrow> envelope \<Rightarrow> inbox_event option handler" where
  "first_delivery env e =
     pcatch (pbind (p_record env e) (\<lambda>_. preturn None))
       (\<lambda>err. if isPrismaUniqueConstraintError err then p_find env P_refind e else pthrow err)"

definition process_envelope :: "'buf consumer_env \<Rightarrow> 'buf message \<Rightarrow> envelope \<Rightarrow> unit handler" where
  "process_envelope env msg e =
     pbind (p_find env P_find e) (\<lambda>existing. case existing of
       Some r \<Rightarrow> dispatch env msg e r
     | None \<Rightarrow> pbind (first_delivery env e) (\<lambda>collided. case collided of
           Some r \<Rightarrow> dispatch env msg e r
         | None \<Rightarrow> claim_and_run env msg e))"

definition eachMessage :: "'buf consumer_env \<Rightarrow> 'buf message \<Rightarrow> unit handler" where
  "eachMessage env msg =
     (case mg_value msg of
        None \<Rightarrow> preturn ()
      | Some v \<Rightarrow> (case cn_deserialize env v of
            Inl err \<Rightarrow> pthrow err
          | Inr e \<Rightarrow> process_envelope env msg e))"

section \<open>Replaying dead letters\<close>

text \<open>\<open>rt\<close> is serializing and deserializing an envelope again.\<close>

definition replay ::
  "(json \<Rightarrow> exn + envelope) \<Rightarrow> (string \<Rightarrow> string \<Rightarrow> json \<Rightarrow> exn + record_metadata list) \<Rightarrow> (exn \<Rightarrow> string) \<Rightarrow> json \<Rightarrow>
   bool \<times> string option" where
  "replay rt publish reason record =
     (case jget record ''originalEvent'' of
        None \<Rightarrow> (False, Some ''Malformed DLQ record: originalEvent is missing'')
      | Some ev \<Rightarrow>
          if \<not> truthy ev then (False, Some ''Malformed DLQ record: originalEvent is missing'')
          else (case rt ev of
              Inl err \<Rightarrow> (False, Some (''Invalid original event envelope: '' @ reason err))
            | Inr e \<Rightarrow> (case TOPIC_REGISTRY (e_eventType e) of
                  None \<Rightarrow> (False, Some (''Unknown event-to-topic mapping for eventType: '' @ e_eventType e))
                | Some topic \<Rightarrow> (case publish topic (e_eventId e) (envelope_json e) of
                      Inl err \<Rightarrow> (False, Some (reason err))
                    | Inr m \<Rightarrow> (True, None)))))"

section \<open>Offsets are committed only for finished events\<close>

definition commits :: "effect list \<Rightarrow> nat list" where
  "commits effs = List.map_filter (\<lambda>x. case x of Committed n \<Rightarrow> Some n | _ \<Rightarrow> None) effs"

lemma commits_simps [simp]:
  "commits [] = []" "commits (a @ b) = commits a @ commits b"
  "commits [Committed n] = [n]" "commits [HandlerRun i] = []" "commits [DlqPublished i] = []"
  by (simp_all add: commits_def map_filter_def)

text \<open>The event is finished for this consumer: nothing will be done for it again.\<close>

definition finished :: "'buf consumer_env \<Rightarrow> envelope \<Rightarrow> inbox \<Rightarrow> bool" where
  "finished env e t \<longleftrightarrow> (\<exists>s n. entry (e_eventId e) (cn_groupId env) t = Some (s, n) \<and> s \<in> {I_PROCESSED, I_DLQ_SENT})"

abbreviation quiet :: "nat list \<Rightarrow> cstate \<Rightarrow> bool" where
  "quiet cs s \<equiv> commits (snd s) = cs"

text \<open>
  The delivery is settled: its last effect is the commit of \<open>off\<close>, and just before it the row was
  finished; what the others did during the commit is all that separates that table from the last one.
\<close>

definition settled :: "'buf consumer_env \<Rightarrow> envelope \<Rightarrow> nat list \<Rightarrow> nat \<Rightarrow> cstate \<Rightarrow> bool" where
  "settled env e cs off s \<longleftrightarrow>
     cn_fault env P_commit = None \<and> (\<exists>earlier t. snd s = earlier @ [Committed off] \<and> commits earlier = cs \<and> finished env e t \<and> fst s = cn_between env P_commit t)"

lemma valid_db_call:
  assumes "\<And>t x t'. f (cn_between env pt t) = Inr (x, t') \<Longrightarrow> R x t'"
  shows "valid (quiet cs) (db_call env pt f) (\<lambda>x s. quiet cs s \<and> R x (fst s)) (\<lambda>e. quiet cs)"
  using assms by (auto simp: valid_def db_call_def Let_def split: option.splits sum.splits)

lemma quiet_db_call: "valid (quiet cs) (db_call env pt f) (\<lambda>x. quiet cs) (\<lambda>e. quiet cs)"
  by (rule valid_weaken [OF valid_db_call [where R = "\<lambda>x t. True"]]) auto

lemma valid_find:
  "valid (quiet cs) (p_find env pt e)
     (\<lambda>r s. quiet cs s \<and> r = findByEventIdAndConsumer (e_eventId e) (cn_groupId env) (fst s)) (\<lambda>x. quiet cs)"
  unfolding p_find_def by (rule valid_db_call) auto

lemma valid_update_finished:
  assumes "s \<in> {I_PROCESSED, I_DLQ_SENT}"
  shows "valid (quiet cs) (p_update env pt e s n) (\<lambda>x st. quiet cs st \<and> finished env e (fst st)) (\<lambda>x. quiet cs)"
  unfolding p_update_def
proof (rule valid_db_call)
  fix t x t'
  assume "updateStatus (cn_now env) (e_eventId e) (cn_groupId env) s n (cn_between env pt t) = Inr (x, t')"
  with updateStatus_spec [where now = "cn_now env" and i = "e_eventId e" and c = "cn_groupId env" and s = s and rc = n
      and t = "cn_between env pt t"]
  have "\<exists>m. entry (e_eventId e) (cn_groupId env) t' = Some (s, m)" by auto
  with assms show "finished env e t'" by (auto simp: finished_def)
qed

lemma valid_commit:
  "valid (\<lambda>s. quiet cs s \<and> finished env e (fst s)) (p_commit env msg)
     (\<lambda>x. settled env e cs (Suc (mg_offset msg))) (\<lambda>x. quiet cs)"
  by (auto simp: valid_def p_commit_def settled_def Let_def split: option.splits)

lemma finished_row:
  "findByEventIdAndConsumer (e_eventId e) (cn_groupId env) t = Some r \<Longrightarrow> ib_status r \<in> {I_PROCESSED, I_DLQ_SENT} \<Longrightarrow>
   finished env e t"
  by (auto simp: finished_def entry_def)

lemma valid_in_progress: "valid (quiet cs) (in_progress env e) Q (\<lambda>x. quiet cs)"
  unfolding in_progress_def by (rule valid_throw) simp

lemma valid_send_to_dlq:
  "valid (quiet cs) (send_to_dlq env msg e err n) (\<lambda>x. settled env e cs (Suc (mg_offset msg))) (\<lambda>x. quiet cs)"
  unfolding send_to_dlq_def
proof (rule valid_catch)
  have pub: "valid (quiet cs) (p_publish env topic key ev) (\<lambda>x. quiet cs) (\<lambda>x. quiet cs)" for topic key ev
    by (auto simp: valid_def p_publish_def Let_def split: option.splits sum.splits)
  show "valid (quiet cs) (pbind (p_publish env resolveDlqTopic (e_eventId e) (envelope_json (dlq_envelope env e err n)))
         (\<lambda>_. pbind (p_update env P_dlq_sent e I_DLQ_SENT (Some n)) (\<lambda>_. p_commit env msg)))
       (\<lambda>x. settled env e cs (Suc (mg_offset msg))) (\<lambda>x. quiet cs)"
    by (rule valid_bind [OF pub], rule valid_bind [OF valid_update_finished], simp, rule valid_commit)
  show "valid (quiet cs) (pbind (p_update env P_failed e I_FAILED (Some n)) (\<lambda>_. pthrow dlqErr))
       (\<lambda>x. settled env e cs (Suc (mg_offset msg))) (\<lambda>x. quiet cs)" for dlqErr
    unfolding p_update_def by (rule valid_bind [OF quiet_db_call], rule valid_throw) simp
qed

lemma valid_handler_failed:
  "valid (quiet cs) (handler_failed env msg e err) (\<lambda>x. settled env e cs (Suc (mg_offset msg))) (\<lambda>x. quiet cs)"
  unfolding handler_failed_def Let_def p_find_def
proof (rule valid_bind [OF quiet_db_call])
  fix r :: "inbox_event option"
  let ?n = "(case r of Some r \<Rightarrow> ib_retryCount r | None \<Rightarrow> 0) + 1"
  have "valid (quiet cs) (pbind (p_update env P_retrying e I_RETRYING (Some ?n)) (\<lambda>_. pthrow err))
      (\<lambda>x. settled env e cs (Suc (mg_offset msg))) (\<lambda>x. quiet cs)"
    unfolding p_update_def by (rule valid_bind [OF quiet_db_call], rule valid_throw) simp
  then show "valid (quiet cs)
     (if ?n \<le> cn_retryLimit env then pbind (p_update env P_retrying e I_RETRYING (Some ?n)) (\<lambda>_. pthrow err)
      else send_to_dlq env msg e err ?n) (\<lambda>x. settled env e cs (Suc (mg_offset msg))) (\<lambda>x. quiet cs)"
    by (rule valid_if) (rule valid_send_to_dlq)
qed

lemma valid_run_handler:
  "valid (quiet cs) (run_handler env msg e) (\<lambda>x. settled env e cs (Suc (mg_offset msg))) (\<lambda>x. quiet cs)"
  unfolding run_handler_def
proof (rule valid_catch [OF _ valid_handler_failed])
  have "valid (quiet cs) (p_handle env e) (\<lambda>x. quiet cs) (\<lambda>x. quiet cs)"
    by (auto simp: valid_def p_handle_def split: option.splits)
  then show "valid (quiet cs) (pbind (p_handle env e) (\<lambda>_. pbind (p_update env P_processed e I_PROCESSED None) (\<lambda>_. p_commit env msg)))
      (\<lambda>x. settled env e cs (Suc (mg_offset msg))) (\<lambda>x. quiet cs)"
    by (rule valid_bind) (rule valid_bind [OF valid_update_finished], simp, rule valid_commit)
qed

lemma valid_claim_and_run:
  "valid (quiet cs) (claim_and_run env msg e) (\<lambda>x. settled env e cs (Suc (mg_offset msg))) (\<lambda>x. quiet cs)"
  unfolding claim_and_run_def p_claim_def
proof (rule valid_bind [OF quiet_db_call])
  fix res :: "inbox_event option"
  let ?body = "\<lambda>current. case current of
        Some r \<Rightarrow> if ib_status r \<in> {I_PROCESSED, I_DLQ_SENT} then p_commit env msg else in_progress env e
      | None \<Rightarrow> in_progress env e"
  have "valid (\<lambda>s. quiet cs s \<and> cur = findByEventIdAndConsumer (e_eventId e) (cn_groupId env) (fst s)) (?body cur)
      (\<lambda>x. settled env e cs (Suc (mg_offset msg))) (\<lambda>x. quiet cs)" for cur
  proof (cases cur)
    case None
    then show ?thesis by simp (rule valid_pre [OF valid_in_progress], simp)
  next
    case (Some r)
    have "valid (\<lambda>s. quiet cs s \<and> cur = findByEventIdAndConsumer (e_eventId e) (cn_groupId env) (fst s)) (p_commit env msg)
        (\<lambda>x. settled env e cs (Suc (mg_offset msg))) (\<lambda>x. quiet cs)" if "ib_status r \<in> {I_PROCESSED, I_DLQ_SENT}"
      by (rule valid_pre [OF valid_commit]) (use Some that finished_row in metis)
    moreover have "valid (\<lambda>s. quiet cs s \<and> cur = findByEventIdAndConsumer (e_eventId e) (cn_groupId env) (fst s)) (in_progress env e)
        (\<lambda>x. settled env e cs (Suc (mg_offset msg))) (\<lambda>x. quiet cs)"
      by (rule valid_pre [OF valid_in_progress]) simp
    ultimately show ?thesis unfolding Some option.case by (rule valid_if)
  qed
  then have "valid (quiet cs) (pbind (p_find env P_current e) ?body) (\<lambda>x. settled env e cs (Suc (mg_offset msg))) (\<lambda>x. quiet cs)"
    by (rule valid_bind [OF valid_find])
  then show "valid (quiet cs) (case res of None \<Rightarrow> pbind (p_find env P_current e) ?body | Some r \<Rightarrow> run_handler env msg e)
      (\<lambda>x. settled env e cs (Suc (mg_offset msg))) (\<lambda>x. quiet cs)"
    using valid_run_handler [of cs env msg e] by (cases res) (simp_all only: option.case)
qed

lemma valid_dispatch:
  "valid (\<lambda>s. quiet cs s \<and> findByEventIdAndConsumer (e_eventId e) (cn_groupId env) (fst s) = Some r)
     (dispatch env msg e r) (\<lambda>x. settled env e cs (Suc (mg_offset msg))) (\<lambda>x. quiet cs)"
  unfolding dispatch_def
proof (intro valid_if)
  assume "ib_status r \<in> {I_PROCESSED, I_DLQ_SENT}"
  then show "valid (\<lambda>s. quiet cs s \<and> findByEventIdAndConsumer (e_eventId e) (cn_groupId env) (fst s) = Some r)
     (p_commit env msg) (\<lambda>x. settled env e cs (Suc (mg_offset msg))) (\<lambda>x. quiet cs)"
    by (intro valid_pre [OF valid_commit]) (use finished_row in metis)
qed (rule valid_pre [OF valid_in_progress] valid_pre [OF valid_claim_and_run], simp)+

lemma valid_first_delivery:
  "valid (quiet cs) (first_delivery env e)
     (\<lambda>x s. quiet cs s \<and> (\<forall>r. x = Some r \<longrightarrow> findByEventIdAndConsumer (e_eventId e) (cn_groupId env) (fst s) = Some r))
     (\<lambda>x. quiet cs)"
  unfolding first_delivery_def
proof (rule valid_catch [where F = "\<lambda>x. quiet cs"])
  show "valid (quiet cs) (pbind (p_record env e) (\<lambda>_. preturn None))
     (\<lambda>x s. quiet cs s \<and> (\<forall>r. x = Some r \<longrightarrow> findByEventIdAndConsumer (e_eventId e) (cn_groupId env) (fst s) = Some r))
     (\<lambda>x. quiet cs)"
    unfolding p_record_def by (rule valid_bind [OF quiet_db_call], rule valid_return) simp
  show "valid (quiet cs) (if isPrismaUniqueConstraintError err then p_find env P_refind e else pthrow err)
     (\<lambda>x s. quiet cs s \<and> (\<forall>r. x = Some r \<longrightarrow> findByEventIdAndConsumer (e_eventId e) (cn_groupId env) (fst s) = Some r))
     (\<lambda>x. quiet cs)" for err
    by (rule valid_if, rule valid_weaken [OF valid_find [where cs = cs]]) (auto intro: valid_throw)
qed

lemma valid_process_envelope:
  "valid (quiet cs) (process_envelope env msg e) (\<lambda>x. settled env e cs (Suc (mg_offset msg))) (\<lambda>x. quiet cs)"
  unfolding process_envelope_def
proof (rule valid_bind [OF valid_find])
  fix existing
  show "valid (\<lambda>s. quiet cs s \<and> existing = findByEventIdAndConsumer (e_eventId e) (cn_groupId env) (fst s))
     (case existing of Some r \<Rightarrow> dispatch env msg e r
      | None \<Rightarrow> pbind (first_delivery env e) (\<lambda>collided. case collided of
           Some r \<Rightarrow> dispatch env msg e r | None \<Rightarrow> claim_and_run env msg e))
     (\<lambda>x. settled env e cs (Suc (mg_offset msg))) (\<lambda>x. quiet cs)"
  proof (cases existing)
    case (Some r)
    then show ?thesis by (simp only: option.case) (rule valid_pre [OF valid_dispatch], simp)
  next
    case None
    have "valid (\<lambda>s. quiet cs s \<and> (\<forall>r. x = Some r \<longrightarrow> findByEventIdAndConsumer (e_eventId e) (cn_groupId env) (fst s) = Some r))
        (case x of Some r \<Rightarrow> dispatch env msg e r | None \<Rightarrow> claim_and_run env msg e)
        (\<lambda>x. settled env e cs (Suc (mg_offset msg))) (\<lambda>x. quiet cs)" for x
    proof (cases x)
      case None
      then show ?thesis by (simp only: option.case) (rule valid_pre [OF valid_claim_and_run], simp)
    next
      case (Some r)
      then show ?thesis by (simp only: option.case) (rule valid_pre [OF valid_dispatch], simp)
    qed
    then have "valid (quiet cs) (pbind (first_delivery env e) (\<lambda>collided. case collided of
           Some r \<Rightarrow> dispatch env msg e r | None \<Rightarrow> claim_and_run env msg e))
        (\<lambda>x. settled env e cs (Suc (mg_offset msg))) (\<lambda>x. quiet cs)"
      by (rule valid_bind [OF valid_first_delivery])
    then show ?thesis unfolding None option.case by (rule valid_pre) simp
  qed
qed

section \<open>The commit is the last thing a delivery does\<close>

text \<open>The same delivery, with the others doing \<open>g\<close> during the offset commit.\<close>

definition during_commit :: "'buf consumer_env \<Rightarrow> (inbox \<Rightarrow> inbox) \<Rightarrow> 'buf consumer_env" where
  "during_commit env g = env\<lparr>cn_between := (cn_between env)(P_commit := g)\<rparr>"

text \<open>A procedure that returns normally only by a commit: what is done during it shows in the last table only.\<close>

definition committing :: "((inbox \<Rightarrow> inbox) \<Rightarrow> unit handler) \<Rightarrow> bool" where
  "committing m \<longleftrightarrow> (\<forall>g s. m g s =
     (case m (\<lambda>t. t) s of (Inl x, s') \<Rightarrow> (Inl x, s') | (Inr u, (t, effs)) \<Rightarrow> (Inr u, (g t, effs))))"

lemma committingI:
  "(\<And>g s. m g s = (case m (\<lambda>t. t) s of (Inl x, s') \<Rightarrow> (Inl x, s') | (Inr u, (t, effs)) \<Rightarrow> (Inr u, (g t, effs)))) \<Longrightarrow> committing m"
  unfolding committing_def by (intro allI)

lemma committingD:
  "committing m \<Longrightarrow> m g s = (case m (\<lambda>t. t) s of (Inl x, s') \<Rightarrow> (Inl x, s') | (Inr u, (t, effs)) \<Rightarrow> (Inr u, (g t, effs)))"
  unfolding committing_def by (elim allE)

lemma committing_throw: "committing (\<lambda>g. pthrow x)"
  by (rule committingI) (simp add: pthrow_def)

lemma committing_commit:
  "cn_fault env P_commit = None \<Longrightarrow> committing (\<lambda>g. p_commit (during_commit env g) msg)"
  by (rule committingI) (simp add: p_commit_def during_commit_def Let_def split: prod.split)

lemma committing_bind:
  assumes "\<And>x. committing (\<lambda>g. k g x)"
  shows "committing (\<lambda>g. pbind m (k g))"
proof (rule committingI)
  fix g s
  show "pbind m (k g) s = (case pbind m (k (\<lambda>t. t)) s of (Inl x, s') \<Rightarrow> (Inl x, s') | (Inr u, (t, effs)) \<Rightarrow> (Inr u, (g t, effs)))"
  proof -
    obtain r s' where m: "m s = (r, s')" by (cases "m s")
    show ?thesis
    proof (cases r)
      case (Inr x)
      with m show ?thesis using committingD [OF assms [of x], of g s'] by (simp add: pbind_def)
    qed (simp add: m pbind_def)
  qed
qed

lemma committing_catch:
  assumes "committing m" "\<And>x. committing (\<lambda>g. h g x)"
  shows "committing (\<lambda>g. pcatch (m g) (h g))"
proof (rule committingI)
  fix g s
  show "pcatch (m g) (h g) s = (case pcatch (m (\<lambda>t. t)) (h (\<lambda>t. t)) s of (Inl x, s') \<Rightarrow> (Inl x, s') | (Inr u, (t, effs)) \<Rightarrow> (Inr u, (g t, effs)))"
  proof -
    obtain r s' where m: "m (\<lambda>t. t) s = (r, s')" by (cases "m (\<lambda>t. t) s")
    show ?thesis
    proof (cases r)
      case (Inl x)
      with m show ?thesis
        using committingD [OF assms(1), of g s] committingD [OF assms(2) [of x], of g s'] by (simp add: pcatch_def)
    next
      case (Inr u)
      with m show ?thesis using committingD [OF assms(1), of g s] by (simp add: pcatch_def split_beta)
    qed
  qed
qed

lemma committing_if: "committing a \<Longrightarrow> committing b \<Longrightarrow> committing (\<lambda>g. if c then a g else b g)"
  by (cases c) simp_all

lemma committing_option:
  "committing a \<Longrightarrow> (\<And>x. committing (\<lambda>g. f g x)) \<Longrightarrow> committing (\<lambda>g. case y of None \<Rightarrow> a g | Some x \<Rightarrow> f g x)"
  by (cases y) simp_all

lemmas committing_intros = committing_throw committing_commit committing_bind committing_catch committing_if committing_option

lemma during_commit_simps [simp]:
  "cn_groupId (during_commit env g) = cn_groupId env" "cn_retryLimit (during_commit env g) = cn_retryLimit env"
  "cn_deserialize (during_commit env g) = cn_deserialize env" "cn_fault (during_commit env g) = cn_fault env"
  "finished (during_commit env g) e = finished env e" "cn_between (during_commit env g) P_commit = g"
  "during_commit env (cn_between env P_commit) = env"
  by (simp_all add: during_commit_def finished_def fun_eq_iff)

lemma db_call_during: "pt \<noteq> P_commit \<Longrightarrow> db_call (during_commit env g) pt = db_call env pt"
  by (simp add: db_call_def during_commit_def fun_eq_iff)

lemma calls_during [simp]:
  "pt \<noteq> P_commit \<Longrightarrow> p_find (during_commit env g) pt = p_find env pt"
  "pt \<noteq> P_commit \<Longrightarrow> p_update (during_commit env g) pt = p_update env pt"
  "p_claim (during_commit env g) = p_claim env" "p_record (during_commit env g) = p_record env"
  by (simp_all add: p_find_def p_update_def p_claim_def p_record_def db_call_during fun_eq_iff)
    (simp_all add: during_commit_def)

lemma steps_during [simp]:
  "first_delivery (during_commit env g) = first_delivery env" "in_progress (during_commit env g) = in_progress env"
  "p_handle (during_commit env g) = p_handle env" "p_publish (during_commit env g) = p_publish env"
  "dlq_envelope (during_commit env g) = dlq_envelope env"
  by (simp_all add: first_delivery_def in_progress_def fun_eq_iff cong: if_cong)
    (simp_all add: during_commit_def p_handle_def p_publish_def dlq_envelope_def fun_eq_iff cong: option.case_cong)

lemma committing_process:
  assumes "cn_fault env P_commit = None"
  shows "committing (\<lambda>g. process_envelope (during_commit env g) msg e)"
proof -
  note step = committing_intros assms
  have "committing (\<lambda>g. send_to_dlq (during_commit env g) msg e err n)" for err n
    by (simp add: send_to_dlq_def) (intro step)
  then have failed: "committing (\<lambda>g. handler_failed (during_commit env g) msg e err)" for err
    by (simp add: handler_failed_def Let_def cong: if_cong option.case_cong) (intro step)
  have run: "committing (\<lambda>g. run_handler (during_commit env g) msg e)"
    by (simp add: run_handler_def) (intro step failed)
  have busy: "committing (\<lambda>g. in_progress env e)" by (simp add: in_progress_def committing_throw)
  have claim: "committing (\<lambda>g. claim_and_run (during_commit env g) msg e)"
    by (simp add: claim_and_run_def cong: if_cong option.case_cong) (intro step run busy)
  have found: "committing (\<lambda>g. dispatch (during_commit env g) msg e r)" for r
    by (simp add: dispatch_def cong: if_cong option.case_cong) (intro step claim busy)
  show ?thesis by (simp add: process_envelope_def cong: if_cong option.case_cong) (intro step claim found)
qed

section \<open>One delivery, undisturbed\<close>

text \<open>No other worker, and no error but the handler's own and the dead letter queue's.\<close>

definition undisturbed :: "'buf consumer_env \<Rightarrow> bool" where
  "undisturbed env \<longleftrightarrow> (\<forall>pt t. cn_between env pt t = t) \<and> (\<forall>pt. pt \<noteq> P_handle \<longrightarrow> pt \<noteq> P_dlq \<longrightarrow> cn_fault env pt = None)"

datatype outcome = Done | Skipped | InProgress | Retry exn | Dead | DlqFailed exn

text \<open>The specification: what one delivery does to the entry of its event.\<close>

definition deliver_spec ::
  "nat \<Rightarrow> exn option \<Rightarrow> exn option \<Rightarrow> (InboxStatus \<times> nat) option \<Rightarrow> (InboxStatus \<times> nat) \<times> outcome" where
  "deliver_spec limit handler dlq known =
     (case known of
        Some (I_PROCESSED, n) \<Rightarrow> ((I_PROCESSED, n), Skipped)
      | Some (I_DLQ_SENT, n) \<Rightarrow> ((I_DLQ_SENT, n), Skipped)
      | Some (I_PROCESSING, n) \<Rightarrow> ((I_PROCESSING, n), InProgress)
      | _ \<Rightarrow> (let n = (case known of Some (s, n) \<Rightarrow> n | None \<Rightarrow> 0)
             in case handler of
                  None \<Rightarrow> ((I_PROCESSED, n), Done)
                | Some err \<Rightarrow>
                    if n + 1 \<le> limit then ((I_RETRYING, n + 1), Retry err)
                    else (case dlq of
                            None \<Rightarrow> ((I_DLQ_SENT, n + 1), Dead)
                          | Some derr \<Rightarrow> ((I_FAILED, n + 1), DlqFailed derr))))"

fun outcome_effects :: "string \<Rightarrow> nat \<Rightarrow> outcome \<Rightarrow> effect list" where
  "outcome_effects i off Done = [HandlerRun i, Committed off]"
| "outcome_effects i off Skipped = [Committed off]"
| "outcome_effects i off InProgress = []"
| "outcome_effects i off (Retry e) = [HandlerRun i]"
| "outcome_effects i off Dead = [HandlerRun i, DlqPublished i, Committed off]"
| "outcome_effects i off (DlqFailed e) = [HandlerRun i]"

fun outcome_result :: "'buf consumer_env \<Rightarrow> envelope \<Rightarrow> outcome \<Rightarrow> exn + unit" where
  "outcome_result env e InProgress = Inl (EventProcessingInProgressException (e_eventId e) (cn_groupId env))"
| "outcome_result env e (Retry x) = Inl x"
| "outcome_result env e (DlqFailed x) = Inl x"
| "outcome_result env e v = Inr ()"

text \<open>What publishing the dead letter of a failure comes to.\<close>

definition dlq_result :: "'buf consumer_env \<Rightarrow> envelope \<Rightarrow> nat \<Rightarrow> exn option" where
  "dlq_result env e n =
     (case cn_fault env P_dlq of Some x \<Rightarrow> Some x
      | None \<Rightarrow> (case cn_fault env P_handle of None \<Rightarrow> None
          | Some err \<Rightarrow> (case cn_publish env resolveDlqTopic (e_eventId e) (envelope_json (dlq_envelope env e err n)) of
               Inl x \<Rightarrow> Some x | Inr m \<Rightarrow> None)))"

lemma db_call_undisturbed:
  "undisturbed env \<Longrightarrow> pt \<noteq> P_handle \<Longrightarrow> pt \<noteq> P_dlq \<Longrightarrow>
   db_call env pt f (t, effs) = (case f t of Inl e \<Rightarrow> (Inl e, (t, effs)) | Inr (x, t') \<Rightarrow> (Inr x, (t', effs)))"
  by (simp add: db_call_def undisturbed_def Let_def split: sum.split prod.split)

lemma update_undisturbed:
  assumes "undisturbed env" "pt \<noteq> P_handle" "pt \<noteq> P_dlq" "entry (e_eventId e) (cn_groupId env) t = Some (s0, n)" "inbox_ok t"
  shows "\<exists>r t'. p_update env pt e s rc (t, effs) = (Inr r, (t', effs)) \<and> inbox_ok t' \<and>
    entry (e_eventId e) (cn_groupId env) t' = Some (s, case rc of Some m \<Rightarrow> m | None \<Rightarrow> n)"
  using updateStatus_spec [where now = "cn_now env" and i = "e_eventId e" and c = "cn_groupId env" and s = s and rc = rc and t = t] assms
  by (auto simp: p_update_def db_call_undisturbed split: sum.splits)

lemma commit_undisturbed:
  "undisturbed env \<Longrightarrow> p_commit env msg (t, effs) = (Inr (), (t, effs @ [Committed (Suc (mg_offset msg))]))"
  by (simp add: p_commit_def undisturbed_def Let_def)

lemma find_undisturbed:
  "undisturbed env \<Longrightarrow> pt \<noteq> P_handle \<Longrightarrow> pt \<noteq> P_dlq \<Longrightarrow>
   p_find env pt e (t, effs) = (Inr (findByEventIdAndConsumer (e_eventId e) (cn_groupId env) t), (t, effs))"
  by (simp add: p_find_def db_call_undisturbed)

text \<open>An event that may be claimed, with its count so far.\<close>

definition claimable_at :: "(InboxStatus \<times> nat) option \<Rightarrow> nat \<Rightarrow> bool" where
  "claimable_at known n \<longleftrightarrow> (known = None \<and> n = 0) \<or> (\<exists>s. known = Some (s, n) \<and> s \<in> {I_RECEIVED, I_RETRYING, I_FAILED})"

lemma deliver_claimable:
  "claimable_at known n \<Longrightarrow> deliver_spec limit h d known =
     (case h of None \<Rightarrow> ((I_PROCESSED, n), Done)
      | Some err \<Rightarrow> if n + 1 \<le> limit then ((I_RETRYING, n + 1), Retry err)
          else (case d of None \<Rightarrow> ((I_DLQ_SENT, n + 1), Dead) | Some derr \<Rightarrow> ((I_FAILED, n + 1), DlqFailed derr)))"
  by (auto simp: claimable_at_def deliver_spec_def Let_def)

text \<open>\<open>implements env msg e m\<close>: the procedure does to an entry what the specification says.\<close>

definition implements :: "'buf consumer_env \<Rightarrow> 'buf message \<Rightarrow> envelope \<Rightarrow> nat \<Rightarrow> (InboxStatus \<times> nat) option \<Rightarrow> unit handler \<Rightarrow> inbox \<Rightarrow> bool" where
  "implements env msg e n known m t \<longleftrightarrow>
     (let (s', out) = deliver_spec (cn_retryLimit env) (cn_fault env P_handle) (dlq_result env e (n + 1)) known
      in \<forall>effs. \<exists>t'. m (t, effs) = (outcome_result env e out, (t', effs @ outcome_effects (e_eventId e) (Suc (mg_offset msg)) out)) \<and>
           inbox_ok t' \<and> entry (e_eventId e) (cn_groupId env) t' = Some s')"

lemma handle_apply:
  "\<forall>t. cn_between env P_handle t = t \<Longrightarrow> p_handle env e (t, effs) =
     (case cn_fault env P_handle of Some x \<Rightarrow> Inl x | None \<Rightarrow> Inr (), (t, effs @ [HandlerRun (e_eventId e)]))"
  by (simp add: p_handle_def)

lemma handle_undisturbed:
  "undisturbed env \<Longrightarrow> p_handle env e (t, effs) =
     (case cn_fault env P_handle of Some x \<Rightarrow> Inl x | None \<Rightarrow> Inr (), (t, effs @ [HandlerRun (e_eventId e)]))"
  by (simp add: p_handle_def undisturbed_def)

lemma publish_undisturbed:
  "undisturbed env \<Longrightarrow> cn_fault env P_handle = Some err \<Longrightarrow>
   p_publish env resolveDlqTopic (e_eventId e) (envelope_json (dlq_envelope env e err m)) (t, effs) =
     (case dlq_result env e m of None \<Rightarrow> (Inr (), (t, effs @ [DlqPublished (e_eventId e)])) | Some x \<Rightarrow> (Inl x, (t, effs)))"
  by (simp add: p_publish_def undisturbed_def dlq_result_def Let_def split: option.split sum.split)

lemma send_to_dlq_undisturbed:
  assumes "undisturbed env" "inbox_ok t" "entry (e_eventId e) (cn_groupId env) t = Some (s0, n)"
    and "cn_fault env P_handle = Some err"
  shows "\<exists>t'. send_to_dlq env msg e err m (t, effs) =
      (case dlq_result env e m of
         None \<Rightarrow> (Inr (), (t', effs @ [DlqPublished (e_eventId e), Committed (Suc (mg_offset msg))]))
       | Some derr \<Rightarrow> (Inl derr, (t', effs))) \<and> inbox_ok t' \<and>
      entry (e_eventId e) (cn_groupId env) t' = Some (case dlq_result env e m of None \<Rightarrow> I_DLQ_SENT | Some d \<Rightarrow> I_FAILED, m)"
proof (cases "dlq_result env e m")
  case None
  then have pub: "p_publish env resolveDlqTopic (e_eventId e) (envelope_json (dlq_envelope env e err m)) (t, effs)
      = (Inr (), (t, effs @ [DlqPublished (e_eventId e)]))"
    by (simp add: publish_undisturbed [OF assms(1,4)])
  obtain r t' where "p_update env P_dlq_sent e I_DLQ_SENT (Some m) (t, effs @ [DlqPublished (e_eventId e)]) = (Inr r, (t', effs @ [DlqPublished (e_eventId e)]))"
    "inbox_ok t'" "entry (e_eventId e) (cn_groupId env) t' = Some (I_DLQ_SENT, m)"
    using update_undisturbed [OF assms(1) _ _ assms(3,2), where pt = P_dlq_sent and s = I_DLQ_SENT and rc = "Some m"] by fastforce
  with None pub assms(1) show ?thesis by (simp add: send_to_dlq_def commit_undisturbed)
next
  case (Some derr)
  then have pub: "p_publish env resolveDlqTopic (e_eventId e) (envelope_json (dlq_envelope env e err m)) (t, effs)
      = (Inl derr, (t, effs))"
    by (simp add: publish_undisturbed [OF assms(1,4)])
  obtain r t' where "p_update env P_failed e I_FAILED (Some m) (t, effs) = (Inr r, (t', effs))"
    "inbox_ok t'" "entry (e_eventId e) (cn_groupId env) t' = Some (I_FAILED, m)"
    using update_undisturbed [OF assms(1) _ _ assms(3,2), where pt = P_failed and s = I_FAILED and rc = "Some m"] by fastforce
  with Some pub show ?thesis by (simp add: send_to_dlq_def)
qed

lemma run_handler_implements:
  assumes "undisturbed env" "inbox_ok t" "entry (e_eventId e) (cn_groupId env) t = Some (I_PROCESSING, n)" "claimable_at known n"
  shows "implements env msg e n known (run_handler env msg e) t"
proof (cases "cn_fault env P_handle")
  case None
  have "\<exists>t'. run_handler env msg e (t, effs) = (Inr (), (t', effs @ [HandlerRun (e_eventId e), Committed (Suc (mg_offset msg))])) \<and>
      inbox_ok t' \<and> entry (e_eventId e) (cn_groupId env) t' = Some (I_PROCESSED, n)" for effs
  proof -
    obtain r t' where "p_update env P_processed e I_PROCESSED None (t, effs @ [HandlerRun (e_eventId e)]) = (Inr r, (t', effs @ [HandlerRun (e_eventId e)]))"
      "inbox_ok t'" "entry (e_eventId e) (cn_groupId env) t' = Some (I_PROCESSED, n)"
      using update_undisturbed [OF assms(1) _ _ assms(3,2), where pt = P_processed and s = I_PROCESSED and rc = None] by fastforce
    with None assms(1) show ?thesis by (simp add: run_handler_def handle_undisturbed commit_undisturbed)
  qed
  with None show ?thesis by (simp add: implements_def deliver_claimable [OF assms(4)])
next
  case (Some err)
  obtain r where r: "findByEventIdAndConsumer (e_eventId e) (cn_groupId env) t = Some r" "ib_retryCount r = n"
    using assms(3) by (auto simp: entry_def)
  have run: "run_handler env msg e (t, effs) = handler_failed env msg e err (t, effs @ [HandlerRun (e_eventId e)])" for effs
    by (simp add: run_handler_def handle_undisturbed [OF assms(1)] Some)
  have failed: "handler_failed env msg e err (t, effs') =
     (if n + 1 \<le> cn_retryLimit env then pbind (p_update env P_retrying e I_RETRYING (Some (n + 1))) (\<lambda>_. pthrow err) (t, effs')
      else send_to_dlq env msg e err (n + 1) (t, effs'))" for effs'
    using r by (simp add: handler_failed_def find_undisturbed [OF assms(1)] Let_def)
  show ?thesis
  proof (cases "n + 1 \<le> cn_retryLimit env")
    case True
    have "\<exists>t'. handler_failed env msg e err (t, effs') = (Inl err, (t', effs')) \<and> inbox_ok t' \<and>
        entry (e_eventId e) (cn_groupId env) t' = Some (I_RETRYING, n + 1)" for effs'
    proof -
      obtain r t' where "p_update env P_retrying e I_RETRYING (Some (n + 1)) (t, effs') = (Inr r, (t', effs'))"
        "inbox_ok t'" "entry (e_eventId e) (cn_groupId env) t' = Some (I_RETRYING, n + 1)"
        using update_undisturbed [OF assms(1) _ _ assms(3,2), where pt = P_retrying and s = I_RETRYING and rc = "Some (n + 1)"] by fastforce
      with True failed show ?thesis by simp
    qed
    with True Some run show ?thesis by (simp add: implements_def deliver_claimable [OF assms(4)])
  next
    case False
    have "handler_failed env msg e err (t, effs') = send_to_dlq env msg e err (n + 1) (t, effs')" for effs'
      using failed False by simp
    moreover have "\<exists>t'. send_to_dlq env msg e err (n + 1) (t, effs @ [HandlerRun (e_eventId e)]) =
      (case dlq_result env e (n + 1) of
         None \<Rightarrow> (Inr (), (t', effs @ [HandlerRun (e_eventId e), DlqPublished (e_eventId e), Committed (Suc (mg_offset msg))]))
       | Some derr \<Rightarrow> (Inl derr, (t', effs @ [HandlerRun (e_eventId e)]))) \<and> inbox_ok t' \<and>
      entry (e_eventId e) (cn_groupId env) t' = Some (case dlq_result env e (n + 1) of None \<Rightarrow> I_DLQ_SENT | Some d \<Rightarrow> I_FAILED, n + 1)" for effs
      using send_to_dlq_undisturbed [OF assms(1-3) Some, where msg = msg and m = "n + 1" and effs = "effs @ [HandlerRun (e_eventId e)]"]
      by (simp only: append_assoc append_Cons append_Nil)
    ultimately show ?thesis
      using False Some run
      by (cases "dlq_result env e (n + 1)") (simp_all add: implements_def deliver_claimable [OF assms(4)])
  qed
qed

lemma claim_and_run_implements:
  assumes "undisturbed env" "inbox_ok t" "entry (e_eventId e) (cn_groupId env) t = Some (s, n)" "s \<in> {I_RECEIVED, I_RETRYING, I_FAILED}"
    and "claimable_at known n"
  shows "implements env msg e n known (claim_and_run env msg e) t"
proof -
  obtain res t' where tr: "transitionStatus (e_eventId e) (cn_groupId env) [I_RECEIVED, I_RETRYING, I_FAILED] I_PROCESSING t = (res, t')"
    by fastforce
  have spec: "inbox_ok t'" "res \<noteq> None" "entry (e_eventId e) (cn_groupId env) t' = Some (I_PROCESSING, n)"
    using transitionStatus_spec [OF assms(2) tr] assms(3,4) by auto
  then obtain r where "res = Some r" by auto
  then have "claim_and_run env msg e (t, effs) = run_handler env msg e (t', effs)" for effs
    by (simp add: claim_and_run_def p_claim_def db_call_undisturbed [OF assms(1)] tr)
  then show ?thesis
    using run_handler_implements [OF assms(1) spec(1,3) assms(5), of msg] by (simp add: implements_def)
qed

lemma process_envelope_implements:
  assumes "undisturbed env" "inbox_ok t"
    and "n = (case entry (e_eventId e) (cn_groupId env) t of Some (s, n) \<Rightarrow> n | None \<Rightarrow> 0)"
  shows "implements env msg e n (entry (e_eventId e) (cn_groupId env) t) (process_envelope env msg e) t"
proof (cases "findByEventIdAndConsumer (e_eventId e) (cn_groupId env) t")
  case (Some r)
  then have ent: "entry (e_eventId e) (cn_groupId env) t = Some (ib_status r, ib_retryCount r)" by (simp add: entry_def)
  have pe: "process_envelope env msg e (t, effs) = dispatch env msg e r (t, effs)" for effs
    by (simp add: process_envelope_def find_undisturbed [OF assms(1)] Some)
  consider "ib_status r \<in> {I_PROCESSED, I_DLQ_SENT}" | "ib_status r = I_PROCESSING"
    | "ib_status r \<in> {I_RECEIVED, I_RETRYING, I_FAILED}" by (cases "ib_status r") auto
  then show ?thesis
  proof cases
    case 1
    with ent pe assms(1,2) show ?thesis
      by (auto simp: implements_def deliver_spec_def dispatch_def commit_undisturbed)
  next
    case 2
    with ent pe assms(2) show ?thesis by (simp add: implements_def deliver_spec_def dispatch_def in_progress_def)
  next
    case 3
    then have "dispatch env msg e r = claim_and_run env msg e" by (auto simp: dispatch_def)
    moreover have "claimable_at (entry (e_eventId e) (cn_groupId env) t) n" using 3 ent assms(3) by (simp add: claimable_at_def)
    ultimately show ?thesis
      using claim_and_run_implements [OF assms(1,2) ent 3] ent assms(3) pe by (simp add: implements_def)
  qed
next
  case None
  then have ent: "entry (e_eventId e) (cn_groupId env) t = None" by (simp add: entry_def)
  obtain r t' where rec: "recordReceived (cn_uuid env) (cn_now env) e (cn_groupId env) t = Inr (r, t')"
      "inbox_ok t'" "entry (e_eventId e) (cn_groupId env) t' = Some (I_RECEIVED, 0)"
    using recordReceived_spec [where uuid = "cn_uuid env" and now = "cn_now env" and e = e and c = "cn_groupId env" and t = t] ent assms(2)
    by (auto split: sum.splits)
  have "process_envelope env msg e (t, effs) = claim_and_run env msg e (t', effs)" for effs
    by (simp add: process_envelope_def find_undisturbed [OF assms(1)] None first_delivery_def p_record_def
        db_call_undisturbed [OF assms(1)] rec)
  moreover have "claimable_at (entry (e_eventId e) (cn_groupId env) t) n" using ent assms(3) by (simp add: claimable_at_def)
  moreover have "n = 0" using ent assms(3) by simp
  ultimately show ?thesis
    using claim_and_run_implements [OF assms(1) rec(2,3), of "entry (e_eventId e) (cn_groupId env) t" msg] by (simp add: implements_def)
qed

section \<open>Deliveries of one message\<close>

text \<open>
  The deliveries of one message value to a consumer: at each, how the business handler ends and the
  offset the message has there.
\<close>

definition attempt :: "'buf consumer_env \<Rightarrow> exn option \<Rightarrow> 'buf consumer_env" where
  "attempt env h = env\<lparr>cn_fault := (cn_fault env)(P_handle := h)\<rparr>"

fun deliver_all :: "'buf consumer_env \<Rightarrow> 'buf \<Rightarrow> (exn option \<times> nat) list \<Rightarrow> cstate \<Rightarrow> cstate" where
  "deliver_all env v [] s = s"
| "deliver_all env v ((h, off) # ds) s =
     deliver_all env v ds (snd (eachMessage (attempt env h) \<lparr>mg_value = Some v, mg_offset = off\<rparr> s))"

lemma deliver_all_append: "deliver_all env v (ds @ es) s = deliver_all env v es (deliver_all env v ds s)"
  by (induction env v ds s rule: deliver_all.induct) simp_all

lemma attempt_simps [simp]:
  "cn_groupId (attempt env h) = cn_groupId env" "cn_retryLimit (attempt env h) = cn_retryLimit env"
  "cn_deserialize (attempt env h) = cn_deserialize env" "cn_fault (attempt env h) P_handle = h"
  "cn_publish (attempt env h) = cn_publish env" "cn_fault (attempt env h) P_dlq = cn_fault env P_dlq"
  "cn_iso (attempt env h) = cn_iso env" "cn_reason (attempt env h) = cn_reason env"
  by (simp_all add: attempt_def)

lemma attempt_undisturbed: "undisturbed env \<Longrightarrow> undisturbed (attempt env h)"
  by (auto simp: undisturbed_def attempt_def)

text \<open>One delivery, by the specification.\<close>

lemma deliver_one:
  assumes "undisturbed env" "inbox_ok t" "cn_deserialize env v = Inr e"
    and "entry (e_eventId e) (cn_groupId env) t = known"
    and "n = (case known of Some (s, n) \<Rightarrow> n | None \<Rightarrow> 0)"
    and "deliver_spec (cn_retryLimit env) h (dlq_result (attempt env h) e (n + 1)) known = (s', out)"
  obtains t' where "eachMessage (attempt env h) \<lparr>mg_value = Some v, mg_offset = off\<rparr> (t, effs) =
      (outcome_result (attempt env h) e out, (t', effs @ outcome_effects (e_eventId e) (Suc off) out))"
    "inbox_ok t'" "entry (e_eventId e) (cn_groupId env) t' = Some s'"
proof -
  let ?msg = "\<lparr>mg_value = Some v, mg_offset = off\<rparr>"
  have ent: "entry (e_eventId e) (cn_groupId (attempt env h)) t = known" using assms(4) by simp
  have "implements (attempt env h) ?msg e n known (process_envelope (attempt env h) ?msg e) t"
    using process_envelope_implements [OF attempt_undisturbed [OF assms(1), of h] assms(2), of n e ?msg]
    unfolding ent by (simp add: assms(5))
  then have "\<exists>t'. process_envelope (attempt env h) ?msg e (t, effs) =
      (outcome_result (attempt env h) e out, (t', effs @ outcome_effects (e_eventId e) (Suc off) out)) \<and> inbox_ok t' \<and>
      entry (e_eventId e) (cn_groupId env) t' = Some s'"
    using assms(6) by (simp add: implements_def)
  then obtain t' where "process_envelope (attempt env h) ?msg e (t, effs) =
      (outcome_result (attempt env h) e out, (t', effs @ outcome_effects (e_eventId e) (Suc off) out))" "inbox_ok t'"
    "entry (e_eventId e) (cn_groupId env) t' = Some s'" by blast
  then show thesis using assms(3) by (intro that [of t']) (simp_all add: eachMessage_def)
qed

text \<open>Deliveries of an event that is done commit their offsets, and nothing else.\<close>

lemma deliver_finished:
  assumes "undisturbed env" "cn_deserialize env v = Inr e" "s \<in> {I_PROCESSED, I_DLQ_SENT}"
    and "inbox_ok t" "entry (e_eventId e) (cn_groupId env) t = Some (s, n)"
  shows "\<exists>t'. deliver_all env v ds (t, effs) = (t', effs @ map (\<lambda>d. Committed (snd d + 1)) ds) \<and> inbox_ok t' \<and>
    entry (e_eventId e) (cn_groupId env) t' = Some (s, n)"
  using assms(4,5)
proof (induction ds arbitrary: t effs)
  case Nil
  then show ?case by simp
next
  case (Cons d ds)
  obtain h off where d: "d = (h, off)" by fastforce
  have spec: "deliver_spec (cn_retryLimit env) h (dlq_result (attempt env h) e (n + 1)) (Some (s, n)) = ((s, n), Skipped)"
    using assms(3) by (auto simp: deliver_spec_def)
  obtain t1 where t1: "eachMessage (attempt env h) \<lparr>mg_value = Some v, mg_offset = off\<rparr> (t, effs) =
      (Inr (), (t1, effs @ [Committed (Suc off)]))" "inbox_ok t1" "entry (e_eventId e) (cn_groupId env) t1 = Some (s, n)"
    by (rule deliver_one [OF assms(1) Cons.prems(1) assms(2) Cons.prems(2) _ spec, of off effs]) simp_all
  show ?case using Cons.IH [OF t1(2,3), of "effs @ [Committed (Suc off)]"] t1(1) d by simp
qed

text \<open>Deliveries of an event left \<open>PROCESSING\<close> throw, and change nothing.\<close>

lemma deliver_in_progress:
  assumes "undisturbed env" "cn_deserialize env v = Inr e"
    and "inbox_ok t" "entry (e_eventId e) (cn_groupId env) t = Some (I_PROCESSING, n)"
  shows "\<exists>t'. deliver_all env v ds (t, effs) = (t', effs) \<and> inbox_ok t' \<and>
      entry (e_eventId e) (cn_groupId env) t' = Some (I_PROCESSING, n)"
    and "fst (eachMessage (attempt env h) \<lparr>mg_value = Some v, mg_offset = off\<rparr> (t, effs)) =
      Inl (EventProcessingInProgressException (e_eventId e) (cn_groupId env))"
proof -
  have spec: "deliver_spec (cn_retryLimit env) h (dlq_result (attempt env h) e (n + 1)) (Some (I_PROCESSING, n)) = ((I_PROCESSING, n), InProgress)" for h
    by (simp add: deliver_spec_def)
  show "fst (eachMessage (attempt env h) \<lparr>mg_value = Some v, mg_offset = off\<rparr> (t, effs)) =
      Inl (EventProcessingInProgressException (e_eventId e) (cn_groupId env))"
    by (rule deliver_one [OF assms(1,3,2,4) _ spec, of h off effs]) simp_all
  show "\<exists>t'. deliver_all env v ds (t, effs) = (t', effs) \<and> inbox_ok t' \<and> entry (e_eventId e) (cn_groupId env) t' = Some (I_PROCESSING, n)"
    using assms(3,4)
  proof (induction ds arbitrary: t)
    case (Cons d ds)
    obtain h off where d: "d = (h, off)" by fastforce
    obtain t1 where t1: "snd (eachMessage (attempt env h) \<lparr>mg_value = Some v, mg_offset = off\<rparr> (t, effs)) = (t1, effs)" "inbox_ok t1"
        "entry (e_eventId e) (cn_groupId env) t1 = Some (I_PROCESSING, n)"
      by (rule deliver_one [OF assms(1) Cons.prems(1) assms(2) Cons.prems(2) _ spec, of h off effs]) simp_all
    show ?case using Cons.IH [OF t1(2,3)] t1(1) d by simp
  qed simp
qed

section \<open>The budget of an event\<close>

text \<open>
  A delivery whose handler throws, at some offset; an event with retries left, \<open>k\<close> of them spent before
  the effects \<open>effs0\<close>; and an event whose last attempt has failed: in the dead letter queue and
  acknowledged, or \<open>FAILED\<close> when its dead letter could not be published.
\<close>

definition failing_delivery :: "'buf consumer_env \<Rightarrow> 'buf \<Rightarrow> exn \<times> nat \<Rightarrow> cstate \<Rightarrow> cstate" where
  "failing_delivery env v d s =
     snd (eachMessage (attempt env (Some (fst d))) \<lparr>mg_value = Some v, mg_offset = snd d\<rparr> s)"

definition attempts :: "'buf consumer_env \<Rightarrow> envelope \<Rightarrow> cstate \<Rightarrow> nat" where
  "attempts env e s = (case entry (e_eventId e) (cn_groupId env) (fst s) of Some (st, n) \<Rightarrow> n | None \<Rightarrow> 0)"

definition retryable :: "'buf consumer_env \<Rightarrow> 'buf \<Rightarrow> envelope \<Rightarrow> nat \<Rightarrow> effect list \<Rightarrow> cstate \<Rightarrow> bool" where
  "retryable env v e k effs0 s \<longleftrightarrow>
     undisturbed env \<and> cn_deserialize env v = Inr e \<and> inbox_ok (fst s) \<and>
     k \<le> attempts env e s \<and> attempts env e s \<le> cn_retryLimit env \<and>
     claimable_at (entry (e_eventId e) (cn_groupId env) (fst s)) (attempts env e s) \<and>
     snd s = effs0 @ replicate (attempts env e s - k) (HandlerRun (e_eventId e))"

definition exhausted :: "'buf consumer_env \<Rightarrow> envelope \<Rightarrow> nat \<Rightarrow> effect list \<Rightarrow> cstate \<Rightarrow> bool" where
  "exhausted env e k effs0 s \<longleftrightarrow>
     (\<exists>x off. case dlq_result (attempt env (Some x)) e (cn_retryLimit env + 1) of
        None \<Rightarrow> entry (e_eventId e) (cn_groupId env) (fst s) = Some (I_DLQ_SENT, cn_retryLimit env + 1) \<and>
          snd s = effs0 @ replicate (cn_retryLimit env + 1 - k) (HandlerRun (e_eventId e))
                        @ [DlqPublished (e_eventId e), Committed (off + 1)]
      | Some derr \<Rightarrow> entry (e_eventId e) (cn_groupId env) (fst s) = Some (I_FAILED, cn_retryLimit env + 1) \<and>
          snd s = effs0 @ replicate (cn_retryLimit env + 1 - k) (HandlerRun (e_eventId e)))"

lemma failing_deliveries:
  "fold (failing_delivery env v) ds s = deliver_all env v (map (\<lambda>(x, off). (Some x, off)) ds) s"
  by (induction ds arbitrary: s) (auto simp: failing_delivery_def)

lemma failing_delivery_cases:
  assumes "retryable env v e k effs0 s" "attempts env e s = n" "failing_delivery env v (x, off) s = s'"
  shows "inbox_ok (fst s')" and "n < cn_retryLimit env \<Longrightarrow>
      entry (e_eventId e) (cn_groupId env) (fst s') = Some (I_RETRYING, n + 1) \<and>
      snd s' = effs0 @ replicate (n + 1 - k) (HandlerRun (e_eventId e))"
    and "n = cn_retryLimit env \<Longrightarrow>
      entry (e_eventId e) (cn_groupId env) (fst s') =
        Some (case dlq_result (attempt env (Some x)) e (n + 1) of None \<Rightarrow> I_DLQ_SENT | Some derr \<Rightarrow> I_FAILED, n + 1) \<and>
      snd s' = effs0 @ replicate (n + 1 - k) (HandlerRun (e_eventId e)) @
        (case dlq_result (attempt env (Some x)) e (n + 1) of
           None \<Rightarrow> [DlqPublished (e_eventId e), Committed (off + 1)] | Some derr \<Rightarrow> [])"
proof -
  obtain t where s: "s = (t, effs0 @ replicate (n - k) (HandlerRun (e_eventId e)))"
    using assms(1,2) by (cases s) (auto simp: retryable_def)
  have h: "undisturbed env" "cn_deserialize env v = Inr e" "inbox_ok t" "k \<le> n" "claimable_at (entry (e_eventId e) (cn_groupId env) t) n"
    using assms(1,2) s by (simp_all add: retryable_def)
  have n: "n = (case entry (e_eventId e) (cn_groupId env) t of Some (s, n) \<Rightarrow> n | None \<Rightarrow> 0)"
    using assms(2) s by (simp add: attempts_def)
  obtain st out where spec: "deliver_spec (cn_retryLimit env) (Some x) (dlq_result (attempt env (Some x)) e (n + 1))
      (entry (e_eventId e) (cn_groupId env) t) = (st, out)" by fastforce
  have run: "inbox_ok (fst s') \<and> entry (e_eventId e) (cn_groupId env) (fst s') = Some st \<and>
      snd s' = snd s @ outcome_effects (e_eventId e) (off + 1) out"
    by (rule deliver_one [OF h(1,3,2) refl n spec, of off "snd s"]) (use assms(3) s in \<open>auto simp: failing_delivery_def\<close>)
  then show "inbox_ok (fst s')" by simp
  have last: "replicate (n + 1 - k) (HandlerRun (e_eventId e)) = replicate (n - k) (HandlerRun (e_eventId e)) @ [HandlerRun (e_eventId e)]"
    using h(4) by (simp add: Suc_diff_le replicate_append_same)
  show "entry (e_eventId e) (cn_groupId env) (fst s') = Some (I_RETRYING, n + 1) \<and>
      snd s' = effs0 @ replicate (n + 1 - k) (HandlerRun (e_eventId e))" if "n < cn_retryLimit env"
    using run spec that unfolding last s by (simp add: deliver_claimable [OF h(5)]) auto
  show "entry (e_eventId e) (cn_groupId env) (fst s') =
        Some (case dlq_result (attempt env (Some x)) e (n + 1) of None \<Rightarrow> I_DLQ_SENT | Some derr \<Rightarrow> I_FAILED, n + 1) \<and>
      snd s' = effs0 @ replicate (n + 1 - k) (HandlerRun (e_eventId e)) @
        (case dlq_result (attempt env (Some x)) e (n + 1) of
           None \<Rightarrow> [DlqPublished (e_eventId e), Committed (off + 1)] | Some derr \<Rightarrow> [])" if "n = cn_retryLimit env"
    using run spec that unfolding last s
    by (cases "dlq_result (attempt env (Some x)) e (n + 1)") (auto simp: deliver_claimable [OF h(5)])
qed

interpretation ib_budget: retry_budget "attempts env e" "retryable env v e k effs0" "exhausted env e k effs0"
  "failing_delivery env v" "cn_retryLimit env + 1" for env v e k effs0
proof
  fix s and i :: "exn \<times> nat"
  assume live: "retryable env v e k effs0 s"
  obtain x off where i: "i = (x, off)" by fastforce
  note cases = failing_delivery_cases [OF live refl refl, of x off]
  have lim: "attempts env e s < cn_retryLimit env \<or> attempts env e s = cn_retryLimit env" "k \<le> attempts env e s"
    using live by (auto simp: retryable_def)
  then show count: "attempts env e (failing_delivery env v i s) = attempts env e s + 1"
    using cases(2,3) by (auto simp: attempts_def [of env e "failing_delivery env v (x, off) s"] i)
  show "retryable env v e k effs0 (failing_delivery env v i s)" if "attempts env e s + 1 < cn_retryLimit env + 1"
    using cases(1,2) that live count by (auto simp: retryable_def claimable_at_def i)
  show "exhausted env e k effs0 (failing_delivery env v i s)" if "cn_retryLimit env + 1 \<le> attempts env e s + 1"
    using cases(3) that lim unfolding exhausted_def i
    by (intro exI [of _ x] exI [of _ off]) (auto split: option.splits)
qed

text \<open>Failed attempts within the budget are retried, and count.\<close>

lemma failing_as_pairs:
  assumes "\<forall>d \<in> set ds. fst d \<noteq> None"
  shows "\<exists>ps. ds = map (\<lambda>(x, off). (Some x, off)) ps"
proof (rule exI)
  show "ds = map (\<lambda>(x, off). (Some x, off)) (map (\<lambda>d. (the (fst d), snd d)) ds)"
    using assms by (induction ds) auto
qed

lemma deliver_failing:
  assumes "undisturbed env" "cn_deserialize env v = Inr e" "\<forall>d \<in> set ds. fst d \<noteq> None"
    and "inbox_ok t" "claimable_at (entry (e_eventId e) (cn_groupId env) t) n" "n + length ds \<le> cn_retryLimit env"
  shows "\<exists>t'. deliver_all env v ds (t, effs) = (t', effs @ replicate (length ds) (HandlerRun (e_eventId e))) \<and> inbox_ok t' \<and>
    claimable_at (entry (e_eventId e) (cn_groupId env) t') (n + length ds)"
proof -
  obtain ps where ps: "ds = map (\<lambda>(x, off). (Some x, off)) ps" using failing_as_pairs [OF assms(3)] by blast
  have n: "attempts env e (t, effs) = n" using assms(5) by (auto simp: attempts_def claimable_at_def)
  then have "retryable env v e n effs (t, effs)" using assms by (simp add: retryable_def)
  then have "retryable env v e n effs (deliver_all env v ds (t, effs)) \<and> attempts env e (deliver_all env v ds (t, effs)) = n + length ds"
    using ib_budget.fails_live [of env v e n effs "(t, effs)" ps] assms(6) n
    by (simp add: failing_deliveries ps)
  then show ?thesis by (cases "deliver_all env v ds (t, effs)") (auto simp: retryable_def)
qed

text \<open>The delivery after the failed ones, and what comes after it when it finishes the event.\<close>

lemma deliver_next:
  assumes "undisturbed env" "cn_deserialize env v = Inr e" "\<forall>d \<in> set fs. fst d \<noteq> None"
    and "inbox_ok t" "claimable_at (entry (e_eventId e) (cn_groupId env) t) k" "k + length fs \<le> cn_retryLimit env"
    and "deliver_spec (cn_retryLimit env) h (dlq_result (attempt env h) e (k + length fs + 1)) (Some (I_RETRYING, k + length fs)) = (s', out)"
  shows "\<exists>t'. deliver_all env v (fs @ [(h, off)]) (t, effs) =
      (t', effs @ replicate (length fs) (HandlerRun (e_eventId e)) @ outcome_effects (e_eventId e) (off + 1) out) \<and>
    inbox_ok t' \<and> entry (e_eventId e) (cn_groupId env) t' = Some s'"
proof -
  let ?effs = "effs @ replicate (length fs) (HandlerRun (e_eventId e))"
  obtain t1 where t1: "deliver_all env v fs (t, effs) = (t1, ?effs)" "inbox_ok t1"
    "claimable_at (entry (e_eventId e) (cn_groupId env) t1) (k + length fs)"
    using deliver_failing [OF assms(1-6)] by blast
  let ?known = "entry (e_eventId e) (cn_groupId env) t1"
  have n: "k + length fs = (case ?known of Some (s, n) \<Rightarrow> n | None \<Rightarrow> 0)" using t1(3) by (auto simp: claimable_at_def)
  have "claimable_at (Some (I_RETRYING, k + length fs)) (k + length fs)" by (simp add: claimable_at_def)
  with assms(7) have spec: "deliver_spec (cn_retryLimit env) h (dlq_result (attempt env h) e (k + length fs + 1)) ?known = (s', out)"
    using deliver_claimable t1(3) by metis
  obtain t2 where "snd (eachMessage (attempt env h) \<lparr>mg_value = Some v, mg_offset = off\<rparr> (t1, ?effs)) =
      (t2, ?effs @ outcome_effects (e_eventId e) (Suc off) out)" "inbox_ok t2" "entry (e_eventId e) (cn_groupId env) t2 = Some s'"
    by (rule deliver_one [OF assms(1) t1(2) assms(2) refl n spec, of off ?effs]) simp
  then show ?thesis using t1(1) by (simp add: deliver_all_append)
qed

lemma deliver_ending:
  assumes "undisturbed env" "cn_deserialize env v = Inr e" "\<forall>d \<in> set fs. fst d \<noteq> None"
    and "inbox_ok t" "claimable_at (entry (e_eventId e) (cn_groupId env) t) k" "k + length fs \<le> cn_retryLimit env"
    and "deliver_spec (cn_retryLimit env) h (dlq_result (attempt env h) e (k + length fs + 1)) (Some (I_RETRYING, k + length fs)) = ((s, n), out)"
    and "s \<in> {I_PROCESSED, I_DLQ_SENT}"
  shows "\<exists>t'. deliver_all env v (fs @ (h, off) # rest) (t, []) =
      (t', replicate (length fs) (HandlerRun (e_eventId e)) @ outcome_effects (e_eventId e) (off + 1) out
           @ map (\<lambda>d. Committed (snd d + 1)) rest) \<and>
    entry (e_eventId e) (cn_groupId env) t' = Some (s, n)"
proof -
  obtain t1 where t1: "deliver_all env v (fs @ [(h, off)]) (t, []) =
      (t1, replicate (length fs) (HandlerRun (e_eventId e)) @ outcome_effects (e_eventId e) (off + 1) out)" "inbox_ok t1"
    "entry (e_eventId e) (cn_groupId env) t1 = Some (s, n)"
    using deliver_next [OF assms(1-7), of off "[]"] by auto
  have "deliver_all env v (fs @ (h, off) # rest) (t, []) = deliver_all env v rest (deliver_all env v (fs @ [(h, off)]) (t, []))"
    using deliver_all_append [of env v "fs @ [(h, off)]" rest] by simp
  then show ?thesis
    using deliver_finished [OF assms(1,2,8) t1(2,3), of rest
        "replicate (length fs) (HandlerRun (e_eventId e)) @ outcome_effects (e_eventId e) (off + 1) out"] t1(1)
    by auto
qed

section \<open>Properties\<close>

text \<open>
  C12. No event is acknowledged before it is finished: whatever errors strike and whatever other workers
  do to the inbox at any await of the delivery, it commits an offset only on a normal return, as its very
  last effect, once, the offset after the message's own, and the event's row was \<open>PROCESSED\<close> or \<open>DLQ_SENT\<close>
  when the delivery last wrote or read it, right before the commit: the delivery made the same effects and
  left just that table \<open>t1\<close>, or what the others make of it, whatever these do during the commit.
\<close>

theorem commit_only_finished:
  assumes "eachMessage env msg (t, []) = (r, (t', effs))" "Committed n \<in> set effs"
  shows "r = Inr () \<and> n = mg_offset msg + 1 \<and> (\<exists>earlier. effs = earlier @ [Committed n] \<and> commits earlier = []) \<and>
    (\<exists>v e t1. mg_value msg = Some v \<and> cn_deserialize env v = Inr e \<and> finished env e t1 \<and> t' = cn_between env P_commit t1 \<and>
       (\<forall>g. eachMessage (env\<lparr>cn_between := (cn_between env)(P_commit := g)\<rparr>) msg (t, []) = (Inr (), (g t1, effs))))"
proof -
  have c: "commits effs \<noteq> []" using assms(2) by (induction effs) (auto simp: commits_def map_filter_def)
  obtain v where v: "mg_value msg = Some v"
    using assms(1) c by (cases "mg_value msg") (auto simp: eachMessage_def)
  obtain e where e: "cn_deserialize env v = Inr e"
    using assms(1) c v by (cases "cn_deserialize env v") (auto simp: eachMessage_def)
  have each: "eachMessage (during_commit env g) msg = process_envelope (during_commit env g) msg e" for g
    using v e by (simp add: eachMessage_def)
  have run: "process_envelope env msg e (t, []) = (r, (t', effs))" using assms(1) v e by (simp add: eachMessage_def)
  have "case r of Inr x \<Rightarrow> settled env e [] (Suc (mg_offset msg)) (t', effs) | Inl x \<Rightarrow> commits effs = []"
    using validD [OF valid_process_envelope _ run, of "[]"] by (simp split: sum.splits)
  then have r: "r = Inr ()" "settled env e [] (Suc (mg_offset msg)) (t', effs)" using c by (auto split: sum.splits)
  then obtain earlier where d: "effs = earlier @ [Committed (Suc (mg_offset msg))]" "commits earlier = []"
    by (auto simp: settled_def)
  have "n \<in> set (commits effs)"
    using assms(2) by (induction effs) (auto simp: commits_def map_filter_def split: effect.splits)
  with d have n: "n = Suc (mg_offset msg)" by simp
  have "cn_fault env P_commit = None" using r(2) by (auto simp: settled_def)
  from committing_process [OF this] have "committing (\<lambda>g. process_envelope (during_commit env g) msg e)" .
  note same = committingD [OF this, where s = "(t, [])"]
  let ?calm = "during_commit env (\<lambda>t. t)"
  obtain t1 where t1: "process_envelope ?calm msg e (t, []) = (Inr (), (t1, effs))" "t' = cn_between env P_commit t1"
    using same [of "cn_between env P_commit"] run r(1) by (auto split: sum.splits prod.splits)
  have "settled ?calm e [] (Suc (mg_offset msg)) (t1, effs)"
    using validD [OF valid_process_envelope _ t1(1), of "[]"] by simp
  then have "finished env e t1" by (auto simp: settled_def)
  moreover have "eachMessage (during_commit env g) msg (t, []) = (Inr (), (g t1, effs))" for g
    using same [of g] t1(1) by (simp add: each)
  ultimately show ?thesis using r(1) n d v e t1(2) unfolding during_commit_def by auto
qed

definition calm_env :: "json consumer_env" where
  "calm_env = \<lparr>cn_groupId = ''orders'', cn_retryLimit = 3, cn_now = 9, cn_uuid = ''u1'', cn_iso = ''t'',
     cn_reason = (\<lambda>x. ''failed''), cn_deserialize = (\<lambda>j. Inr (as_envelope j)), cn_publish = (\<lambda>topic k ev. Inr []),
     cn_fault = (\<lambda>pt. None), cn_between = (\<lambda>pt t. t)\<rparr>"

definition sample_msg :: "json message" where
  "sample_msg = \<lparr>mg_value = Some (envelope_json sample_envelope), mg_offset = 41\<rparr>"

lemma calm_undisturbed: "undisturbed calm_env"
  by (simp add: undisturbed_def calm_env_def)

lemma calm_simps:
  "mg_value sample_msg = Some (envelope_json sample_envelope)" "mg_offset sample_msg = 41"
  "cn_deserialize calm_env j = Inr (as_envelope j)" "cn_groupId calm_env = ''orders''" "cn_retryLimit calm_env = 3"
  "cn_fault calm_env pt = None" "e_eventId sample_envelope = ''e1''" "entry i c [] = None"
  by (simp_all add: sample_msg_def calm_env_def sample_envelope_def entry_def findByEventIdAndConsumer_def)

lemma calm_run:
  "\<exists>t'. eachMessage calm_env sample_msg ([], []) = (Inr (), (t', [HandlerRun ''e1'', Committed 42]))"
proof -
  have "process_envelope calm_env sample_msg sample_envelope = eachMessage calm_env sample_msg"
    by (simp add: eachMessage_def sample_msg_def calm_env_def as_envelope_sample fun_eq_iff)
  moreover have "e_eventId sample_envelope = ''e1''" by (simp add: sample_envelope_def)
  ultimately show ?thesis
    using process_envelope_implements [OF calm_undisturbed, where t = "[]" and e = sample_envelope and msg = sample_msg and n = 0]
    by (auto simp: implements_def entry_def findByEventIdAndConsumer_def deliver_spec_def calm_env_def sample_msg_def
        dest!: spec [of _ "[]"])
qed

theorem commit_only_finished_witness:
  "\<exists>t' e. cn_deserialize calm_env (envelope_json sample_envelope) = Inr e \<and> finished calm_env e t' \<and>
     mg_offset sample_msg + 1 = 42"
proof -
  obtain t' where t': "eachMessage calm_env sample_msg ([], []) = (Inr (), (t', [HandlerRun ''e1'', Committed 42]))"
    using calm_run by blast
  from commit_only_finished [OF t', of 42] show ?thesis by (auto simp: sample_msg_def)
qed

text \<open>
  C13. Refinement: with no other worker interfering and no error but the handler's and the dead
  letter queue's, a delivery returns or throws, makes exactly the effects, in order, and leaves the
  event's entry exactly as \<open>deliver_spec\<close> says; a tombstone does nothing, and a message that does
  not deserialize throws and changes nothing, however often it is delivered.
\<close>

theorem delivery_refines:
  assumes "undisturbed env" "inbox_ok t"
  shows "case mg_value msg of
      None \<Rightarrow> eachMessage env msg (t, effs) = (Inr (), (t, effs))
    | Some v \<Rightarrow> (case cn_deserialize env v of
        Inl x \<Rightarrow> eachMessage env msg (t, effs) = (Inl x, (t, effs))
      | Inr e \<Rightarrow>
          (let known = entry (e_eventId e) (cn_groupId env) t;
               n = (case known of Some (s, n) \<Rightarrow> n | None \<Rightarrow> 0);
               (s', out) = deliver_spec (cn_retryLimit env) (cn_fault env P_handle) (dlq_result env e (n + 1)) known
           in \<exists>t'. eachMessage env msg (t, effs) =
                (outcome_result env e out, (t', effs @ outcome_effects (e_eventId e) (mg_offset msg + 1) out)) \<and>
                inbox_ok t' \<and> entry (e_eventId e) (cn_groupId env) t' = Some s'))"
proof (cases "mg_value msg")
  case None
  then show ?thesis by (simp add: eachMessage_def)
next
  case (Some v)
  show ?thesis
  proof (cases "cn_deserialize env v")
    case (Inl x)
    with Some show ?thesis by (simp add: eachMessage_def)
  next
    case (Inr e)
    then have "eachMessage env msg (t, effs) = process_envelope env msg e (t, effs)"
      using Some by (simp add: eachMessage_def)
    then show ?thesis
      using process_envelope_implements [OF assms refl, where e = e and msg = msg] Some Inr
      by (auto simp: implements_def Let_def split: prod.splits)
  qed
qed

theorem delivery_refines_witness:
  "\<exists>t'. eachMessage calm_env sample_msg ([], []) = (Inr (), (t', [HandlerRun ''e1'', Committed 42])) \<and>
     entry ''e1'' ''orders'' t' = Some (I_PROCESSED, 0)"
  using delivery_refines [OF calm_undisturbed, of "[]" sample_msg "[]"]
  by (auto simp: calm_simps as_envelope_sample deliver_spec_def)

text \<open>
  C34. How often a handler may fail, over the deliveries of one message when no other worker and no error
  but the handler's and the dead letter queue's interferes. An event found with \<open>k\<close> failures so far is left
  to be retried, and nothing is acknowledged, by each of its failures up to \<open>consumerRetryLimit\<close>; the next one
  publishes its dead letter, marks it \<open>DLQ_SENT\<close> and commits, or, when the publication fails, leaves it
  \<open>FAILED\<close> and unacknowledged. An event \<open>PROCESSED\<close> or \<open>DLQ_SENT\<close> is only acknowledged ever after. And an
  event left \<open>PROCESSING\<close> by a crash is never processed again: each delivery throws and leaves it as it is.
\<close>

theorem consumer_retry_bound:
  assumes "undisturbed env" "inbox_ok t" "cn_deserialize env v = Inr e"
    and "known = entry (e_eventId e) (cn_groupId env) t"
  shows "(\<forall>fs k. claimable_at known k \<longrightarrow> (\<forall>d \<in> set fs. fst d \<noteq> None) \<longrightarrow> k + length fs \<le> cn_retryLimit env \<longrightarrow>
      (\<exists>t'. deliver_all env v fs (t, []) = (t', replicate (length fs) (HandlerRun (e_eventId e))) \<and>
         claimable_at (entry (e_eventId e) (cn_groupId env) t') (k + length fs)))
    \<and> (\<forall>fs k x off. claimable_at known k \<longrightarrow> (\<forall>d \<in> set fs. fst d \<noteq> None) \<longrightarrow> k + length fs = cn_retryLimit env \<longrightarrow>
      (\<exists>t'. (case dlq_result (attempt env (Some x)) e (cn_retryLimit env + 1) of
          None \<Rightarrow> deliver_all env v (fs @ [(Some x, off)]) (t, []) =
              (t', replicate (length fs + 1) (HandlerRun (e_eventId e)) @ [DlqPublished (e_eventId e), Committed (off + 1)]) \<and>
            entry (e_eventId e) (cn_groupId env) t' = Some (I_DLQ_SENT, cn_retryLimit env + 1)
        | Some derr \<Rightarrow> deliver_all env v (fs @ [(Some x, off)]) (t, []) =
              (t', replicate (length fs + 1) (HandlerRun (e_eventId e))) \<and>
            entry (e_eventId e) (cn_groupId env) t' = Some (I_FAILED, cn_retryLimit env + 1))))
    \<and> (\<forall>s n ds. known = Some (s, n) \<longrightarrow> s \<in> {I_PROCESSED, I_DLQ_SENT} \<longrightarrow>
      (\<exists>t'. deliver_all env v ds (t, []) = (t', map (\<lambda>d. Committed (snd d + 1)) ds) \<and>
         entry (e_eventId e) (cn_groupId env) t' = Some (s, n)))
    \<and> (\<forall>n ds h off. known = Some (I_PROCESSING, n) \<longrightarrow>
      (\<exists>t'. deliver_all env v ds (t, []) = (t', []) \<and> entry (e_eventId e) (cn_groupId env) t' = Some (I_PROCESSING, n) \<and>
         fst (eachMessage (attempt env h) \<lparr>mg_value = Some v, mg_offset = off\<rparr> (t', [])) =
           Inl (EventProcessingInProgressException (e_eventId e) (cn_groupId env))))"
proof (intro conjI allI impI)
  fix fs :: "(exn option \<times> nat) list" and k x off
  assume h: "claimable_at known k" "\<forall>d \<in> set fs. fst d \<noteq> None"
  show "\<exists>t'. deliver_all env v fs (t, []) = (t', replicate (length fs) (HandlerRun (e_eventId e))) \<and>
      claimable_at (entry (e_eventId e) (cn_groupId env) t') (k + length fs)" if "k + length fs \<le> cn_retryLimit env"
    using deliver_failing [OF assms(1,3) h(2) assms(2) h(1) [unfolded assms(4)] that, of "[]"] by auto
  assume lim: "k + length fs = cn_retryLimit env"
  let ?d = "dlq_result (attempt env (Some x)) e (cn_retryLimit env + 1)"
  have "deliver_spec (cn_retryLimit env) (Some x) (dlq_result (attempt env (Some x)) e (k + length fs + 1)) (Some (I_RETRYING, k + length fs)) =
      (case ?d of None \<Rightarrow> ((I_DLQ_SENT, cn_retryLimit env + 1), Dead) | Some derr \<Rightarrow> ((I_FAILED, cn_retryLimit env + 1), DlqFailed derr))"
    by (simp add: deliver_spec_def lim Let_def)
  then show "\<exists>t'. case ?d of
          None \<Rightarrow> deliver_all env v (fs @ [(Some x, off)]) (t, []) =
              (t', replicate (length fs + 1) (HandlerRun (e_eventId e)) @ [DlqPublished (e_eventId e), Committed (off + 1)]) \<and>
            entry (e_eventId e) (cn_groupId env) t' = Some (I_DLQ_SENT, cn_retryLimit env + 1)
        | Some derr \<Rightarrow> deliver_all env v (fs @ [(Some x, off)]) (t, []) =
              (t', replicate (length fs + 1) (HandlerRun (e_eventId e))) \<and>
            entry (e_eventId e) (cn_groupId env) t' = Some (I_FAILED, cn_retryLimit env + 1)"
    using deliver_next [OF assms(1,3) h(2) assms(2) h(1) [unfolded assms(4)], of "Some x" _ _ off "[]"] lim
    by (cases ?d) (auto simp: replicate_app_Cons_same simp flip: replicate_Suc)
next
  fix s n ds
  assume "known = Some (s, n)" "s \<in> {I_PROCESSED, I_DLQ_SENT}"
  then show "\<exists>t'. deliver_all env v ds (t, []) = (t', map (\<lambda>d. Committed (snd d + 1)) ds) \<and>
      entry (e_eventId e) (cn_groupId env) t' = Some (s, n)"
    using deliver_finished [OF assms(1,3) _ assms(2), of s n ds "[]"] assms(4) by auto
next
  fix n ds h off
  assume known: "known = Some (I_PROCESSING, n)"
  obtain t' where t': "deliver_all env v ds (t, []) = (t', [])" "inbox_ok t'" "entry (e_eventId e) (cn_groupId env) t' = Some (I_PROCESSING, n)"
    using deliver_in_progress(1) [OF assms(1,3,2) known [unfolded assms(4)], of ds "[]"] by blast
  then show "\<exists>t'. deliver_all env v ds (t, []) = (t', []) \<and> entry (e_eventId e) (cn_groupId env) t' = Some (I_PROCESSING, n) \<and>
      fst (eachMessage (attempt env h) \<lparr>mg_value = Some v, mg_offset = off\<rparr> (t', [])) =
        Inl (EventProcessingInProgressException (e_eventId e) (cn_groupId env))"
    using deliver_in_progress(2) [OF assms(1,3) t'(2,3)] by blast
qed

theorem consumer_retry_bound_witness:
  "\<exists>t'. deliver_all calm_env (envelope_json sample_envelope) [(Some P2025, 4), (Some P2025, 4), (Some P2025, 5), (Some P2025, 5)] ([], [])
      = (t', [HandlerRun ''e1'', HandlerRun ''e1'', HandlerRun ''e1'', HandlerRun ''e1'', DlqPublished ''e1'', Committed 6]) \<and>
    entry ''e1'' ''orders'' t' = Some (I_DLQ_SENT, 4)"
proof -
  let ?fs = "[(Some P2025, 4), (Some P2025, 4), (Some P2025, 5)] :: (exn option \<times> nat) list"
  have des: "cn_deserialize calm_env (envelope_json sample_envelope) = Inr sample_envelope"
    by (simp add: calm_simps as_envelope_sample)
  have k: "claimable_at (entry (e_eventId sample_envelope) (cn_groupId calm_env) []) 0"
    by (simp add: calm_simps claimable_at_def)
  have d: "dlq_result (attempt calm_env (Some P2025)) sample_envelope (cn_retryLimit calm_env + 1) = None"
    by (simp add: dlq_result_def calm_env_def)
  have fs: "\<forall>d \<in> set ?fs. fst d \<noteq> None" "0 + length ?fs = cn_retryLimit calm_env" "inbox_ok []" by (simp_all add: calm_simps)
  from consumer_retry_bound [OF calm_undisturbed fs(3) des refl, THEN conjunct2, THEN conjunct1, rule_format, OF k _ fs(2), of P2025 5] fs(1) d
  have "\<exists>t'. deliver_all calm_env (envelope_json sample_envelope) (?fs @ [(Some P2025, 5)]) ([], []) =
        (t', replicate (length ?fs + 1) (HandlerRun (e_eventId sample_envelope)) @ [DlqPublished (e_eventId sample_envelope), Committed (5 + 1)]) \<and>
      entry (e_eventId sample_envelope) (cn_groupId calm_env) t' = Some (I_DLQ_SENT, cn_retryLimit calm_env + 1)"
    by simp
  then show ?thesis by (simp add: calm_simps numeral_eq_Suc)
qed

text \<open>
  Processing is not exactly-once: when only the offset commit after a successful handler fails,
  the event just marked \<open>PROCESSED\<close> goes back to \<open>RETRYING\<close> (while its retries last), and the
  redelivery runs the handler a second time.
\<close>

theorem commit_failure_reruns:
  assumes "\<forall>pt t. cn_between env pt t = t" "\<forall>pt. pt \<noteq> P_commit \<longrightarrow> cn_fault env pt = None"
    and "cn_fault env P_commit = Some x" "inbox_ok t" "entry (e_eventId e) (cn_groupId env) t = Some (I_PROCESSING, n)"
    and "n + 1 \<le> cn_retryLimit env"
  shows "\<exists>t'. run_handler env msg e (t, effs) = (Inl x, (t', effs @ [HandlerRun (e_eventId e)])) \<and>
      entry (e_eventId e) (cn_groupId env) t' = Some (I_RETRYING, n + 1) \<and>
      snd (deliver_spec (cn_retryLimit env) None None (entry (e_eventId e) (cn_groupId env) t')) = Done"
proof -
  have db: "db_call env pt f (t, effs) = (case f t of Inl e \<Rightarrow> (Inl e, (t, effs)) | Inr (y, t') \<Rightarrow> (Inr y, (t', effs)))"
    if "pt \<noteq> P_commit" for pt t effs and f :: "inbox \<Rightarrow> exn + 'c \<times> inbox"
    using assms(1,2) that by (simp add: db_call_def Let_def split: sum.split prod.split)
  let ?effs = "effs @ [HandlerRun (e_eventId e)]"
  obtain r1 t1 where u1: "updateStatus (cn_now env) (e_eventId e) (cn_groupId env) I_PROCESSED None t = Inr (r1, t1)"
      "inbox_ok t1" "entry (e_eventId e) (cn_groupId env) t1 = Some (I_PROCESSED, n)"
    using updateStatus_spec [where now = "cn_now env" and i = "e_eventId e" and c = "cn_groupId env" and s = I_PROCESSED and rc = None and t = t] assms(4,5)
    by (auto split: sum.splits)
  obtain r2 t2 where u2: "updateStatus (cn_now env) (e_eventId e) (cn_groupId env) I_RETRYING (Some (n + 1)) t1 = Inr (r2, t2)"
      "entry (e_eventId e) (cn_groupId env) t2 = Some (I_RETRYING, n + 1)"
    using updateStatus_spec [where now = "cn_now env" and i = "e_eventId e" and c = "cn_groupId env" and s = I_RETRYING and rc = "Some (n + 1)" and t = t1] u1(2,3)
    by (auto split: sum.splits)
  obtain r where r: "findByEventIdAndConsumer (e_eventId e) (cn_groupId env) t1 = Some r" "ib_retryCount r = n"
    using u1(3) by (auto simp: entry_def)
  have fault: "cn_fault env P_handle = None" using assms(2) by simp
  have upd: "p_update env P_processed e I_PROCESSED None (t, ?effs) = (Inr r1, (t1, ?effs))"
    "p_update env P_retrying e I_RETRYING (Some (n + 1)) (t1, ?effs) = (Inr r2, (t2, ?effs))"
    unfolding p_update_def using assms(1,2) u1(1) u2(1) by (simp_all add: db_call_def)
  have fnd: "p_find env P_lookup e (t1, ?effs) = (Inr (Some r), (t1, ?effs))"
    unfolding p_find_def using assms(1,2) r(1) by (simp add: db_call_def)
  have "pbind (p_handle env e) (\<lambda>_. pbind (p_update env P_processed e I_PROCESSED None) (\<lambda>_. p_commit env msg)) (t, effs)
      = (Inl x, (t1, ?effs))"
    using upd(1) assms(1,3) by (simp add: handle_apply fault p_commit_def)
  then have "run_handler env msg e (t, effs) = handler_failed env msg e x (t1, ?effs)" by (simp add: run_handler_def)
  also have "\<dots> = (Inl x, (t2, ?effs))"
    using fnd r(2) assms(6) upd(2) by (simp add: handler_failed_def Let_def)
  finally show ?thesis using u2(2) by (simp add: deliver_spec_def)
qed

definition processing_inbox :: inbox where
  "processing_inbox = [\<lparr>ib_id = ''u1'', ib_eventId = ''e1'', ib_consumer = ''orders'', ib_status = I_PROCESSING,
     ib_payload = JNull, ib_receivedAt = 1, ib_processedAt = None, ib_retryCount = 0, ib_eventType = ''PaymentInitiated'',
     ib_correlationId = ''c1'', ib_causationId = ''r1'', ib_sagaId = ''c1'', ib_timestamp = ''t'', ib_version = Fin 1\<rparr>]"

theorem commit_failure_reruns_witness:
  "\<exists>t'. run_handler (calm_env\<lparr>cn_fault := (\<lambda>pt. None)(P_commit \<mapsto> P2025)\<rparr>) sample_msg sample_envelope (processing_inbox, [])
      = (Inl P2025, (t', [HandlerRun ''e1''])) \<and> entry ''e1'' ''orders'' t' = Some (I_RETRYING, 1)"
  using commit_failure_reruns [of "calm_env\<lparr>cn_fault := (\<lambda>pt. None)(P_commit \<mapsto> P2025)\<rparr>" P2025 processing_inbox sample_envelope 0 sample_msg "[]"]
  by (auto simp: calm_env_def processing_inbox_def entry_def findByEventIdAndConsumer_def ib_key_def sample_envelope_def)

text \<open>
  A replayed dead letter is not processed: the replayer reports success once the broker has the
  original event again, but it leaves the inbox alone, so the consumer that sent the event to the
  dead letter queue skips it as a duplicate; it would run the handler only after \<open>prepareForReplay\<close>.
\<close>

theorem replay_is_skipped:
  assumes "jget record ''originalEvent'' = Some ev" "truthy ev" "rt ev = Inr e" "TOPIC_REGISTRY (e_eventType e) = Some topic"
    and "publish topic (e_eventId e) (envelope_json e) = Inr m"
    and "undisturbed env" "inbox_ok t" "entry (e_eventId e) (cn_groupId env) t = Some (I_DLQ_SENT, n)"
  shows "replay rt publish reason record = (True, None) \<and>
    (\<exists>t'. process_envelope env msg e (t, effs) = (Inr (), (t', effs @ [Committed (mg_offset msg + 1)]))) \<and>
    (cn_fault env P_handle = None \<longrightarrow>
       (\<exists>t'. process_envelope env msg e (snd (prepareForReplay (e_eventId e) (cn_groupId env) t), effs)
          = (Inr (), (t', effs @ [HandlerRun (e_eventId e), Committed (mg_offset msg + 1)]))))"
proof -
  obtain ok t1 where pr: "prepareForReplay (e_eventId e) (cn_groupId env) t = (ok, t1)" by fastforce
  have t1: "entry (e_eventId e) (cn_groupId env) t1 = Some (I_RETRYING, 0)"
    using prepareForReplay_spec [OF assms(7) pr] assms(8) by simp
  have "inbox_ok t1" using assms(7) pr by (auto simp: prepareForReplay_def Let_def map_tbl_upd)
  then have p1: "implements env msg e 0 (Some (I_RETRYING, 0)) (process_envelope env msg e) t1"
    using process_envelope_implements [OF assms(6) _ refl, where t = t1 and e = e and msg = msg] t1 by simp
  have p2: "implements env msg e n (Some (I_DLQ_SENT, n)) (process_envelope env msg e) t"
    using process_envelope_implements [OF assms(6,7) refl, where e = e and msg = msg] assms(8) by simp
  have "\<exists>t'. process_envelope env msg e (t, effs) = (Inr (), (t', effs @ [Committed (mg_offset msg + 1)]))"
    using p2 by (auto simp: implements_def deliver_spec_def)
  moreover have "cn_fault env P_handle = None \<Longrightarrow>
       \<exists>t'. process_envelope env msg e (t1, effs) = (Inr (), (t', effs @ [HandlerRun (e_eventId e), Committed (mg_offset msg + 1)]))"
    using p1 by (auto simp: implements_def deliver_spec_def)
  ultimately show ?thesis using assms(1-5) pr by (simp add: replay_def)
qed

theorem replay_is_skipped_witness:
  "\<exists>t'. process_envelope calm_env sample_msg sample_envelope
       (map (\<lambda>r. r\<lparr>ib_status := I_DLQ_SENT\<rparr>) processing_inbox, []) = (Inr (), (t', [Committed 42]))"
proof -
  let ?t = "map (\<lambda>r. r\<lparr>ib_status := I_DLQ_SENT\<rparr>) processing_inbox"
  have h: "jget (JObj [(''originalEvent'', envelope_json sample_envelope)]) ''originalEvent'' = Some (envelope_json sample_envelope)"
      "truthy (envelope_json sample_envelope)" "(\<lambda>j. Inr sample_envelope :: exn + envelope) (envelope_json sample_envelope) = Inr sample_envelope"
      "TOPIC_REGISTRY (e_eventType sample_envelope) = Some ''payments.initiated''"
      "(\<lambda>topic k ev. Inr [] :: exn + record_metadata list) ''payments.initiated'' (e_eventId sample_envelope) (envelope_json sample_envelope) = Inr []"
    by (simp_all add: envelope_json_def TOPIC_REGISTRY_def sample_envelope_def)
  have t: "inbox_ok ?t" "entry (e_eventId sample_envelope) (cn_groupId calm_env) ?t = Some (I_DLQ_SENT, 0)"
    by (simp_all add: processing_inbox_def entry_def findByEventIdAndConsumer_def ib_key_def sample_envelope_def calm_env_def)
  from replay_is_skipped [OF h calm_undisturbed t, of "\<lambda>x. ''r''" sample_msg "[]"] show ?thesis
    by (simp add: sample_msg_def)
qed

end
