(* ===== verification/Services.thy ===== *)
theory Services
  imports PaymentService Orders Fraud
begin

text \<open>
  The services put together: how a controller's result becomes an HTTP answer (\<open>createErrorResponse\<close>
  and the exception filter), the clients \<open>ServiceClient\<close> builds, and the order and fraud services as
  the servers the payment service talks to, so that \<open>createPayment\<close> runs against their models rather
  than against arbitrary answers. \<open>service_env\<close> holds the JavaScript runtime, the tracing headers
  injected, the clock's timestamp, class-validator's \<open>IsUUID\<close> and the details of its errors.
\<close>

section \<open>Answers on the wire\<close>

record service_env =
  se_js :: js_env
  se_inject :: "headers \<Rightarrow> headers"
  se_timestamp :: string
  se_is_uuid :: "string \<Rightarrow> bool"
  se_is_uuid4 :: "string \<Rightarrow> bool"
  se_details :: json
  se_ids :: "string option \<times> string option"

text \<open>A template literal: its values are printed as \<open>String(v)\<close> prints them.\<close>

fun frag_text :: "js_env \<Rightarrow> frag \<Rightarrow> string" where
  "frag_text env (Lit s) = s"
| "frag_text env (Num q) = je_string env (JNum (Fin q))"
| "frag_text env (Val v) = je_string env v"

definition message_text :: "js_env \<Rightarrow> frag list \<Rightarrow> string" where
  "message_text env fs = concat (map (frag_text env) fs)"

definition json_prop :: "string \<Rightarrow> json option \<Rightarrow> (string \<times> json) list" where
  "json_prop k v = (case v of None \<Rightarrow> [] | Some x \<Rightarrow> [(k, x)])"

definition error_json :: "service_env \<Rightarrow> api_error \<Rightarrow> json" where
  "error_json env a = JObj
     [(''success'', JBool (ae_success a)),
      (''error'', JObj
        ([(''code'', JStr (ae_code a)), (''message'', JStr (message_text (se_js env) (ae_message a))),
          (''status'', jnat (ae_status a)), (''timestamp'', JStr (se_timestamp env)), (''path'', JStr (ae_path a))]
         @ opt_prop ''correlationId'' (ae_correlationId a) @ opt_prop ''requestId'' (ae_requestId a)
         @ json_prop ''validationErrors'' (ae_validationErrors a) @ json_prop ''metadata'' (ae_metadata a)))]"

definition createSuccessResponse :: "json \<Rightarrow> json" where
  "createSuccessResponse data = JObj [(''success'', JBool True), (''data'', data)]"

text \<open>A handler's result as the status and body sent: the exception filter answers what was thrown.\<close>

definition respond :: "service_env \<Rightarrow> string \<Rightarrow> nat \<Rightarrow> exn + json \<Rightarrow> nat \<times> json" where
  "respond env url ok r =
     (case r of
        Inr body \<Rightarrow> (ok, body)
      | Inl e \<Rightarrow> (let (status, a) = filter_catch e url (se_ids env) (None, None) in (status, error_json env a)))"

text \<open>What axios makes of an answer: a status outside 200 to 299 is an error with a response.\<close>

definition serve :: "(http_request \<Rightarrow> nat \<times> json) \<Rightarrow> http_request \<Rightarrow> nat \<Rightarrow> failure + json" where
  "serve srv rq k =
     (let (status, body) = srv rq
      in if 200 \<le> status \<and> status < 300 then Inr body else Inl (AxiosResponse status body))"

section \<open>\<open>AppValidationPipe\<close>\<close>

text \<open>An error of class-validator: property, value, failed constraints, errors of nested properties.\<close>

datatype cv_error = CvError (cv_property: string) (cv_value: "json option") (cv_constraints: "(string \<times> string) list")
  (cv_children: "cv_error list")

fun parseError :: "cv_error \<Rightarrow> json list" where
  "parseError (CvError prp v cs children) =
     map (\<lambda>(rule, message). JObj [(''field'', JStr prp),
            (''rejectedValue'', case v of Some x \<Rightarrow> x | None \<Rightarrow> JNull),
            (''rule'', JStr rule), (''message'', JStr message)]) cs
     @ concat (map parseError children)"

definition exceptionFactory :: "cv_error list \<Rightarrow> exn" where
  "exceptionFactory errors = ValidationError [Lit ''Validation failed''] (Some (JArr (concat (map parseError errors))))"

definition validation_failed :: "service_env \<Rightarrow> exn" where
  "validation_failed env = ValidationError [Lit ''Validation failed''] (Some (se_details env))"

section \<open>\<open>ServiceClient\<close>\<close>

record client_settings =
  st_services :: services_config
  st_timeout :: nat
  st_retries :: nat
  st_retryDelay :: nat

definition buildClient :: "client_settings \<Rightarrow> InternalService \<Rightarrow> exn + http_client" where
  "buildClient st service =
     rbind (registry_resolve (st_services st) service) (\<lambda>baseURL.
       Inr \<lparr>hc_serviceName = service_name service, hc_baseURL = baseURL, hc_timeout = st_timeout st,
            hc_retries = st_retries st, hc_retryDelay = st_retryDelay st\<rparr>)"

definition ServiceClient :: "client_settings \<Rightarrow> exn + http_client list" where
  "ServiceClient st = rmap (buildClient st) [GATEWAY, MERCHANT, PAYMENT, ORDER, LEDGER, BALANCE, NOTIFICATION, FRAUD]"

section \<open>The order and fraud services as servers\<close>

text \<open>The body of a request as the DTO of the endpoint; \<open>None\<close> for a missing or unknown property or a wrong type.\<close>

definition as_order_request :: "json \<Rightarrow> order_request option" where
  "as_order_request b =
     (if \<not> only_props [''merchantId'', ''reference'', ''amount'', ''currency''] b then None
      else case (jget b ''merchantId'', jget b ''reference'', jget b ''amount'', jget b ''currency'') of
             (Some (JStr m), Some (JStr r), Some (JNum a), Some (JStr c)) \<Rightarrow>
               Some \<lparr>or_merchantId = m, or_reference = r, or_amount = a, or_currency = c\<rparr>
           | _ \<Rightarrow> None)"

definition as_precheck_body :: "json \<Rightarrow> precheck_body option" where
  "as_precheck_body b =
     (if \<not> only_props [''merchantId'', ''amount'', ''currency''] b then None
      else case (jget b ''merchantId'', jget b ''amount'', jget b ''currency'') of
             (Some (JStr m), Some (JNum a), Some (JStr c)) \<Rightarrow>
               Some \<lparr>pb_merchantId = m, pb_amount = a, pb_currency = c\<rparr>
           | _ \<Rightarrow> None)"

definition request_body :: "http_request \<Rightarrow> json" where
  "request_body rq = (case hr_data rq of Some b \<Rightarrow> b | None \<Rightarrow> JObj [])"

definition order_server :: "service_env \<Rightarrow> order list \<Rightarrow> http_request \<Rightarrow> nat \<times> json" where
  "order_server env os rq = respond env (hr_url rq) 200
     (case as_order_request (request_body rq) of
        None \<Rightarrow> Inl (validation_failed env)
      | Some b \<Rightarrow> rbind (OrderController_validateOrder (se_is_uuid env) (validation_failed env) os b) (\<lambda>ps. Inr (JObj ps)))"

definition precheck_json :: "precheck_response \<Rightarrow> json" where
  "precheck_json p = JObj [(''approved'', JBool (ps_approved p)), (''riskScore'', JNum (Fin (ps_riskScore p)))]"

definition fraud_server :: "service_env \<Rightarrow> fraud_config \<Rightarrow> http_request \<Rightarrow> nat \<times> json" where
  "fraud_server env cfg rq = respond env (hr_url rq) 200
     (case as_precheck_body (request_body rq) of
        None \<Rightarrow> Inl (validation_failed env)
      | Some b \<Rightarrow> rbind (FraudController_precheck (se_is_uuid4 env) (validation_failed env) (FRAUD_RULES cfg) b)
                    (\<lambda>p. Inr (precheck_json p)))"

section \<open>The calls of the payment service\<close>

text \<open>Both calls set a timeout of two seconds and nothing else.\<close>

definition two_seconds :: call_config where
  "two_seconds = \<lparr>cc_timeout = Some 2000, cc_forceRetry = False, cc_headers = (\<lambda>k. None), cc_data = None\<rparr>"

definition call_service ::
  "service_env \<Rightarrow> (http_request \<Rightarrow> nat \<Rightarrow> failure + json) \<Rightarrow> http_client \<Rightarrow> request_context \<Rightarrow> string \<Rightarrow> json \<Rightarrow> exn + json" where
  "call_service env transport c ctx url body =
     HttpClient_post (se_js env) (se_inject env) transport c ctx url (Some body) two_seconds"

definition call_orders :: "service_env \<Rightarrow> order list \<Rightarrow> http_client \<Rightarrow> request_context \<Rightarrow> downstream" where
  "call_orders env os c ctx = call_service env (serve (order_server env os)) c ctx ''/api/v1/internal/orders/validate''"

text \<open>A server that answers too late: the client gives up after its timeout (0 is none).\<close>

definition timely ::
  "(json \<Rightarrow> nat) \<Rightarrow> (http_request \<Rightarrow> nat \<Rightarrow> failure + json) \<Rightarrow> http_request \<Rightarrow> nat \<Rightarrow> failure + json" where
  "timely delay transport rq k =
     (if 0 < hr_timeout rq \<and> hr_timeout rq \<le> delay (request_body rq)
      then Inl (AxiosNoResponse (Some ''ECONNABORTED'') (''timeout of '' @ show_nat (hr_timeout rq) @ ''ms exceeded''))
      else transport rq k)"

definition fraud_delay :: "service_env \<Rightarrow> json \<Rightarrow> nat" where
  "fraud_delay env body =
     (case as_precheck_body body of
        None \<Rightarrow> 0
      | Some b \<Rightarrow> if PrecheckRequestDto_ok (se_is_uuid4 env) b then precheck_delay (pb_merchantId b) else 0)"

definition call_fraud :: "service_env \<Rightarrow> fraud_config \<Rightarrow> http_client \<Rightarrow> request_context \<Rightarrow> downstream" where
  "call_fraud env cfg c ctx =
     call_service env (timely (fraud_delay env) (serve (fraud_server env cfg))) c ctx ''/api/v1/internal/fraud/precheck''"

section \<open>Lemmas\<close>

lemma retry_post: "fst (retry_execute n d ''POST'' False fn) = fn 0"
proof -
  have "js_upper ''POST'' = ''POST''" by code_simp
  then show ?thesis by (simp add: retry_execute_def should_retry_def retry_loop.simps split: sum.split)
qed

text \<open>A call to a server that answers: the body of a success, else the translated status and body.\<close>

lemma call_service_serve:
  obtains rq where "hr_url rq = url" "hr_data rq = Some body"
    "call_service env (serve srv) c ctx url body =
       (let (status, b) = srv rq
        in if 200 \<le> status \<and> status < 300 then Inr b
           else Inl (translate_failure (se_js env) (hc_serviceName c) rq (AxiosResponse status b)))"
proof -
  let ?rq = "propagateHeaders (se_inject env) ctx
     \<lparr>hr_method = ''POST'', hr_url = url, hr_baseURL = hc_baseURL c, hr_timeout = 2000,
      hr_headers = (\<lambda>k. None), hr_data = Some body\<rparr>"
  have "hr_url ?rq = url" "hr_data ?rq = Some body" by (simp_all add: propagateHeaders_def Let_def)
  moreover have "call_service env (serve srv) c ctx url body =
       (let (status, b) = srv ?rq
        in if 200 \<le> status \<and> status < 300 then Inr b
           else Inl (translate_failure (se_js env) (hc_serviceName c) ?rq (AxiosResponse status b)))"
    by (cases "srv ?rq")
       (simp add: call_service_def HttpClient_post_def HttpClient_request_def two_seconds_def retry_post serve_def Let_def)
  ultimately show thesis by (rule that)
qed

lemma call_service_timely:
  "\<exists>x. http_class ''RequestTimeoutException'' x \<and>
    call_service env (timely delay transport) c ctx url body =
      (if 2000 \<le> delay body then Inl x else call_service env transport c ctx url body)"
proof -
  let ?rq = "propagateHeaders (se_inject env) ctx
     \<lparr>hr_method = ''POST'', hr_url = url, hr_baseURL = hc_baseURL c, hr_timeout = 2000,
      hr_headers = (\<lambda>k. None), hr_data = Some body\<rparr>"
  have "hr_timeout ?rq = 2000" "request_body ?rq = body" by (simp_all add: propagateHeaders_def request_body_def Let_def)
  then show ?thesis
    by (intro exI [of _ "translate_failure (se_js env) (hc_serviceName c) ?rq (AxiosNoResponse (Some ''ECONNABORTED'') (''timeout of '' @ show_nat 2000 @ ''ms exceeded''))"])
       (simp add: call_service_def HttpClient_post_def HttpClient_request_def two_seconds_def retry_post timely_def Let_def
          translate_failure_def RequestTimeoutException_def InternalServiceException_def http_class_def)
qed

lemma translated_response:
  "http_class ''DownstreamResponseException'' (translate_failure env n rq (AxiosResponse s b))"
  "\<not> http_class ''RequestTimeoutException'' (translate_failure env n rq (AxiosResponse s b))"
  "\<not> http_class ''ServiceUnavailableException'' (translate_failure env n rq (AxiosResponse s b))"
  "exn_status (translate_failure env n rq (AxiosResponse s b)) = s"
  by (simp_all add: translate_failure_def DownstreamResponseException_def InternalServiceException_def
      http_class_def exn_status_def Let_def)

lemma respond_Inl: "fst (respond env url ok (Inl e)) = exn_status e"
  by (simp add: respond_def filter_catch_def filter_fields_status Let_def)

lemma respond_Inr: "respond env url ok (Inr b) = (ok, b)"
  by (simp add: respond_def)

text \<open>The body the payment service sends is one the order service reads back.\<close>

lemma as_order_request_body:
  "as_order_request (order_request_body m ref b) =
     Some \<lparr>or_merchantId = m, or_reference = ref, or_amount = Fin (cp_amount b), or_currency = cp_currency b\<rparr>"
  by (simp add: as_order_request_def order_request_body_def only_props_def)

lemma as_precheck_body_body:
  "as_precheck_body (fraud_request_body m b) =
     Some \<lparr>pb_merchantId = m, pb_amount = Fin (cp_amount b), pb_currency = cp_currency b\<rparr>"
  by (simp add: as_precheck_body_def fraud_request_body_def only_props_def)

text \<open>A call to a controller behind the exception filter.\<close>

lemma call_controller_Inr:
  "f body = Inr v \<Longrightarrow>
   call_service env (serve (\<lambda>rq. respond env (hr_url rq) 200 (f (request_body rq)))) c ctx url body = Inr v"
  by (rule call_service_serve [of url body env "\<lambda>rq. respond env (hr_url rq) 200 (f (request_body rq))" c ctx])
     (simp add: request_body_def respond_Inr)

lemma call_controller_Inl:
  assumes "f body = Inl e" "300 \<le> exn_status e"
  obtains x where "call_service env (serve (\<lambda>rq. respond env (hr_url rq) 200 (f (request_body rq)))) c ctx url body = Inl x"
    "http_class ''DownstreamResponseException'' x" "\<not> http_class ''RequestTimeoutException'' x"
    "\<not> http_class ''ServiceUnavailableException'' x" "exn_status x = exn_status e"
proof (rule call_service_serve [of url body env "\<lambda>rq. respond env (hr_url rq) 200 (f (request_body rq))" c ctx])
  fix rq :: http_request
  assume rq: "hr_url rq = url" "hr_data rq = Some body"
    and call: "call_service env (serve (\<lambda>rq. respond env (hr_url rq) 200 (f (request_body rq)))) c ctx url body =
       (let (status, b) = respond env (hr_url rq) 200 (f (request_body rq))
        in if 200 \<le> status \<and> status < 300 then Inr b
           else Inl (translate_failure (se_js env) (hc_serviceName c) rq (AxiosResponse status b)))"
  obtain b where b: "respond env (hr_url rq) 200 (f (request_body rq)) = (exn_status e, b)"
    using rq(2) assms(1) respond_Inl [of env "hr_url rq" 200 e]
    by (cases "respond env (hr_url rq) 200 (f (request_body rq))") (simp add: request_body_def)
  let ?x = "translate_failure (se_js env) (hc_serviceName c) rq (AxiosResponse (exn_status e) b)"
  show thesis by (rule that [of ?x]) (use assms(2) in \<open>simp_all add: call b translated_response\<close>)
qed

text \<open>The order service as the payment service sees it: the request as a whole must be valid.\<close>

definition order_request_ok :: "service_env \<Rightarrow> string \<Rightarrow> string \<Rightarrow> create_payment_body \<Rightarrow> bool" where
  "order_request_ok env m ref b \<longleftrightarrow> se_is_uuid env m \<and> m \<noteq> [] \<and> ref \<noteq> [] \<and> is_integer (Fin (cp_amount b)) \<and>
     1 \<le> cp_amount b \<and> cp_currency b \<noteq> []"

lemma validation_failed_status [simp]: "exn_status (validation_failed env) = 400"
  by (simp add: validation_failed_def ValidationError_def base_exn_def exn_status_def)

lemma validateOrder_status: "validateOrder t m ref a cur = Inl e \<Longrightarrow> exn_status e \<in> {403, 404, 422, 409}"
  by (auto simp: validateOrder_def split: option.splits if_splits)

lemma order_stage_call:
  "order_stage (call_orders env os c ctx) m ref b =
     (if \<not> order_request_ok env m ref b then Inl (nest_500 ''Unexpected order validation failure.'')
      else case validateOrder os m ref (cp_amount b) (cp_currency b) of
        Inr o1 \<Rightarrow> Inr (Some (JStr (o_id o1)))
      | Inl e \<Rightarrow> Inl (if exn_status e \<in> {403, 404} then OrderNotFoundException ref
                    else if exn_status e = 422 then OrderAmountMismatchException ref (cp_amount b) (cp_amount b)
                    else OrderAlreadyPaidException ref))"
proof -
  let ?f = "\<lambda>body. case as_order_request body of
        None \<Rightarrow> Inl (validation_failed env)
      | Some b \<Rightarrow> rbind (OrderController_validateOrder (se_is_uuid env) (validation_failed env) os b) (\<lambda>ps. Inr (JObj ps))"
  let ?v = "validateOrder os m ref (cp_amount b) (cp_currency b)"
  have srv: "order_server env os = (\<lambda>rq. respond env (hr_url rq) 200 (?f (request_body rq)))"
    by (rule ext) (simp add: order_server_def)
  have f: "?f (order_request_body m ref b) =
      (if \<not> order_request_ok env m ref b then Inl (validation_failed env)
       else rbind ?v (\<lambda>o1. Inr (JObj [(''valid'', JBool True), (''orderId'', JStr (o_id o1))])))"
    by (cases ?v) (auto simp: as_order_request_body OrderController_validateOrder_def ValidateOrderDto_ok_def
        order_request_ok_def amount_of_def)
  show ?thesis
  proof (cases "\<exists>o1. order_request_ok env m ref b \<and> ?v = Inr o1")
    case True
    then obtain o1 where "order_request_ok env m ref b" "?v = Inr o1" by blast
    then show ?thesis
      unfolding order_stage_def call_orders_def srv
      using call_controller_Inr [where f = ?f, OF f [THEN trans]] by (simp add: read_prop_def)
  next
    case False
    then obtain e where e: "?f (order_request_body m ref b) = Inl e"
      "e = (if \<not> order_request_ok env m ref b then validation_failed env else projl ?v)"
      using f by (cases ?v) auto
    have st: "order_request_ok env m ref b \<Longrightarrow> ?v = Inl e \<and> exn_status e \<in> {403, 404, 422, 409}"
      using False e(2) validateOrder_status [of os m ref "cp_amount b" "cp_currency b"] by (cases ?v) auto
    have "300 \<le> exn_status e" using st e(2) by (cases "order_request_ok env m ref b") auto
    then obtain x where
      "call_orders env os c ctx (order_request_body m ref b) = Inl x"
      "http_class ''DownstreamResponseException'' x" "\<not> http_class ''RequestTimeoutException'' x"
      "\<not> http_class ''ServiceUnavailableException'' x" "exn_status x = exn_status e"
      unfolding call_orders_def srv by (rule call_controller_Inl [where f = ?f, OF e(1)])
    note x = this
    show ?thesis
    proof (cases "order_request_ok env m ref b")
      case True
      then have v: "?v = Inl e" "exn_status e \<in> {403, 404, 422, 409}" using st by blast+
      show ?thesis using x v(2) True by (auto simp: order_stage_def map_order_error_def v(1))
    next
      case False
      with x e(2) show ?thesis by (simp add: order_stage_def map_order_error_def)
    qed
  qed
qed

text \<open>The fraud service as the payment service sees it.\<close>

definition precheck_request_ok :: "service_env \<Rightarrow> string \<Rightarrow> create_payment_body \<Rightarrow> bool" where
  "precheck_request_ok env m b \<longleftrightarrow> se_is_uuid4 env m \<and> m \<noteq> [] \<and> is_integer (Fin (cp_amount b)) \<and>
     0 < cp_amount b \<and> cp_currency b \<noteq> []"

lemma run_rules_status: "run_rules rs k b = Inl e \<Longrightarrow> exn_status e = 403"
  by (induction rs arbitrary: k) (auto simp: Let_def split: if_splits)

lemma runPrecheck_approved:
  "(\<exists>p. runPrecheck (FRAUD_RULES cfg) b = Inr p) \<longleftrightarrow>
     \<not> num_gt (pr_amount b) (max_threshold cfg) \<and>
     js_upper (js_trim (pr_currency b)) \<in> set (supported_currencies cfg) \<and> pr_merchantId b \<notin> set (blacklist cfg)"
  by (simp add: runPrecheck_def FRAUD_RULES_def fraud_rule_defs Let_def)

lemma fraud_stage_answered:
  "fraud_stage (call_service env (serve (fraud_server env cfg)) c ctx url) m b =
     (if \<not> precheck_request_ok env m b then Inl (nest_503 ''Fraud pre-check service is unavailable.'')
      else case runPrecheck (FRAUD_RULES cfg) \<lparr>pr_merchantId = m, pr_amount = cp_amount b, pr_currency = cp_currency b\<rparr> of
        Inr p \<Rightarrow> Inr ()
      | Inl e \<Rightarrow> Inl (FraudRejectedException m (cp_amount b) (cp_currency b) 0 (Some ''Downstream fraud check failure'')))"
proof -
  let ?f = "\<lambda>body. case as_precheck_body body of
        None \<Rightarrow> Inl (validation_failed env)
      | Some b \<Rightarrow> rbind (FraudController_precheck (se_is_uuid4 env) (validation_failed env) (FRAUD_RULES cfg) b)
                    (\<lambda>p. Inr (precheck_json p))"
  let ?p = "runPrecheck (FRAUD_RULES cfg) \<lparr>pr_merchantId = m, pr_amount = cp_amount b, pr_currency = cp_currency b\<rparr>"
  have srv: "fraud_server env cfg = (\<lambda>rq. respond env (hr_url rq) 200 (?f (request_body rq)))"
    by (rule ext) (simp add: fraud_server_def)
  have f: "?f (fraud_request_body m b) =
      (if \<not> precheck_request_ok env m b then Inl (validation_failed env) else rbind ?p (\<lambda>p. Inr (precheck_json p)))"
    by (cases ?p) (auto simp: as_precheck_body_body FraudController_precheck_def PrecheckRequestDto_ok_def
        precheck_request_ok_def)
  show ?thesis
  proof (cases "precheck_request_ok env m b")
    case ok: True
    show ?thesis
    proof (cases ?p)
      case (Inr p)
      then have "ps_approved p" using run_rules_score by (fastforce simp: runPrecheck_def)
      then show ?thesis
        using call_controller_Inr [where f = ?f, OF f [THEN trans]] ok Inr unfolding fraud_stage_def srv
        by (simp add: read_prop_def precheck_json_def)
    next
      case (Inl e)
      then have st: "exn_status e = 403" using run_rules_status by (simp add: runPrecheck_def)
      have "?f (fraud_request_body m b) = Inl e" using f ok Inl by simp
      moreover have "300 \<le> exn_status e" using st by simp
      ultimately obtain x where
        "call_service env (serve (fraud_server env cfg)) c ctx url (fraud_request_body m b) = Inl x"
        "http_class ''DownstreamResponseException'' x" "\<not> http_class ''RequestTimeoutException'' x"
        "\<not> http_class ''ServiceUnavailableException'' x" "exn_status x = exn_status e"
        unfolding srv by (rule call_controller_Inl [where f = ?f])
      then show ?thesis using ok Inl st by (simp add: fraud_stage_def map_fraud_error_def)
    qed
  next
    case bad: False
    have "?f (fraud_request_body m b) = Inl (validation_failed env)" using f bad by simp
    moreover have "300 \<le> exn_status (validation_failed env)" by simp
    ultimately obtain x where
      "call_service env (serve (fraud_server env cfg)) c ctx url (fraud_request_body m b) = Inl x"
      "http_class ''DownstreamResponseException'' x" "\<not> http_class ''RequestTimeoutException'' x"
      "\<not> http_class ''ServiceUnavailableException'' x" "exn_status x = exn_status (validation_failed env)"
      unfolding srv by (rule call_controller_Inl [where f = ?f])
    then show ?thesis using bad by (simp add: fraud_stage_def map_fraud_error_def)
  qed
qed

lemma fraud_stage_call:
  "fraud_stage (call_fraud env cfg c ctx) m b =
     (if \<not> precheck_request_ok env m b then Inl (nest_503 ''Fraud pre-check service is unavailable.'')
      else if m = E2E_TIMEOUT_MERCHANT then Inl (nest_503 ''Fraud pre-check service timed out.'')
      else case runPrecheck (FRAUD_RULES cfg) \<lparr>pr_merchantId = m, pr_amount = cp_amount b, pr_currency = cp_currency b\<rparr> of
        Inr p \<Rightarrow> Inr ()
      | Inl e \<Rightarrow> Inl (FraudRejectedException m (cp_amount b) (cp_currency b) 0 (Some ''Downstream fraud check failure'')))"
proof -
  let ?url = "''/api/v1/internal/fraud/precheck''"
  have d: "fraud_delay env (fraud_request_body m b) = (if precheck_request_ok env m b \<and> m = E2E_TIMEOUT_MERCHANT then 3000 else 0)"
    by (auto simp: fraud_delay_def as_precheck_body_body PrecheckRequestDto_ok_def precheck_request_ok_def precheck_delay_def)
  obtain x where x: "http_class ''RequestTimeoutException'' x"
    "call_fraud env cfg c ctx (fraud_request_body m b) =
      (if precheck_request_ok env m b \<and> m = E2E_TIMEOUT_MERCHANT then Inl x
       else call_service env (serve (fraud_server env cfg)) c ctx ?url (fraud_request_body m b))"
    using call_service_timely [of env "fraud_delay env" "serve (fraud_server env cfg)" c ctx ?url "fraud_request_body m b"]
    unfolding call_fraud_def d by (cases "precheck_request_ok env m b \<and> m = E2E_TIMEOUT_MERCHANT") auto
  show ?thesis
  proof (cases "precheck_request_ok env m b \<and> m = E2E_TIMEOUT_MERCHANT")
    case True
    have "call_fraud env cfg c ctx (fraud_request_body m b) = Inl x" by (simp only: x(2) if_P [OF True])
    with x(1) True show ?thesis by (auto simp: fraud_stage_def map_fraud_error_def)
  next
    case False
    then have "fraud_stage (call_fraud env cfg c ctx) m b = fraud_stage (call_service env (serve (fraud_server env cfg)) c ctx ?url) m b"
      by (simp only: fraud_stage_def x(2) simp_thms if_False)
    with False show ?thesis unfolding fraud_stage_answered by auto
  qed
qed

section \<open>Properties\<close>

text \<open>
  C2. The whole synchronous path, with the order and fraud services as they are written: a payment is
  created exactly when the merchant has not used the reference, an order of that merchant with that
  reference, amount and currency (up to case) is still \<open>CREATED\<close>, the fraud configuration approves
  the request, its merchant is not the one the fraud service keeps waiting for three seconds (longer than
  the payment service's timeout), both DTOs accept it, the amount is a 32-bit integer and the identifiers are fresh.
\<close>

theorem payment_end_to_end:
  assumes "orders_ok os"
  shows "(\<exists>q calls db'. createPayment cenv no_faults (call_orders env os oc ctx) (call_fraud env cfg fc ctx) ctx b m db
            = (Inr q, calls, db')) \<longleftrightarrow>
     (\<forall>p \<in> set (db_payments db). p_merchantId p = m \<longrightarrow> p_reference p \<noteq> js_trim (cp_reference b)) \<and>
     (\<exists>r \<in> set os. o_merchantId r = m \<and> o_reference r = js_trim (cp_reference b) \<and> o_amount r = cp_amount b \<and>
        js_upper (o_currency r) = js_upper (cp_currency b) \<and> o_status r = CREATED) \<and>
     \<not> num_gt (cp_amount b) (max_threshold cfg) \<and> js_upper (js_trim (cp_currency b)) \<in> set (supported_currencies cfg) \<and>
     m \<notin> set (blacklist cfg) \<and> m \<noteq> E2E_TIMEOUT_MERCHANT \<and>
     se_is_uuid env m \<and> se_is_uuid4 env m \<and> m \<noteq> [] \<and> js_trim (cp_reference b) \<noteq> [] \<and> cp_currency b \<noteq> [] \<and>
     fits_int (cp_amount b) \<and> 1 \<le> cp_amount b \<and>
     ce_paymentId cenv \<notin> p_id ` set (db_payments db) \<and> ce_eventId cenv \<notin> ob_id ` set (db_outbox db)"
proof -
  let ?ref = "js_trim (cp_reference b)"
  have v: "(\<exists>r. validateOrder os m ?ref (cp_amount b) (cp_currency b) = Inr r) \<longleftrightarrow>
     (\<exists>r \<in> set os. o_merchantId r = m \<and> o_reference r = ?ref \<and> o_amount r = cp_amount b \<and>
        js_upper (o_currency r) = js_upper (cp_currency b) \<and> o_status r = CREATED)"
    using validateOrder_Inr [OF assms] by metis
  have o1: "(\<exists>x. order_stage (call_orders env os oc ctx) m ?ref b = Inr x) \<longleftrightarrow>
     order_request_ok env m ?ref b \<and> (\<exists>r. validateOrder os m ?ref (cp_amount b) (cp_currency b) = Inr r)"
    unfolding order_stage_call by (auto split: sum.split)
  have f: "fraud_stage (call_fraud env cfg fc ctx) m b = Inr () \<longleftrightarrow>
     precheck_request_ok env m b \<and> m \<noteq> E2E_TIMEOUT_MERCHANT \<and>
     (\<exists>p. runPrecheck (FRAUD_RULES cfg) \<lparr>pr_merchantId = m, pr_amount = cp_amount b, pr_currency = cp_currency b\<rparr> = Inr p)"
    unfolding fraud_stage_call by (auto split: sum.split)
  have i: "fits_int (cp_amount b) \<Longrightarrow> is_integer (Fin (cp_amount b))"
    by (simp add: fits_int_def is_integer_def)
  show ?thesis
    unfolding createPayment_stages o1 f v runPrecheck_approved order_request_ok_def precheck_request_ok_def
    using i by auto
qed

definition sample_service_env :: service_env where
  "sample_service_env = \<lparr>se_js = \<lparr>je_stringify = (\<lambda>v. ''{}''), je_string = (\<lambda>v. ''0''), je_status_name = (\<lambda>s. None)\<rparr>,
     se_inject = (\<lambda>h. h), se_timestamp = ''t'', se_is_uuid = (\<lambda>s. True), se_is_uuid4 = (\<lambda>s. True),
     se_details = JArr [], se_ids = (None, None)\<rparr>"

definition sample_client :: http_client where
  "sample_client = \<lparr>hc_serviceName = ''order-service'', hc_baseURL = ''http://o'', hc_timeout = 2000, hc_retries = 3,
     hc_retryDelay = 100\<rparr>"

lemma sample_texts: "js_trim '' r1 '' = ''r1''" "js_upper ''USD'' = ''USD''" "js_trim ''USD'' = ''USD''" "js_upper ''EUR'' = ''EUR''"
  by code_simp+

theorem payment_end_to_end_witness:
  "\<exists>q calls db'. createPayment sample_env no_faults (call_orders sample_service_env sample_orders sample_client sample_ctx)
     (call_fraud sample_service_env sample_fraud_config sample_client sample_ctx) sample_ctx sample_body ''m1'' empty_db
     = (Inr q, calls, db')"
  unfolding payment_end_to_end [OF sample_orders_ok]
  by (simp add: empty_db_def sample_body_def sample_texts sample_orders_def sample_fraud_config_simps sample_service_env_def
      E2E_TIMEOUT_MERCHANT_def)

text \<open>
  C21. What the client is told when one of the two services refuses a well-formed request, and that
  nothing is stored: an order of another merchant is hidden behind the 404 of an unknown one; every
  422 of the order service, a currency mismatch included, comes back as an amount mismatch whose
  expected and requested amounts are both the amount asked for; a cancelled or refunded order comes
  back as already paid; and every rejection of the fraud rules comes back as 403 with risk score 0
  and one fixed reason, whatever rule was broken; the merchant id used by an end-to-end test, which the
  fraud service delays, is refused with 503.
\<close>

theorem payment_refusals:
  assumes "order_request_ok env m (js_trim (cp_reference b)) b" "precheck_request_ok env m b"
    and "\<forall>p \<in> set (db_payments db). p_merchantId p = m \<longrightarrow> p_reference p \<noteq> js_trim (cp_reference b)"
  shows "\<exists>calls. case validateOrder os m (js_trim (cp_reference b)) (cp_amount b) (cp_currency b) of
       Inl e \<Rightarrow> createPayment cenv no_faults (call_orders env os oc ctx) (call_fraud env cfg fc ctx) ctx b m db =
         (Inl (if exn_status e \<in> {403, 404} then OrderNotFoundException (js_trim (cp_reference b))
               else if exn_status e = 422 then OrderAmountMismatchException (js_trim (cp_reference b)) (cp_amount b) (cp_amount b)
               else OrderAlreadyPaidException (js_trim (cp_reference b))), calls, db)
     | Inr r \<Rightarrow> (\<forall>e. m = E2E_TIMEOUT_MERCHANT \<or> runPrecheck (FRAUD_RULES cfg)
              \<lparr>pr_merchantId = m, pr_amount = cp_amount b, pr_currency = cp_currency b\<rparr> = Inl e \<longrightarrow>
         createPayment cenv no_faults (call_orders env os oc ctx) (call_fraud env cfg fc ctx) ctx b m db =
         (Inl (if m = E2E_TIMEOUT_MERCHANT then nest_503 ''Fraud pre-check service timed out.''
               else FraudRejectedException m (cp_amount b) (cp_currency b) 0 (Some ''Downstream fraud check failure'')), calls, db))"
proof -
  have dup: "check_duplicate no_faults db m (js_trim (cp_reference b)) = Inr ()"
    using assms(3) by (simp add: check_duplicate_Inr no_faults_def)
  show ?thesis
  proof (cases "validateOrder os m (js_trim (cp_reference b)) (cp_amount b) (cp_currency b)")
    case (Inl e)
    with assms(1) show ?thesis
      by (simp add: createPayment_def dup createPayment_rest_def order_stage_call Let_def)
  next
    case (Inr r)
    have "createPayment cenv no_faults (call_orders env os oc ctx) (call_fraud env cfg fc ctx) ctx b m db =
        (Inl e, [(''/api/v1/internal/orders/validate'', order_request_body m (js_trim (cp_reference b)) b),
                 (''/api/v1/internal/fraud/precheck'', fraud_request_body m b)], db)"
      if "fraud_stage (call_fraud env cfg fc ctx) m b = Inl e" for e
      using assms(1) that Inr by (simp add: createPayment_def dup createPayment_rest_def order_stage_call Let_def)
    with assms(2) Inr show ?thesis unfolding fraud_stage_call by auto
  qed
qed

lemma is_integer_numeral [simp]: "is_integer (Fin (numeral n))"
  by (simp add: is_integer_def quotient_of_int [of "numeral n", simplified])

theorem payment_refusals_witness:
  "\<exists>calls. createPayment sample_env no_faults (call_orders sample_service_env sample_orders sample_client sample_ctx)
     (call_fraud sample_service_env sample_fraud_config sample_client sample_ctx) sample_ctx
     (sample_body\<lparr>cp_currency := ''EUR''\<rparr>) ''m1'' empty_db
     = (Inl (OrderAmountMismatchException ''r1'' 100 100), calls, empty_db)"
proof -
  have "validateOrder sample_orders ''m1'' ''r1'' 100 ''EUR'' = Inl (OrderCurrencyMismatchException ''r1'' ''USD'' ''EUR'')"
    by (simp add: validateOrder_def OrderRepository_findByMerchantAndReference_def sample_orders_def sample_texts)
  then show ?thesis
    using payment_refusals [where env = sample_service_env and m = "''m1''" and b = "sample_body\<lparr>cp_currency := ''EUR''\<rparr>"
        and db = empty_db and os = sample_orders and cenv = sample_env and oc = sample_client and fc = sample_client
        and ctx = sample_ctx and cfg = sample_fraud_config]
    by (simp add: order_request_ok_def precheck_request_ok_def sample_service_env_def sample_body_def sample_texts empty_db_def)
qed

text \<open>
  An amount that is not an integer passes the payment service's own DTO, but neither the order nor
  the fraud service accepts it: the client is told 500, whatever orders exist.
\<close>

theorem fractional_amount_is_500:
  assumes "CreatePaymentRequestDto_ok body" "truthy_header hs ''x-merchant-id''"
    and "jget body ''amount'' = Some (JNum (Fin a))" "\<not> is_integer (Fin a)"
    and "\<forall>p \<in> set (db_payments db). p_merchantId p = the (hs ''x-merchant-id'') \<longrightarrow>
           p_reference p \<noteq> js_trim (cp_reference (as_create_payment body))"
  shows "\<exists>e calls. PaymentController_createPayment verr cenv no_faults (call_orders env os oc ctx) fraud ctx hs body db
      = (Inl e, calls, db) \<and> exn_status e = 500"
proof -
  have "check_duplicate no_faults db (the (hs ''x-merchant-id'')) (js_trim (cp_reference (as_create_payment body))) = Inr ()"
    using assms(5) by (simp add: check_duplicate_Inr no_faults_def)
  moreover have "\<not> order_request_ok env n ref (as_create_payment body)" for n ref
    using assms(4) dto_amount [OF assms(1)] assms(3) by (simp add: order_request_ok_def)
  ultimately show ?thesis
    using assms(1,2)
    by (simp add: PaymentController_createPayment_def createPayment_def createPayment_rest_def order_stage_call
        nest_500_def Let_def)
qed

theorem fractional_amount_is_500_witness:
  "\<exists>e calls. PaymentController_createPayment P2025 sample_env no_faults
      (call_orders sample_service_env sample_orders sample_client sample_ctx) (\<lambda>rq. Inr JNull) sample_ctx
      ((\<lambda>k. None)(''x-merchant-id'' \<mapsto> ''m1''))
      (JObj [(''amount'', JNum (Fin (199 / 2))), (''currency'', JStr ''USD''), (''reference'', JStr ''r1'')]) empty_db
      = (Inl e, calls, empty_db) \<and> exn_status e = 500"
proof (rule fractional_amount_is_500 [where a = "199 / 2"])
  show "\<not> is_integer (Fin (199 / 2))" unfolding is_integer_def by code_simp
qed (simp_all add: CreatePaymentRequestDto_ok_def only_props_def SUPPORTED_CURRENCIES_def truthy_header_def empty_db_def)

end
