(* ===== verification/RateLimit.thy ===== *)
theory RateLimit
  imports Errors
begin

text \<open>
  The gateway's rate limiter (\<open>apps/gateway/src/rate-limit\<close>): the Redis sorted sets it keeps, the Lua
  script of \<open>redis-rate-limit.repository.ts\<close>, the service that fails open, and the middleware. A sorted
  set is the list of its members with their scores; a key holds a set and the instant it expires. Times
  are milliseconds, and Redis and the gateway read the same clock. Logging is left out.
\<close>

section \<open>Sorted sets\<close>

type_synonym zset = "(string \<times> int) list"
type_synonym zstore = "string \<Rightarrow> (zset \<times> int) option"

definition zadd :: "int \<Rightarrow> string \<Rightarrow> zset \<Rightarrow> zset" where
  "zadd score member z = filter (\<lambda>e. fst e \<noteq> member) z @ [(member, score)]"

text \<open>\<open>ZREMRANGEBYSCORE key -inf bound\<close>.\<close>

definition zremrangebyscore :: "int \<Rightarrow> zset \<Rightarrow> zset" where
  "zremrangebyscore bound z = filter (\<lambda>e. bound < snd e) z"

text \<open>The score of \<open>ZRANGE key 0 0 WITHSCORES\<close>.\<close>

definition oldest_score :: "zset \<Rightarrow> int option" where
  "oldest_score z = (if z = [] then None else Some (Min (set (map snd z))))"

text \<open>The key as Redis sees it now: an expired key, or one whose set is empty, does not exist.\<close>

definition zget :: "int \<Rightarrow> zstore \<Rightarrow> string \<Rightarrow> zset" where
  "zget now st k = (case st k of None \<Rightarrow> [] | Some (z, expires) \<Rightarrow> if expires < now then [] else z)"

definition zput :: "string \<Rightarrow> zset \<Rightarrow> (zset \<times> int) option \<Rightarrow> zstore \<Rightarrow> zstore" where
  "zput k z old st =
     st(k := (case old of Some (z0, expires) \<Rightarrow> if z = [] then None else Some (z, expires) | None \<Rightarrow> None))"

section \<open>The Lua script\<close>

definition rate_limit_key :: "string \<Rightarrow> string" where
  "rate_limit_key merchantId = ''rate_limit:'' @ merchantId"

definition lua_rate_limit ::
  "string \<Rightarrow> int \<Rightarrow> int \<Rightarrow> int \<Rightarrow> string \<Rightarrow> zstore \<Rightarrow> (bool \<times> int \<times> int) \<times> zstore" where
  "lua_rate_limit key now window limit request_id st =
     (let clear_before = now - window;
          z1 = zremrangebyscore clear_before (zget now st key);
          amount = int (length z1);
          allowed = (amount < limit);
          z2 = (if allowed then zadd now request_id z1 else z1);
          amount2 = (if allowed then amount + 1 else amount);
          st' = (if allowed then st(key := Some (z2, now + window)) else zput key z2 (st key) st);
          reset_time = (case oldest_score z2 of None \<Rightarrow> now + window | Some s \<Rightarrow> s + window)
      in ((allowed, limit - amount2, reset_time), st'))"

record rate_result =
  rl_allowed :: bool
  rl_remaining :: int
  rl_resetTimeMs :: int

definition checkRateLimit ::
  "int \<Rightarrow> string \<Rightarrow> int \<Rightarrow> int \<Rightarrow> string \<Rightarrow> zstore \<Rightarrow> rate_result \<times> zstore" where
  "checkRateLimit now merchantId limit windowSeconds requestId st =
     (let ((allowed, remaining, resetTimeMs), st') =
            lua_rate_limit (rate_limit_key merchantId) now (windowSeconds * 1000) limit requestId st
      in (\<lparr>rl_allowed = allowed, rl_remaining = remaining, rl_resetTimeMs = resetTimeMs\<rparr>, st'))"

section \<open>The service and the middleware\<close>

record rate_config =
  rl_limit :: int
  rl_windowSeconds :: int

text \<open>\<open>redis_error\<close>: the script call threw. The service then lets the request through.\<close>

definition checkLimit ::
  "rate_config \<Rightarrow> bool \<Rightarrow> int \<Rightarrow> string \<Rightarrow> string \<Rightarrow> zstore \<Rightarrow> (rate_result \<times> int) \<times> zstore" where
  "checkLimit cfg redis_error now merchantId requestId st =
     (if redis_error
      then ((\<lparr>rl_allowed = True, rl_remaining = 1, rl_resetTimeMs = now + rl_windowSeconds cfg * 1000\<rparr>, rl_limit cfg), st)
      else let (r, st') = checkRateLimit now merchantId (rl_limit cfg) (rl_windowSeconds cfg) requestId st
           in ((r, rl_limit cfg), st'))"

definition ceil_sec :: "int \<Rightarrow> int" where
  "ceil_sec ms = - ((- ms) div 1000)"

definition rate_limit_skips :: "string \<Rightarrow> bool" where
  "rate_limit_skips originalUrl =
     (let u = hd (js_split (CHR ''?'') originalUrl)
      in js_includes u ''/health'' \<or> js_includes u ''/swagger'' \<or> js_includes u ''/swagger-json'')"

definition RATE_LIMITED :: exn where
  "RATE_LIMITED = http_exn [(''error'', JStr (platform_str RATE_LIMIT_EXCEEDED)),
     (''message'', JStr ''Merchant rate limit exceeded.'')] 429"

text \<open>
  The request identifier is the one \<open>LoggingMiddleware\<close> put in the response, else the context's,
  else a new one. The result is what is thrown, if anything, and the headers set.
\<close>

definition rate_limit_use ::
  "rate_config \<Rightarrow> bool \<Rightarrow> int \<Rightarrow> string \<Rightarrow> string \<Rightarrow> string option \<Rightarrow> string option \<Rightarrow> string option \<Rightarrow>
     zstore \<Rightarrow> (exn + unit) \<times> (string \<times> string) list \<times> zstore" where
  "rate_limit_use cfg redis_error now uuid originalUrl merchant resRequestId ctxRequestId st =
     (if rate_limit_skips originalUrl then (Inr (), [], st)
      else case merchant of
        None \<Rightarrow> (Inr (), [], st)
      | Some merchantId \<Rightarrow>
          let requestId = str_or (str_or_opt resRequestId ctxRequestId) (''req_fallback_'' @ uuid);
              ((r, limit), st') = checkLimit cfg redis_error now merchantId requestId st;
              resetTimeSec = ceil_sec (rl_resetTimeMs r);
              hs = [(''X-RateLimit-Limit'', show_int limit), (''X-RateLimit-Remaining'', show_int (rl_remaining r)),
                    (''X-RateLimit-Reset'', show_int resetTimeSec)]
          in if rl_allowed r then (Inr (), hs, st')
             else (Inl RATE_LIMITED, hs @ [(''Retry-After'', show_int (max 1 (resetTimeSec - now div 1000)))], st'))"

section \<open>Runs of requests\<close>

record rl_request =
  rq_time :: int
  rq_merchant :: string
  rq_id :: string

text \<open>The requests let through, in order, and the store after a run.\<close>

fun rl_run :: "rate_config \<Rightarrow> rl_request list \<Rightarrow> zstore \<Rightarrow> rl_request list \<times> zstore" where
  "rl_run cfg [] st = ([], st)"
| "rl_run cfg (r # rs) st =
     (let (res, st') = checkRateLimit (rq_time r) (rq_merchant r) (rl_limit cfg) (rl_windowSeconds cfg) (rq_id r) st;
          (as, st'') = rl_run cfg rs st'
      in (if rl_allowed res then r # as else as, st''))"

text \<open>The allowed requests of a merchant in the window that ends at an instant.\<close>

definition in_window :: "int \<Rightarrow> string \<Rightarrow> int \<Rightarrow> rl_request list \<Rightarrow> rl_request list" where
  "in_window w m x as = filter (\<lambda>r. rq_merchant r = m \<and> x - w < rq_time r \<and> rq_time r \<le> x) as"

section \<open>The sliding window, as a log of the allowed requests\<close>

text \<open>What the script is meant to compute: allow while fewer than \<open>limit\<close> were allowed in the last window.\<close>

fun sliding_log :: "rate_config \<Rightarrow> rl_request list \<Rightarrow> rl_request list \<Rightarrow> rl_request list" where
  "sliding_log cfg [] as = []"
| "sliding_log cfg (r # rs) as =
     (if int (length (in_window (rl_windowSeconds cfg * 1000) (rq_merchant r) (rq_time r) as)) < rl_limit cfg
      then r # sliding_log cfg rs (as @ [r]) else sliding_log cfg rs as)"

abbreviation entry_of :: "rl_request \<Rightarrow> string \<times> int" where
  "entry_of r \<equiv> (rq_id r, rq_time r)"

text \<open>From \<open>now\<close> on, what a key shows of its window is the log of its merchant.\<close>

definition log_inv :: "int \<Rightarrow> int \<Rightarrow> rl_request list \<Rightarrow> zstore \<Rightarrow> bool" where
  "log_inv w now as st \<longleftrightarrow> (\<forall>r \<in> set as. rq_time r \<le> now) \<and>
     (\<forall>m x. now \<le> x \<longrightarrow> zremrangebyscore (x - w) (zget x st (rate_limit_key m)) =
        map entry_of (filter (\<lambda>r. rq_merchant r = m \<and> x - w < rq_time r) as))"

lemma rate_limit_key_inj [simp]: "rate_limit_key m = rate_limit_key n \<longleftrightarrow> m = n"
  by (simp add: rate_limit_key_def)

lemma zrem_twice: "a \<le> b \<Longrightarrow> zremrangebyscore b (zremrangebyscore a z) = zremrangebyscore b z"
  by (auto simp: zremrangebyscore_def intro!: filter_cong)

lemma zrem_append [simp]: "zremrangebyscore b (y @ z) = zremrangebyscore b y @ zremrangebyscore b z"
  and zrem_Nil [simp]: "zremrangebyscore b [] = []"
  and zrem_single [simp]: "zremrangebyscore b [(i, t)] = (if b < t then [(i, t)] else [])"
  by (simp_all add: zremrangebyscore_def)

lemma zrem_map: "zremrangebyscore b (map entry_of as) = map entry_of (filter (\<lambda>r. b < rq_time r) as)"
  by (simp add: zremrangebyscore_def filter_map comp_def)

lemma zget_upd: "zget x (st(k := Some (z, e))) k' = (if k' = k then if e < x then [] else z else zget x st k')"
  and zget_put: "zget x (zput k z old st) k' =
    (if k' = k then (case old of Some (z0, e) \<Rightarrow> if z = [] \<or> e < x then [] else z | None \<Rightarrow> []) else zget x st k')"
  by (auto simp: zget_def zput_def split: option.splits prod.splits)

lemma zadd_new: "i \<notin> fst ` set z \<Longrightarrow> zadd t i z = z @ [(i, t)]"
  by (auto simp: zadd_def intro!: filter_True)

lemma log_inv_window:
  assumes "log_inv w now as st" "now \<le> t"
  shows "zremrangebyscore (t - w) (zget t st (rate_limit_key m)) = map entry_of (in_window w m t as)"
proof -
  have "filter (\<lambda>r. rq_merchant r = m \<and> t - w < rq_time r) as = in_window w m t as"
    unfolding in_window_def using assms by (intro filter_cong) (auto simp: log_inv_def)
  with assms show ?thesis by (simp add: log_inv_def)
qed

text \<open>One request, by the number of its merchant's requests allowed in the last window.\<close>

lemma checkRateLimit_step:
  assumes inv: "log_inv w now as st" and t: "now \<le> t" and w: "0 < w" "w = ws * 1000" and l: "0 < l"
    and new: "i \<notin> rq_id ` set as" and r: "rq_time r = t" "rq_merchant r = m" "rq_id r = i"
    and c: "checkRateLimit t m l ws i st = (res, st')"
  shows "rl_allowed res \<longleftrightarrow> int (length (in_window w m t as)) < l"
    and "log_inv w t (if rl_allowed res then as @ [r] else as) st'"
proof -
  let ?k = "rate_limit_key m"
  let ?z1 = "zremrangebyscore (t - w) (zget t st ?k)"
  let ?al = "int (length ?z1) < l"
  have z1: "?z1 = map entry_of (in_window w m t as)" by (rule log_inv_window [OF inv t])
  have al: "rl_allowed res = ?al" and
    st': "st' = (if ?al then st(?k := Some (zadd t i ?z1, t + w)) else zput ?k ?z1 (st ?k) st)"
    using c by (simp_all add: checkRateLimit_def lua_rate_limit_def Let_def w(2) [symmetric] split: if_splits prod.splits)
       auto
  show "rl_allowed res \<longleftrightarrow> int (length (in_window w m t as)) < l" by (simp add: al z1)
  have "i \<notin> fst ` set ?z1" using new z1 by (auto simp: in_window_def)
  then have add: "zadd t i ?z1 = ?z1 @ [(i, t)]" by (rule zadd_new)
  have old: "zremrangebyscore (x - w) (zget x st (rate_limit_key n)) =
      map entry_of (filter (\<lambda>r. rq_merchant r = n \<and> x - w < rq_time r) as)" if "t \<le> x" for n x
    using inv t that by (simp add: log_inv_def)
  have times: "\<forall>q \<in> set as. rq_time q \<le> t" using inv t by (auto simp: log_inv_def)
  show "log_inv w t (if rl_allowed res then as @ [r] else as) st'"
  proof (cases ?al)
    case True
    have "zremrangebyscore (x - w) (zget x st' (rate_limit_key n)) =
        map entry_of (filter (\<lambda>r. rq_merchant r = n \<and> x - w < rq_time r) (as @ [r]))" if x: "t \<le> x" for n x
    proof (cases "n = m")
      case True
      have z: "zremrangebyscore (x - w) ?z1 = map entry_of (filter (\<lambda>r. rq_merchant r = m \<and> x - w < rq_time r) as)"
        unfolding z1 zrem_map in_window_def filter_filter
        using x times by (intro arg_cong [where f = "map entry_of"] filter_cong) auto
      have "zget x st' ?k = (if t + w < x then [] else ?z1 @ [(i, t)])"
        using \<open>?al\<close> by (simp add: st' zget_upd add)
      moreover have "filter (\<lambda>r. rq_merchant r = m \<and> x - w < rq_time r) as = []" if "t + w < x"
        using times that by (auto simp: filter_empty_conv)
      ultimately show ?thesis
        using True r z x w(1) by (cases "t + w < x") simp_all
    next
      case False
      then have "zget x st' (rate_limit_key n) = zget x st (rate_limit_key n)"
        using \<open>?al\<close> by (simp add: st' zget_upd)
      with False r old [OF x] show ?thesis by simp
    qed
    with True al times r show ?thesis by (auto simp: log_inv_def)
  next
    case False
    with l have ne: "?z1 \<noteq> []" by auto
    then obtain z0 ex where k: "st ?k = Some (z0, ex)" "\<not> ex < t"
      by (auto simp: zget_def split: option.splits if_splits)
    have "zremrangebyscore (x - w) (zget x st' (rate_limit_key n)) =
        zremrangebyscore (x - w) (zget x st (rate_limit_key n))" if x: "t \<le> x" for n x
    proof (cases "n = m")
      case True
      have "zget x st' ?k = (if ex < x then [] else ?z1)" using False k ne by (simp add: st' zget_put)
      moreover have "zget t st ?k = z0" "zget x st ?k = (if ex < x then [] else z0)" using k by (simp_all add: zget_def)
      ultimately show ?thesis using True x by (simp add: zrem_twice)
    next
      case F: False
      then show ?thesis using False by (simp add: st' zget_put)
    qed
    with False al times old show ?thesis by (simp add: log_inv_def)
  qed
qed

lemma log_inv_empty: "log_inv w now [] (\<lambda>k. None)"
  by (simp add: log_inv_def zget_def)

lemma log_inv_later: "log_inv w now as st \<Longrightarrow> now \<le> t \<Longrightarrow> log_inv w t as st"
  by (auto simp: log_inv_def)

definition rl_config_ok :: "rate_config \<Rightarrow> bool" where
  "rl_config_ok cfg \<longleftrightarrow> 0 < rl_limit cfg \<and> 0 < rl_windowSeconds cfg"

lemma rl_run_log:
  assumes "log_inv (rl_windowSeconds cfg * 1000) now as st" "rl_config_ok cfg"
    and "sorted (now # map rq_time rs)" "distinct (map rq_id (as @ rs))"
  shows "fst (rl_run cfg rs st) = sliding_log cfg rs as"
    and "log_inv (rl_windowSeconds cfg * 1000) (last (now # map rq_time rs)) (as @ sliding_log cfg rs as) (snd (rl_run cfg rs st))"
  using assms(1,3,4)
proof (induction rs arbitrary: now as st)
  case Nil
  {
    case 1
    then show ?case by simp
  next
    case 2
    then show ?case by simp
  }
next
  case (Cons r rs)
  let ?w = "rl_windowSeconds cfg * 1000"
  have main: "fst (rl_run cfg (r # rs) st) = sliding_log cfg (r # rs) as \<and>
      log_inv ?w (last (now # map rq_time (r # rs))) (as @ sliding_log cfg (r # rs) as) (snd (rl_run cfg (r # rs) st))"
    if p: "log_inv ?w now as st" "sorted (now # map rq_time (r # rs))" "distinct (map rq_id (as @ r # rs))" for now as st
  proof -
    obtain res st' where c: "checkRateLimit (rq_time r) (rq_merchant r) (rl_limit cfg) (rl_windowSeconds cfg) (rq_id r) st = (res, st')"
      by (cases "checkRateLimit (rq_time r) (rq_merchant r) (rl_limit cfg) (rl_windowSeconds cfg) (rq_id r) st")
    have pos: "0 < ?w" "0 < rl_limit cfg" using assms(2) by (simp_all add: rl_config_ok_def)
    have "now \<le> rq_time r" "rq_id r \<notin> rq_id ` set as" using p by auto
    note step = checkRateLimit_step [OF p(1) this(1) pos(1) refl pos(2) this(2) refl refl refl c]
    have s: "sorted (rq_time r # map rq_time rs)" "distinct (map rq_id ((if rl_allowed res then as @ [r] else as) @ rs))"
      using p(2,3) by auto
    show ?thesis using Cons.IH [OF step(2) s] c step(1) by (cases "rl_run cfg rs st'") (auto simp: Let_def)
  qed
  {
    case 1
    then show ?case using main by blast
  next
    case 2
    then show ?case using main by blast
  }
qed

lemma in_window_append: "in_window w m x (as @ bs) = in_window w m x as @ in_window w m x bs"
  by (simp add: in_window_def)

lemma in_window_mono:
  assumes "t \<le> x" "\<forall>r \<in> set as. rq_time r \<le> t"
  shows "length (in_window w m x as) \<le> length (in_window w m t as)"
proof -
  have "in_window w m x as = filter (\<lambda>r. x - w < rq_time r) (in_window w m t as)"
    unfolding in_window_def filter_filter using assms by (intro filter_cong) auto
  then show ?thesis by simp
qed

text \<open>No window of the log ever holds more than the limit.\<close>

definition bounded :: "rate_config \<Rightarrow> rl_request list \<Rightarrow> bool" where
  "bounded cfg as \<longleftrightarrow> (\<forall>m x. int (length (in_window (rl_windowSeconds cfg * 1000) m x as)) \<le> rl_limit cfg)"

lemma bounded_step:
  assumes "bounded cfg as" "\<forall>q \<in> set as. rq_time q \<le> rq_time r"
    and "int (length (in_window (rl_windowSeconds cfg * 1000) (rq_merchant r) (rq_time r) as)) < rl_limit cfg"
  shows "bounded cfg (as @ [r])"
proof -
  let ?w = "rl_windowSeconds cfg * 1000"
  have "int (length (in_window ?w m x (as @ [r]))) \<le> rl_limit cfg" for m x
  proof (cases "m = rq_merchant r \<and> rq_time r \<le> x")
    case True
    with in_window_mono [OF _ assms(2), of x ?w m] assms(3) show ?thesis
      by (auto simp: in_window_append in_window_def)
  next
    case False
    then have "in_window ?w m x (as @ [r]) = in_window ?w m x as" by (auto simp: in_window_def)
    with assms(1) show ?thesis by (simp add: bounded_def)
  qed
  then show ?thesis by (simp add: bounded_def)
qed

lemma sliding_log_bounded:
  assumes "bounded cfg as" "\<forall>q \<in> set as. rq_time q \<le> now" "sorted (now # map rq_time rs)"
  shows "bounded cfg (as @ sliding_log cfg rs as)"
  using assms
proof (induction rs arbitrary: now as)
  case Nil
  then show ?case by simp
next
  case (Cons r rs)
  have le: "\<forall>q \<in> set as. rq_time q \<le> rq_time r" and s: "sorted (rq_time r # map rq_time rs)"
    using Cons.prems(2,3) by fastforce+
  show ?case
  proof (cases "int (length (in_window (rl_windowSeconds cfg * 1000) (rq_merchant r) (rq_time r) as)) < rl_limit cfg")
    case True
    have "bounded cfg ((as @ [r]) @ sliding_log cfg rs (as @ [r]))"
      by (rule Cons.IH [OF bounded_step [OF Cons.prems(1) le True] _ s]) (use le in auto)
    with True show ?thesis by simp
  next
    case False
    with Cons.IH [OF Cons.prems(1) le s] show ?thesis by simp
  qed
qed

lemma bounded_Nil: "rl_config_ok cfg \<Longrightarrow> bounded cfg []"
  by (simp add: bounded_def in_window_def rl_config_ok_def)

section \<open>Properties\<close>

text \<open>
  C9. The sliding window does what its comment says, for any interleaving of merchants, as long as the
  clock does not go back and request identifiers are not repeated: a request is let through exactly
  when fewer than \<open>limit\<close> requests of its merchant were let through in the last window, so no window,
  wherever it ends, ever holds more than \<open>limit\<close>; neither the expiry of keys nor the cleaning up
  changes that.
\<close>

theorem rate_limit_window:
  assumes "rl_config_ok cfg" "sorted (map rq_time rs)" "distinct (map rq_id rs)"
  shows "fst (rl_run cfg rs (\<lambda>k. None)) = sliding_log cfg rs []
    \<and> (\<forall>m x. int (length (in_window (rl_windowSeconds cfg * 1000) m x (fst (rl_run cfg rs (\<lambda>k. None))))) \<le> rl_limit cfg)"
proof (cases rs)
  case Nil
  with assms(1) show ?thesis by (simp add: in_window_def rl_config_ok_def)
next
  case (Cons r rs')
  then have s: "sorted (rq_time r # map rq_time rs)" using assms(2) by simp
  have "fst (rl_run cfg rs (\<lambda>k. None)) = sliding_log cfg rs []"
    by (rule rl_run_log(1) [OF log_inv_empty assms(1) s]) (use assms(3) in simp)
  moreover have "bounded cfg (sliding_log cfg rs [])"
    using sliding_log_bounded [OF bounded_Nil [OF assms(1)] _ s] by simp
  ultimately show ?thesis by (simp add: bounded_def)
qed

definition sample_rate_config :: rate_config where
  "sample_rate_config = \<lparr>rl_limit = 2, rl_windowSeconds = 1\<rparr>"

definition sample_run :: "rl_request list" where
  "sample_run = [\<lparr>rq_time = 0, rq_merchant = ''m'', rq_id = ''a''\<rparr>, \<lparr>rq_time = 10, rq_merchant = ''m'', rq_id = ''b''\<rparr>,
     \<lparr>rq_time = 20, rq_merchant = ''m'', rq_id = ''c''\<rparr>, \<lparr>rq_time = 1000, rq_merchant = ''m'', rq_id = ''d''\<rparr>]"

theorem rate_limit_window_witness:
  "map rq_id (fst (rl_run sample_rate_config sample_run (\<lambda>k. None))) = [''a'', ''b'', ''d'']"
proof -
  have "fst (rl_run sample_rate_config sample_run (\<lambda>k. None)) = sliding_log sample_rate_config sample_run []"
    using rate_limit_window [of sample_rate_config sample_run]
    by (simp add: sample_rate_config_def sample_run_def rl_config_ok_def)
  then show ?thesis by (simp add: sample_rate_config_def sample_run_def in_window_def)
qed

text \<open>
  C36. A client that repeats one request identifier is never limited: the sorted set is keyed by it, so
  the set keeps a single member however many requests arrive, with any limit above one.
\<close>

theorem repeated_request_id_unlimited:
  assumes "2 \<le> rl_limit cfg" "\<forall>r \<in> set rs. rq_merchant r = m \<and> rq_id r = i"
  shows "fst (rl_run cfg rs (\<lambda>k. None)) = rs"
proof -
  have "fst (rl_run cfg rs st) = rs"
    if "\<forall>t. \<exists>ts. zget t st (rate_limit_key m) = map (Pair i) ts \<and> length ts \<le> 1" for st
    using assms(2) that
  proof (induction rs arbitrary: st)
    case Nil
    then show ?case by simp
  next
    case (Cons r rs)
    let ?k = "rate_limit_key m" and ?w = "rl_windowSeconds cfg * 1000"
    let ?z1 = "zremrangebyscore (rq_time r - ?w) (zget (rq_time r) st ?k)"
    obtain ts where ts: "zget (rq_time r) st ?k = map (Pair i) ts" "length ts \<le> 1" using Cons.prems(2) by blast
    have z1: "length ?z1 \<le> 1" "\<forall>e \<in> set ?z1. fst e = i"
      using ts le_trans [OF length_filter_le] by (auto simp: zremrangebyscore_def)
    then have add: "zadd (rq_time r) i ?z1 = [(i, rq_time r)]" by (simp add: zadd_def filter_empty_conv)
    have al: "int (length ?z1) < rl_limit cfg" using z1(1) assms(1) by linarith
    let ?st = "st(?k := Some ([(i, rq_time r)], rq_time r + ?w))"
    obtain res where c: "checkRateLimit (rq_time r) (rq_merchant r) (rl_limit cfg) (rl_windowSeconds cfg) (rq_id r) st = (res, ?st)"
      "rl_allowed res"
      using Cons.prems(1) al add by (simp add: checkRateLimit_def lua_rate_limit_def Let_def)
    have "fst (rl_run cfg rs ?st) = rs"
    proof (rule Cons.IH)
      show "\<forall>t. \<exists>ts. zget t ?st ?k = map (Pair i) ts \<and> length ts \<le> 1"
        by (auto simp: zget_upd intro: exI [of _ "[]"] exI [of _ "[rq_time r]"])
    qed (use Cons.prems in simp)
    then show ?case using c by (cases "rl_run cfg rs ?st") (simp add: Let_def)
  qed
  from this [of "\<lambda>k. None"] show ?thesis by (simp add: zget_def)
qed

theorem repeated_request_id_unlimited_witness:
  "length (fst (rl_run sample_rate_config (replicate 1000 \<lparr>rq_time = 0, rq_merchant = ''m'', rq_id = ''a''\<rparr>) (\<lambda>k. None))) = 1000"
  by (subst repeated_request_id_unlimited [where m = "''m''" and i = "''a''"]) (simp_all add: sample_rate_config_def)

text \<open>
  A refused merchant learns the truth: the reset instant announced with a refusal lies ahead, within
  one window, and a request at that instant, with no other before it, is let through.
\<close>

theorem refused_then_admitted:
  assumes "rl_config_ok cfg" "sorted (map rq_time rs @ [t])" "distinct (i # j # map rq_id rs)"
    and "checkRateLimit t m (rl_limit cfg) (rl_windowSeconds cfg) i (snd (rl_run cfg rs (\<lambda>k. None))) = (res, st')"
    and "\<not> rl_allowed res"
  shows "t < rl_resetTimeMs res \<and> rl_resetTimeMs res \<le> t + rl_windowSeconds cfg * 1000
    \<and> rl_allowed (fst (checkRateLimit (rl_resetTimeMs res) m (rl_limit cfg) (rl_windowSeconds cfg) j st'))"
proof -
  let ?w = "rl_windowSeconds cfg * 1000" and ?st = "snd (rl_run cfg rs (\<lambda>k. None))"
  let ?as = "sliding_log cfg rs []" and ?r = "\<lparr>rq_time = t, rq_merchant = m, rq_id = i\<rparr>"
  let ?x = "rl_resetTimeMs res"
  define now where "now = hd (map rq_time rs @ [t])"
  have s: "sorted (now # map rq_time rs)" and last: "last (now # map rq_time rs) \<le> t"
    using assms(2) by (cases rs; auto simp: now_def sorted_append last_map)+
  have sub: "set (sliding_log cfg rs as) \<subseteq> set rs" for as by (induction rs arbitrary: as) auto
  have new: "i \<notin> rq_id ` set ?as" "j \<notin> rq_id ` set ?as" using assms(3) sub [of "[]"] by auto
  have inv: "log_inv ?w t ?as ?st"
    using rl_run_log(2) [OF log_inv_empty assms(1) s] assms(3) log_inv_later [OF _ last] by simp
  have pos: "0 < ?w" "0 < rl_limit cfg" using assms(1) by (simp_all add: rl_config_ok_def)
  note step = checkRateLimit_step [OF inv order_refl pos(1) refl pos(2) new(1) _ _ _ assms(4), of ?r]
  let ?win = "in_window ?w m t ?as"
  have full: "\<not> int (length ?win) < rl_limit cfg" and inv': "log_inv ?w t ?as st'" using step assms(5) by auto
  have bnd: "int (length ?win) \<le> rl_limit cfg"
    using sliding_log_bounded [OF bounded_Nil [OF assms(1)] _ s] by (simp add: bounded_def)
  have ne: "?win \<noteq> []" using full pos(2) by auto
  have "zremrangebyscore (t - ?w) (zget t ?st (rate_limit_key m)) = map entry_of ?win"
    by (rule log_inv_window [OF inv order_refl])
  then have x: "?x = Min (rq_time ` set ?win) + ?w"
    using assms(4,5) ne by (auto simp: checkRateLimit_def lua_rate_limit_def Let_def oldest_score_def image_image split: if_splits)
  have "Min (rq_time ` set ?win) \<in> rq_time ` set ?win" using ne by (intro Min_in) simp_all
  then obtain q where q: "Min (rq_time ` set ?win) = rq_time q" "q \<in> set ?win" by (rule imageE)
  then have xt: "t < ?x" "?x \<le> t + ?w" unfolding x q(1) by (auto simp: in_window_def)
  have "in_window ?w m ?x ?as = filter (\<lambda>r. ?x - ?w < rq_time r) ?win"
    unfolding in_window_def filter_filter using xt inv by (intro filter_cong) (auto simp: log_inv_def)
  moreover have "length (filter (\<lambda>r. ?x - ?w < rq_time r) ?win) < length ?win"
    using q unfolding x q(1) by (intro length_filter_less [of q]) simp_all
  ultimately have "int (length (in_window ?w m ?x ?as)) < rl_limit cfg" using bnd by simp
  moreover obtain res2 st2 where c: "checkRateLimit ?x m (rl_limit cfg) (rl_windowSeconds cfg) j st' = (res2, st2)"
    by (cases "checkRateLimit ?x m (rl_limit cfg) (rl_windowSeconds cfg) j st'")
  ultimately have "rl_allowed res2"
    using checkRateLimit_step(1) [OF inv' _ pos(1) refl pos(2) new(2) _ _ _ c, of "\<lparr>rq_time = ?x, rq_merchant = m, rq_id = j\<rparr>"] xt
    by simp
  with c xt show ?thesis by simp
qed

theorem refused_then_admitted_witness:
  "\<exists>res st'. checkRateLimit 20 ''m'' 2 1 ''c'' (snd (rl_run sample_rate_config (take 2 sample_run) (\<lambda>k. None))) = (res, st')
     \<and> rl_resetTimeMs res \<le> 1020 \<and> rl_allowed (fst (checkRateLimit (rl_resetTimeMs res) ''m'' 2 1 ''z'' st'))"
proof -
  obtain res st' where c: "checkRateLimit 20 ''m'' 2 1 ''c'' (snd (rl_run sample_rate_config (take 2 sample_run) (\<lambda>k. None))) = (res, st')"
    by fastforce
  have "\<not> rl_allowed (fst (checkRateLimit 20 ''m'' 2 1 ''c'' (snd (rl_run sample_rate_config (take 2 sample_run) (\<lambda>k. None)))))"
    by code_simp
  with refused_then_admitted [of sample_rate_config "take 2 sample_run" 20 "''c''" "''z''" "''m''" res st'] c
  show ?thesis by (simp add: sample_rate_config_def sample_run_def rl_config_ok_def)
qed

end
