(* ===== verification/Idempotency.thy ===== *)
theory Idempotency
  imports Errors
begin

text \<open>
  The idempotency service (\<open>apps/idempotency-service\<close>): \<open>RequestHashService\<close>, the Redis repository
  and its two Lua scripts, and \<open>IdempotencyService\<close>. Redis is a map from keys to the record stored and
  the instant it expires; the service and Redis read the same clock, in milliseconds. Every Redis
  command is a point where it may fail, before or after it took effect, and before which other
  workers may have changed the store. SHA-256 and the printing of numbers and dates are parameters.
\<close>

section \<open>Hashing a request\<close>

fun js_join :: "string \<Rightarrow> string list \<Rightarrow> string" where
  "js_join sep [] = []"
| "js_join sep [w] = w"
| "js_join sep (w # v # ws) = w @ sep @ js_join sep (v # ws)"

text \<open>
  A value of a JavaScript object: its keys are distinct. Sorting the members by key is reading the
  sorted keys one after the other.
\<close>

fun deterministicStringify :: "(jsnum \<Rightarrow> string) \<Rightarrow> json \<Rightarrow> string" where
  "deterministicStringify num JNull = []"
| "deterministicStringify num (JBool b) = (if b then ''true'' else ''false'')"
| "deterministicStringify num (JNum n) = num n"
| "deterministicStringify num (JStr s) = s"
| "deterministicStringify num (JArr xs) = ''['' @ js_join '','' (map (deterministicStringify num) xs) @ '']''"
| "deterministicStringify num (JObj ps) =
     CHR ''{'' # js_join '',''
       (map (\<lambda>(k, s). [CHR 0x22] @ k @ [CHR 0x22, CHR '':''] @ s)
         (sort_key fst (map (\<lambda>(k, v). (k, deterministicStringify num v)) ps))) @ ''}''"

definition RequestHash_generate :: "(string \<Rightarrow> string) \<Rightarrow> (jsnum \<Rightarrow> string) \<Rightarrow> json \<Rightarrow> string" where
  "RequestHash_generate sha256 num body = sha256 (deterministicStringify num body)"

section \<open>Records in Redis\<close>

datatype RequestStatus = IN_PROGRESS | COMPLETED

record idem_record =
  ir_status :: RequestStatus
  ir_ownerId :: string
  ir_requestHash :: string
  ir_statusCode :: json
  ir_headers :: json
  ir_body :: json
  ir_createdAt :: string
  ir_expiresAt :: string

type_synonym redis = "string \<Rightarrow> (idem_record \<times> int) option"

definition getRedisKey :: "string \<Rightarrow> string \<Rightarrow> string" where
  "getRedisKey merchantId idempotencyKey = ''idem:'' @ merchantId @ '':'' @ idempotencyKey"

text \<open>A key is gone once the clock has passed its expiry.\<close>

definition redis_get :: "int \<Rightarrow> string \<Rightarrow> redis \<Rightarrow> idem_record option" where
  "redis_get now k st = (case st k of Some (r, x) \<Rightarrow> if x < now then None else Some r | None \<Rightarrow> None)"

definition invalid_expire :: exn where
  "invalid_expire = JsError ''ReplyError'' [Lit ''ERR invalid expire time in set'']"

definition invalid_time :: exn where
  "invalid_time = JsError ''RangeError'' [Lit ''Invalid time value'']"

text \<open>The expiry \<open>EX ttlHours * 3600\<close> asks for; Redis refuses one that is not positive.\<close>

definition redis_expiry :: "int \<Rightarrow> jsnum \<Rightarrow> exn + int" where
  "redis_expiry now ttlHours =
     (case ttlHours of Fin h \<Rightarrow> if 0 < h then Inr (now + \<lfloor>h * 3600000\<rfloor>) else Inl invalid_expire | _ \<Rightarrow> Inl invalid_expire)"

text \<open>\<open>createdAt\<close> and \<open>expiresAt\<close>: \<open>toISOString\<close> throws on an instant outside JavaScript's dates.\<close>

definition record_times :: "(int \<Rightarrow> string) \<Rightarrow> int \<Rightarrow> jsnum \<Rightarrow> exn + string \<times> string" where
  "record_times iso_of now ttlHours =
     (case ttlHours of
        Fin h \<Rightarrow> (let x = now + \<lfloor>h * 3600000\<rfloor> in
                 if \<bar>x\<bar> \<le> 8640000000000000 then Inr (iso_of now, iso_of x) else Inl invalid_time)
      | _ \<Rightarrow> Inl invalid_time)"

section \<open>The repository\<close>

definition Redis_findRequest :: "int \<Rightarrow> string \<Rightarrow> string \<Rightarrow> redis \<Rightarrow> idem_record option" where
  "Redis_findRequest now m k st = redis_get now (getRedisKey m k) st"

definition in_progress_record :: "string \<Rightarrow> string \<Rightarrow> string \<Rightarrow> string \<Rightarrow> idem_record" where
  "in_progress_record ownerId requestHash created expires =
     \<lparr>ir_status = IN_PROGRESS, ir_ownerId = ownerId, ir_requestHash = requestHash, ir_statusCode = JNull,
      ir_headers = JNull, ir_body = JNull, ir_createdAt = created, ir_expiresAt = expires\<rparr>"

definition completed_record ::
  "string \<Rightarrow> string \<Rightarrow> json \<Rightarrow> json \<Rightarrow> json \<Rightarrow> string \<Rightarrow> string \<Rightarrow> idem_record" where
  "completed_record ownerId requestHash statusCode hdrs body created expires =
     \<lparr>ir_status = COMPLETED, ir_ownerId = ownerId, ir_requestHash = requestHash, ir_statusCode = statusCode,
      ir_headers = hdrs, ir_body = body, ir_createdAt = created, ir_expiresAt = expires\<rparr>"

text \<open>\<open>SET key value EX ttl NX\<close>.\<close>

definition Redis_createInProgress ::
  "(int \<Rightarrow> string) \<Rightarrow> int \<Rightarrow> string \<Rightarrow> string \<Rightarrow> string \<Rightarrow> string \<Rightarrow> jsnum \<Rightarrow> redis \<Rightarrow> exn + bool \<times> redis" where
  "Redis_createInProgress iso_of now m k requestHash ownerId ttlHours st =
     rbind (record_times iso_of now ttlHours) (\<lambda>(created, expires).
     rbind (redis_expiry now ttlHours) (\<lambda>x.
       if redis_get now (getRedisKey m k) st = None
       then Inr (True, st(getRedisKey m k \<mapsto> (in_progress_record ownerId requestHash created expires, x)))
       else Inr (False, st)))"

definition Redis_markCompleted ::
  "(int \<Rightarrow> string) \<Rightarrow> int \<Rightarrow> string \<Rightarrow> string \<Rightarrow> string \<Rightarrow> string \<Rightarrow> json \<Rightarrow> json \<Rightarrow> json \<Rightarrow> jsnum \<Rightarrow> redis \<Rightarrow>
     exn + bool \<times> redis" where
  "Redis_markCompleted iso_of now m k ownerId requestHash statusCode hdrs body ttlHours st =
     rbind (record_times iso_of now ttlHours) (\<lambda>(created, expires).
       case redis_get now (getRedisKey m k) st of
         None \<Rightarrow> Inr (False, st)
       | Some r \<Rightarrow>
           if ir_ownerId r = ownerId
           then rbind (redis_expiry now ttlHours) (\<lambda>x.
                  Inr (True, st(getRedisKey m k \<mapsto>
                    (completed_record ownerId requestHash statusCode hdrs body created expires, x))))
           else Inr (False, st))"

definition Redis_delete :: "int \<Rightarrow> string \<Rightarrow> string \<Rightarrow> string \<Rightarrow> redis \<Rightarrow> bool \<times> redis" where
  "Redis_delete now m k ownerId st =
     (case redis_get now (getRedisKey m k) st of
        None \<Rightarrow> (False, st)
      | Some r \<Rightarrow> if ir_ownerId r = ownerId then (True, st(getRedisKey m k := None)) else (False, st))"

text \<open>\<open>EXPIRE\<close> with a time that is not positive deletes the key.\<close>

definition Redis_extendTTL :: "int \<Rightarrow> string \<Rightarrow> string \<Rightarrow> rat \<Rightarrow> redis \<Rightarrow> bool \<times> redis" where
  "Redis_extendTTL now m k ttlHours st =
     (case redis_get now (getRedisKey m k) st of
        None \<Rightarrow> (False, st)
      | Some r \<Rightarrow> (True, st(getRedisKey m k := (if 0 < ttlHours then Some (r, now + \<lfloor>ttlHours * 3600000\<rfloor>) else None))))"

definition Redis_exists :: "int \<Rightarrow> string \<Rightarrow> string \<Rightarrow> redis \<Rightarrow> bool" where
  "Redis_exists now m k st \<longleftrightarrow> redis_get now (getRedisKey m k) st \<noteq> None"

section \<open>The service\<close>

datatype ipoint = R_create | R_find | R_recreate | R_refind | R_complete | R_delete

text \<open>\<open>ie_fault\<close>: the call throws; the flag tells whether Redis had executed it.\<close>

record idem_env =
  ie_ttlHours :: jsnum
  ie_uuid :: string
  ie_hash :: "json \<Rightarrow> string"
  ie_iso :: "int \<Rightarrow> string"
  ie_clock :: "ipoint \<Rightarrow> int"
  ie_fault :: "ipoint \<Rightarrow> (exn \<times> bool) option"
  ie_between :: "ipoint \<Rightarrow> redis \<Rightarrow> redis"

type_synonym 'a icall = "(redis, exn, 'a) proc"

definition redis_call :: "idem_env \<Rightarrow> ipoint \<Rightarrow> (int \<Rightarrow> redis \<Rightarrow> exn + 'a \<times> redis) \<Rightarrow> 'a icall" where
  "redis_call env pt f = (\<lambda>st.
     let st1 = ie_between env pt st;
         r = f (ie_clock env pt) st1
     in case ie_fault env pt of
          Some (e, executed) \<Rightarrow> (Inl e, if executed then (case r of Inr (x, st2) \<Rightarrow> st2 | Inl e2 \<Rightarrow> st1) else st1)
        | None \<Rightarrow> (case r of Inl e \<Rightarrow> (Inl e, st1) | Inr (x, st2) \<Rightarrow> (Inr x, st2)))"

datatype check_result = Miss (miss_owner: string) (miss_hash: string) | Replay json json json

definition idem_exn :: "string \<Rightarrow> string option \<Rightarrow> nat \<Rightarrow> exn" where
  "idem_exn err msg status = http_exn ([(''error'', JStr err)] @ opt_prop ''message'' msg) status"

definition UNABLE_TO_LOCK :: exn where
  "UNABLE_TO_LOCK = idem_exn ''INTERNAL_SERVER_ERROR'' (Some ''Unable to acquire idempotency lock'') 500"
definition KEY_REUSED :: exn where
  "KEY_REUSED = idem_exn (platform_str IDEMPOTENCY_CONFLICT) (Some ''IDEMPOTENCY_KEY_REUSED_WITH_DIFFERENT_REQUEST'') 422"
definition ALREADY_IN_PROGRESS :: exn where
  "ALREADY_IN_PROGRESS = idem_exn ''REQUEST_ALREADY_IN_PROGRESS'' None 409"
definition LOCK_OWNERSHIP_MISMATCH :: exn where
  "LOCK_OWNERSHIP_MISMATCH = idem_exn ''LOCK_OWNERSHIP_MISMATCH''
     (Some ''Failed to complete: request lock expired or owned by another process'') 409"

definition try_lock :: "idem_env \<Rightarrow> ipoint \<Rightarrow> string \<Rightarrow> string \<Rightarrow> string \<Rightarrow> bool icall" where
  "try_lock env pt m k h = redis_call env pt (\<lambda>now. Redis_createInProgress (ie_iso env) now m k h (ie_uuid env) (ie_ttlHours env))"

definition look_up :: "idem_env \<Rightarrow> ipoint \<Rightarrow> string \<Rightarrow> string \<Rightarrow> idem_record option icall" where
  "look_up env pt m k = redis_call env pt (\<lambda>now st. Inr (Redis_findRequest now m k st, st))"

text \<open>Steps 3 to 5 of \<open>check\<close>, on the record found.\<close>

definition judge :: "string \<Rightarrow> idem_record \<Rightarrow> check_result icall" where
  "judge requestHash r =
     (if ir_requestHash r \<noteq> requestHash then pthrow KEY_REUSED
      else if ir_status r = IN_PROGRESS then pthrow ALREADY_IN_PROGRESS
      else preturn (Replay (ir_statusCode r) (ir_headers r) (ir_body r)))"

definition idem_check :: "idem_env \<Rightarrow> string \<Rightarrow> string \<Rightarrow> json \<Rightarrow> check_result icall" where
  "idem_check env m k requestBody =
     (let requestHash = ie_hash env requestBody;
          miss = Miss (ie_uuid env) requestHash
      in pbind (try_lock env R_create m k requestHash) (\<lambda>acquired.
         if acquired then preturn miss
         else pbind (look_up env R_find m k) (\<lambda>found. case found of
             Some r \<Rightarrow> judge requestHash r
           | None \<Rightarrow> pbind (try_lock env R_recreate m k requestHash) (\<lambda>reAcquired.
               if reAcquired then preturn miss
               else pbind (look_up env R_refind m k) (\<lambda>again. case again of
                   None \<Rightarrow> pthrow UNABLE_TO_LOCK
                 | Some r \<Rightarrow> judge requestHash r)))))"

definition idem_complete ::
  "idem_env \<Rightarrow> string \<Rightarrow> string \<Rightarrow> string \<Rightarrow> string \<Rightarrow> json \<Rightarrow> json \<Rightarrow> json \<Rightarrow> unit icall" where
  "idem_complete env m k ownerId requestHash statusCode hdrs body =
     pbind (redis_call env R_complete (\<lambda>now.
              Redis_markCompleted (ie_iso env) now m k ownerId requestHash statusCode hdrs body (ie_ttlHours env)))
       (\<lambda>success. if success then preturn () else pthrow LOCK_OWNERSHIP_MISMATCH)"

definition idem_cleanup :: "idem_env \<Rightarrow> string \<Rightarrow> string \<Rightarrow> string \<Rightarrow> unit icall" where
  "idem_cleanup env m k ownerId =
     pbind (redis_call env R_delete (\<lambda>now st. Inr (Redis_delete now m k ownerId st))) (\<lambda>success. preturn ())"

section \<open>What the hash sees\<close>

text \<open>The same value up to the order of the members of its objects, at any depth.\<close>

inductive same_value :: "json \<Rightarrow> json \<Rightarrow> bool" where
  Refl: "same_value v v"
| Arr: "list_all2 same_value xs ys \<Longrightarrow> same_value (JArr xs) (JArr ys)"
| Obj: "list_all2 (\<lambda>p q. fst p = fst q \<and> same_value (snd p) (snd q)) ps qs \<Longrightarrow> distinct (map fst ps) \<Longrightarrow>
     distinct (map fst qs') \<Longrightarrow> set qs = set qs' \<Longrightarrow> same_value (JObj ps) (JObj qs')"

lemma sort_key_set_cong:
  fixes f :: "'a \<Rightarrow> 'k :: linorder"
  assumes "distinct (map f xs)" "distinct (map f ys)" "set xs = set ys"
  shows "sort_key f xs = sort_key f ys"
proof (rule map_sorted_distinct_set_unique [of f])
  show "inj_on f (set (sort_key f xs) \<union> set (sort_key f ys))" using assms by (simp add: distinct_map)
  show "distinct (map f (sort_key f xs))" "distinct (map f (sort_key f ys))"
    using assms by (simp_all add: distinct_map distinct_sort)
qed (use assms in simp_all)

lemma stringify_same_value: "same_value v w \<Longrightarrow> deterministicStringify num v = deterministicStringify num w"
proof (induction rule: same_value.induct)
  case (Refl v)
  then show ?case by simp
next
  case (Arr xs ys)
  then have "map (deterministicStringify num) xs = map (deterministicStringify num) ys"
    by (induction rule: list_all2_induct) auto
  then show ?case by (simp only: deterministicStringify.simps)
next
  case (Obj ps qs qs')
  let ?f = "\<lambda>(k, v). (k :: string, deterministicStringify num v)"
  have fst_map: "map fst (map ?f zs) = map fst zs" for zs by (induction zs) auto
  have "map ?f ps = map ?f qs \<and> map fst ps = map fst qs" using Obj(1) by (induction rule: list_all2_induct) auto
  then have "distinct (map fst (map ?f ps))" "set (map ?f ps) = set (map ?f qs')"
    using Obj(2,4) fst_map [of ps] by (simp_all only: list.set_map)
  moreover have "distinct (map fst (map ?f qs'))" using Obj(3) fst_map [of qs'] by (simp only:)
  ultimately have "sort_key fst (map ?f ps) = sort_key fst (map ?f qs')" by (intro sort_key_set_cong)
  then show ?case by (simp only: deterministicStringify.simps)
qed

section \<open>Properties of the hash\<close>

text \<open>
  C37. Requests that differ only in the order of the members of their objects, at any depth, have the
  same hash, whatever the digest; but so do requests that differ: \<open>null\<close> and the empty string, a
  number and the string that prints it, and one member whose text spells out another.
\<close>

theorem request_hash_order_blind:
  assumes "same_value v w"
  shows "RequestHash_generate sha256 num v = RequestHash_generate sha256 num w"
  using assms stringify_same_value by (simp add: RequestHash_generate_def)

theorem request_hash_order_blind_witness:
  "RequestHash_generate (\<lambda>s. s) (\<lambda>n. ''1'') (JObj [(''b'', JNull), (''a'', JStr ''x'')])
   = RequestHash_generate (\<lambda>s. s) (\<lambda>n. ''1'') (JObj [(''a'', JStr ''x''), (''b'', JNull)])"
  by (rule request_hash_order_blind, rule same_value.Obj [where qs = "[(''b'', JNull), (''a'', JStr ''x'')]"])
     (auto intro: same_value.Refl)

theorem request_hash_collisions:
  "RequestHash_generate sha256 num (JObj [(''reference'', JNull)]) = RequestHash_generate sha256 num (JObj [(''reference'', JStr [])])
   \<and> RequestHash_generate sha256 num (JObj [(''amount'', JNum n)]) = RequestHash_generate sha256 num (JObj [(''amount'', JStr (num n))])
   \<and> RequestHash_generate sha256 num (JObj [(''a'', JStr (''x,'' @ [CHR 0x22] @ ''b'' @ [CHR 0x22] @ '':y''))])
     = RequestHash_generate sha256 num (JObj [(''a'', JStr ''x''), (''b'', JStr ''y'')])"
  by (simp add: RequestHash_generate_def insort_key_def)

section \<open>Locks that expire\<close>

text \<open>The grants and releases of a run of timed operations.\<close>

datatype 'w lock_event = Granted 'w | Released 'w

fun lock_run ::
  "(int \<Rightarrow> 'op \<Rightarrow> 's \<Rightarrow> 's) \<Rightarrow> (int \<Rightarrow> 'op \<Rightarrow> 's \<Rightarrow> 'w lock_event option) \<Rightarrow> (int \<times> 'op) list \<Rightarrow> 's \<Rightarrow> (int \<times> 'w lock_event) list" where
  "lock_run exec event [] s = []"
| "lock_run exec event ((now, a) # rest) s =
     (case event now a s of None \<Rightarrow> [] | Some e \<Rightarrow> [(now, e)]) @ lock_run exec event rest (exec now a s)"

lemma lock_run_times: "e \<in> set (lock_run exec event ops s) \<Longrightarrow> fst e \<in> fst ` set ops"
  by (induction exec event ops s rule: lock_run.induct) (auto split: option.splits)

text \<open>
  The interface a client of a lock with a lifetime relies on: a grant needs the former holder's time
  to be over and gives the lock for \<open>ttl\<close>; only the holder releases; nothing else shortens its time.
\<close>

locale expiring_lock =
  fixes exec :: "int \<Rightarrow> 'op \<Rightarrow> 's \<Rightarrow> 's"
    and event :: "int \<Rightarrow> 'op \<Rightarrow> 's \<Rightarrow> 'w lock_event option"
    and holder :: "'s \<Rightarrow> ('w \<times> int) option"
    and ttl :: int
  assumes grant: "event now a s = Some (Granted w) \<Longrightarrow> holder (exec now a s) = Some (w, now + ttl)"
    and grant_free: "event now a s = Some (Granted w) \<Longrightarrow> holder s = Some (v, x) \<Longrightarrow> x < now"
    and release: "event now a s = Some (Released w) \<Longrightarrow> \<exists>x. holder s = Some (w, x)"
    and keep: "event now a s = None \<Longrightarrow> holder s = Some (w, x) \<Longrightarrow> x \<le> now + ttl \<Longrightarrow>
       \<exists>y. holder (exec now a s) = Some (w, y) \<and> x \<le> y \<and> y \<le> now + ttl"
begin

lemma held_until:
  assumes "holder s = Some (w, x)" "x \<le> t0 + ttl" "sorted (t0 # map fst ops)"
    and "lock_run exec event ops s = ys @ (t, Granted v) # zs" "\<forall>u. (u, Released w) \<notin> set ys"
  shows "x < t"
  using assms
proof (induction ops arbitrary: s x t0 ys)
  case Nil
  then show ?case by simp
next
  case (Cons o1 ops)
  obtain now a where o1: "o1 = (now, a)" by (cases o1)
  let ?s = "exec now a s"
  have now: "t0 \<le> now" "sorted (now # map fst ops)" using Cons.prems(3) o1 by simp_all
  show ?case
  proof (cases "event now a s")
    case None
    obtain y where y: "holder ?s = Some (w, y)" "x \<le> y" "y \<le> now + ttl"
      using keep [OF None Cons.prems(1)] Cons.prems(2) now(1) by force
    from Cons.IH [OF y(1,3) now(2) _ Cons.prems(5)] Cons.prems(4) None o1 y(2) show ?thesis by simp
  next
    case (Some e)
    have evs: "(now, e) # lock_run exec event ops ?s = ys @ (t, Granted v) # zs"
      using Cons.prems(4) Some o1 by simp
    show ?thesis
    proof (cases e)
      case (Granted u)
      have "(t, Granted v) \<in> set ((now, e) # lock_run exec event ops ?s)" unfolding evs by simp
      then have "now \<le> t" using lock_run_times [of "(t, Granted v)" exec event ops ?s] now(2) by auto
      with grant_free [OF Some [unfolded Granted] Cons.prems(1)] show ?thesis by simp
    next
      case (Released u)
      with release [of now a s u] Some Cons.prems(1) have "u = w" by auto
      with Released evs Cons.prems(5) show ?thesis by (cases ys) auto
    qed
  qed
qed

lemma exclusive:
  assumes "sorted (map fst ops)"
    and "lock_run exec event ops s = xs @ (t1, Granted w) # ys @ (t2, Granted v) # zs"
  shows "(\<exists>u. (u, Released w) \<in> set ys) \<or> t1 + ttl < t2"
  using assms
proof (induction ops arbitrary: s xs)
  case Nil
  then show ?case by simp
next
  case (Cons o1 ops)
  obtain now a where o1: "o1 = (now, a)" by (cases o1)
  have s: "sorted (now # map fst ops)" "sorted (map fst ops)" using Cons.prems(1) o1 by simp_all
  show ?case
  proof (cases "event now a s")
    case None
    with Cons.IH [OF s(2)] Cons.prems(2) o1 show ?thesis by simp
  next
    case (Some e)
    have evs: "(now, e) # lock_run exec event ops (exec now a s) = xs @ (t1, Granted w) # ys @ (t2, Granted v) # zs"
      using Cons.prems(2) Some o1 by simp
    show ?thesis
    proof (cases xs)
      case Nil
      with evs have e: "now = t1" "e = Granted w" "lock_run exec event ops (exec now a s) = ys @ (t2, Granted v) # zs"
        by auto
      from held_until [OF grant [OF Some [unfolded e(2)]] order_refl s(1) e(3)] e(1) show ?thesis by blast
    next
      case (Cons x xs')
      then have "lock_run exec event ops (exec now a s) = xs' @ (t1, Granted w) # ys @ (t2, Granted v) # zs"
        using evs by simp
      from Cons.IH [OF s(2) this] show ?thesis .
    qed
  qed
qed

end

section \<open>The commands of the idempotency service on one key\<close>

datatype idem_op =
    Op_create string string string string
  | Op_complete string string string string json json json
  | Op_delete string string string

definition ttl_ms :: "jsnum \<Rightarrow> int" where
  "ttl_ms ttlHours = (case ttlHours of Fin h \<Rightarrow> \<lfloor>h * 3600000\<rfloor> | _ \<Rightarrow> 0)"

fun idem_exec :: "(int \<Rightarrow> string) \<Rightarrow> jsnum \<Rightarrow> int \<Rightarrow> idem_op \<Rightarrow> redis \<Rightarrow> redis" where
  "idem_exec iso_of ttlHours now (Op_create m k h w) st =
     (case Redis_createInProgress iso_of now m k h w ttlHours st of Inr (b, st') \<Rightarrow> st' | Inl e \<Rightarrow> st)"
| "idem_exec iso_of ttlHours now (Op_complete m k w h code hs b) st =
     (case Redis_markCompleted iso_of now m k w h code hs b ttlHours st of Inr (b, st') \<Rightarrow> st' | Inl e \<Rightarrow> st)"
| "idem_exec iso_of ttlHours now (Op_delete m k w) st = snd (Redis_delete now m k w st)"

text \<open>The lock of a key is granted by a successful \<open>SET NX\<close> and released by a successful delete.\<close>

fun idem_event :: "string \<Rightarrow> (int \<Rightarrow> string) \<Rightarrow> jsnum \<Rightarrow> int \<Rightarrow> idem_op \<Rightarrow> redis \<Rightarrow> string lock_event option" where
  "idem_event key iso_of ttlHours now (Op_create m k h w) st =
     (if getRedisKey m k \<noteq> key then None
      else case Redis_createInProgress iso_of now m k h w ttlHours st of
             Inr (b, st') \<Rightarrow> if b then Some (Granted w) else None | Inl e \<Rightarrow> None)"
| "idem_event key iso_of ttlHours now (Op_complete m k w h code hs b) st = None"
| "idem_event key iso_of ttlHours now (Op_delete m k w) st =
     (if getRedisKey m k \<noteq> key then None else if fst (Redis_delete now m k w st) then Some (Released w) else None)"

definition lock_holder :: "string \<Rightarrow> redis \<Rightarrow> (string \<times> int) option" where
  "lock_holder key st = map_option (\<lambda>(r, x). (ir_ownerId r, x)) (st key)"

lemma record_simps [simp]:
  "ir_ownerId (in_progress_record w h c e) = w" "ir_status (in_progress_record w h c e) = IN_PROGRESS"
  "ir_requestHash (in_progress_record w h c e) = h"
  "ir_ownerId (completed_record w h code hs b c e) = w" "ir_status (completed_record w h code hs b c e) = COMPLETED"
  "ir_requestHash (completed_record w h code hs b c e) = h" "ir_statusCode (completed_record w h code hs b c e) = code"
  "ir_headers (completed_record w h code hs b c e) = hs" "ir_body (completed_record w h code hs b c e) = b"
  by (simp_all add: in_progress_record_def completed_record_def)

lemma createInProgress_cases:
  assumes "Redis_createInProgress iso_of now m k h w ttlHours st = Inr (b, st')"
  obtains created expires x where "record_times iso_of now ttlHours = Inr (created, expires)" "redis_expiry now ttlHours = Inr x"
    "b = (redis_get now (getRedisKey m k) st = None)"
    "st' = (if b then st(getRedisKey m k \<mapsto> (in_progress_record w h created expires, x)) else st)"
proof -
  obtain p x where p: "record_times iso_of now ttlHours = Inr p" "redis_expiry now ttlHours = Inr x"
    using assms unfolding Redis_createInProgress_def rbind_Inr_iff by (auto simp: rbind_Inr_iff split: prod.splits)
  show thesis by (rule that [of "fst p" "snd p" x]) (use assms p in \<open>auto simp: Redis_createInProgress_def split: prod.splits if_splits\<close>)
qed

lemma markCompleted_cases:
  assumes "Redis_markCompleted iso_of now m k w h code hs body ttlHours st = Inr (b, st')"
  obtains created expires x where "record_times iso_of now ttlHours = Inr (created, expires)"
    "b = (\<exists>r. redis_get now (getRedisKey m k) st = Some r \<and> ir_ownerId r = w)"
    "b \<longrightarrow> redis_expiry now ttlHours = Inr x"
    "st' = (if b then st(getRedisKey m k \<mapsto> (completed_record w h code hs body created expires, x)) else st)"
proof -
  obtain p where p: "record_times iso_of now ttlHours = Inr p"
    using assms unfolding Redis_markCompleted_def rbind_Inr_iff by auto
  show thesis
  proof (cases "\<exists>r. redis_get now (getRedisKey m k) st = Some r \<and> ir_ownerId r = w")
    case True
    then obtain r where r: "redis_get now (getRedisKey m k) st = Some r" "ir_ownerId r = w" by blast
    obtain x where x: "redis_expiry now ttlHours = Inr x"
      using assms p r by (auto simp: Redis_markCompleted_def rbind_Inr_iff split: prod.splits)
    show thesis by (rule that [of "fst p" "snd p" x]) (use assms p r x in \<open>auto simp: Redis_markCompleted_def split: prod.splits\<close>)
  next
    case False
    then show thesis using assms p
      by (intro that [of "fst p" "snd p"]) (auto simp: Redis_markCompleted_def split: prod.splits option.splits)
  qed
qed

lemma redis_expiry_ttl: "redis_expiry now ttlHours = Inr x \<Longrightarrow> x = now + ttl_ms ttlHours"
  by (auto simp: redis_expiry_def ttl_ms_def split: jsnum.splits if_splits)

text \<open>What each command does to the lock of a key.\<close>

lemma create_holder:
  assumes "Redis_createInProgress iso_of now m k h w ttlHours st = Inr (b, st')"
  shows "b = (redis_get now (getRedisKey m k) st = None)"
    and "lock_holder key st' = (if b \<and> getRedisKey m k = key then Some (w, now + ttl_ms ttlHours) else lock_holder key st)"
  using assms by (auto elim!: createInProgress_cases simp: lock_holder_def redis_expiry_ttl)

lemma complete_holder:
  assumes "Redis_markCompleted iso_of now m k w h code hs body ttlHours st = Inr (b, st')"
  shows "b = (\<exists>r. redis_get now (getRedisKey m k) st = Some r \<and> ir_ownerId r = w)"
    and "lock_holder key st' = (if b \<and> getRedisKey m k = key then Some (w, now + ttl_ms ttlHours) else lock_holder key st)"
proof -
  from assms obtain created expires x where "record_times iso_of now ttlHours = Inr (created, expires)"
    and c: "b = (\<exists>r. redis_get now (getRedisKey m k) st = Some r \<and> ir_ownerId r = w)"
    "b \<longrightarrow> redis_expiry now ttlHours = Inr x"
    "st' = (if b then st(getRedisKey m k \<mapsto> (completed_record w h code hs body created expires, x)) else st)"
    by (rule markCompleted_cases)
  show "b = (\<exists>r. redis_get now (getRedisKey m k) st = Some r \<and> ir_ownerId r = w)" by (rule c(1))
  show "lock_holder key st' = (if b \<and> getRedisKey m k = key then Some (w, now + ttl_ms ttlHours) else lock_holder key st)"
    using c(2) redis_expiry_ttl by (auto simp: c(3) lock_holder_def)
qed

lemma delete_holder:
  assumes "Redis_delete now m k w st = (b, st')"
  shows "b = (\<exists>r. redis_get now (getRedisKey m k) st = Some r \<and> ir_ownerId r = w)"
    and "lock_holder key st' = (if b \<and> getRedisKey m k = key then None else lock_holder key st)"
  using assms by (auto simp: Redis_delete_def lock_holder_def split: option.splits if_splits)

lemma get_holder: "lock_holder key st = Some (w, x) \<Longrightarrow> redis_get now key st = None \<Longrightarrow> x < now"
  "redis_get now key st = Some r \<Longrightarrow> \<exists>x. lock_holder key st = Some (ir_ownerId r, x)"
  by (auto simp: lock_holder_def redis_get_def split: option.splits if_splits)

lemma event_granted:
  assumes "idem_event key iso_of ttlHours now a s = Some (Granted w)"
  shows "lock_holder key (idem_exec iso_of ttlHours now a s) = Some (w, now + ttl_ms ttlHours) \<and> redis_get now key s = None"
proof -
  obtain m k h where a: "a = Op_create m k h w" "getRedisKey m k = key"
    using assms by (cases a) (auto split: if_splits sum.splits)
  obtain s' where c: "Redis_createInProgress iso_of now m k h w ttlHours s = Inr (True, s')"
    using assms a by (auto split: if_splits sum.splits)
  show ?thesis using create_holder [OF c] a c by simp
qed

lemma event_released:
  assumes "idem_event key iso_of ttlHours now a s = Some (Released w)"
  shows "\<exists>x. lock_holder key s = Some (w, x)"
proof -
  obtain m k where a: "a = Op_delete m k w" "getRedisKey m k = key" "fst (Redis_delete now m k w s)"
    using assms by (cases a) (auto split: if_splits sum.splits)
  then show ?thesis using delete_holder(1) [of now m k w s True] get_holder(2) by (cases "Redis_delete now m k w s") auto
qed

lemma event_none:
  assumes "idem_event key iso_of ttlHours now a s = None" "lock_holder key s = Some (w, x)" "x \<le> now + ttl_ms ttlHours"
  shows "\<exists>y. lock_holder key (idem_exec iso_of ttlHours now a s) = Some (w, y) \<and> x \<le> y \<and> y \<le> now + ttl_ms ttlHours"
proof (cases a)
  case (Op_create m k h u)
  show ?thesis
  proof (cases "Redis_createInProgress iso_of now m k h u ttlHours s")
    case (Inl e)
    with assms(2,3) Op_create show ?thesis by simp
  next
    case (Inr p)
    obtain b s' where p: "p = (b, s')" by (cases p)
    have "lock_holder key s' = lock_holder key s" using create_holder(2) [of iso_of now m k h u ttlHours s b s' key] assms(1) Inr p Op_create
      by (auto split: if_splits)
    with assms(2,3) Inr p Op_create show ?thesis by simp
  qed
next
  case (Op_complete m k u h code hs body)
  show ?thesis
  proof (cases "Redis_markCompleted iso_of now m k u h code hs body ttlHours s")
    case (Inl e)
    with assms(2,3) Op_complete show ?thesis by simp
  next
    case (Inr p)
    obtain b s' where p: "p = (b, s')" by (cases p)
    note c = complete_holder [OF Inr [unfolded p]]
    have "b \<Longrightarrow> getRedisKey m k = key \<Longrightarrow> u = w" using c(1) assms(2) get_holder(2) by fastforce
    with c(2) [of key] assms(2,3) Inr p Op_complete show ?thesis by (cases "b \<and> getRedisKey m k = key") auto
  qed
next
  case (Op_delete m k u)
  obtain b s' where d: "Redis_delete now m k u s = (b, s')" by (cases "Redis_delete now m k u s")
  with assms(1) Op_delete have "lock_holder key s' = lock_holder key s" using delete_holder(2) [OF d, of key] by (auto split: if_splits)
  with assms(2,3) d Op_delete show ?thesis by simp
qed

interpretation idem_lock: expiring_lock "idem_exec iso_of ttlHours" "idem_event key iso_of ttlHours" "lock_holder key" "ttl_ms ttlHours"
  for iso_of ttlHours key
proof unfold_locales
  fix now a w v x and s :: redis
  show "idem_event key iso_of ttlHours now a s = Some (Granted w) \<Longrightarrow> lock_holder key s = Some (v, x) \<Longrightarrow> x < now"
    using event_granted get_holder(1) by blast
  show "idem_event key iso_of ttlHours now a s = None \<Longrightarrow> lock_holder key s = Some (w, x) \<Longrightarrow> x \<le> now + ttl_ms ttlHours \<Longrightarrow>
      \<exists>y. lock_holder key (idem_exec iso_of ttlHours now a s) = Some (w, y) \<and> x \<le> y \<and> y \<le> now + ttl_ms ttlHours"
    by (rule event_none)
qed (use event_granted event_released in \<open>blast+\<close>)

section \<open>The service on an undisturbed store\<close>

text \<open>No failing command, nobody else at work, one instant.\<close>

definition undisturbed :: "idem_env \<Rightarrow> int \<Rightarrow> bool" where
  "undisturbed env t \<longleftrightarrow> (\<forall>pt. ie_fault env pt = None \<and> ie_between env pt = id \<and> ie_clock env pt = t) \<and>
     (\<exists>times x. record_times (ie_iso env) t (ie_ttlHours env) = Inr times \<and> redis_expiry t (ie_ttlHours env) = Inr x)"

lemma undisturbed_call: "undisturbed env t \<Longrightarrow> redis_call env pt f st = (case f t st of Inl e \<Rightarrow> (Inl e, st) | Inr (x, st') \<Rightarrow> (Inr x, st'))"
  by (simp add: redis_call_def undisturbed_def Let_def)

lemma undisturbed_try_lock:
  assumes "undisturbed env t"
  shows "\<exists>r. ir_status r = IN_PROGRESS \<and> ir_ownerId r = ie_uuid env \<and> ir_requestHash r = h \<and>
    (\<forall>pt st. try_lock env pt m k h st = (if redis_get t (getRedisKey m k) st = None
        then (Inr True, st(getRedisKey m k \<mapsto> (r, t + ttl_ms (ie_ttlHours env)))) else (Inr False, st)))"
proof -
  obtain c e x where tm: "record_times (ie_iso env) t (ie_ttlHours env) = Inr (c, e)" "redis_expiry t (ie_ttlHours env) = Inr x"
    using assms by (auto simp: undisturbed_def)
  show ?thesis
    by (rule exI [of _ "in_progress_record (ie_uuid env) h c e"])
       (simp add: try_lock_def undisturbed_call [OF assms] Redis_createInProgress_def tm redis_expiry_ttl [OF tm(2)])
qed

lemma undisturbed_look_up: "undisturbed env t \<Longrightarrow> look_up env pt m k st = (Inr (redis_get t (getRedisKey m k) st), st)"
  by (simp add: look_up_def undisturbed_call Redis_findRequest_def)

text \<open>What \<open>check\<close> answers about a record found.\<close>

definition verdict :: "string \<Rightarrow> idem_record \<Rightarrow> exn + check_result" where
  "verdict h r = (if ir_requestHash r \<noteq> h then Inl KEY_REUSED else if ir_status r = IN_PROGRESS then Inl ALREADY_IN_PROGRESS
     else Inr (Replay (ir_statusCode r) (ir_headers r) (ir_body r)))"

lemma judge_verdict: "judge h r st = (verdict h r, st)"
  by (simp add: judge_def verdict_def)

lemma check_found:
  assumes "undisturbed env t" "redis_get t (getRedisKey m k) st = Some r"
  shows "idem_check env m k body st = (verdict (ie_hash env body) r, st)"
proof -
  have "try_lock env R_create m k (ie_hash env body) st = (Inr False, st)"
    using undisturbed_try_lock [OF assms(1), of "ie_hash env body" m k] assms(2) by auto
  moreover have "look_up env R_find m k st = (Inr (Some r), st)" using undisturbed_look_up [OF assms(1)] assms(2) by simp
  ultimately show ?thesis by (simp add: idem_check_def Let_def pbind_def judge_verdict)
qed

lemma check_free:
  assumes "undisturbed env t" "redis_get t (getRedisKey m k) st = None"
  shows "\<exists>r. idem_check env m k body st = (Inr (Miss (ie_uuid env) (ie_hash env body)),
           st(getRedisKey m k \<mapsto> (r, t + ttl_ms (ie_ttlHours env)))) \<and>
         ir_status r = IN_PROGRESS \<and> ir_ownerId r = ie_uuid env \<and> ir_requestHash r = ie_hash env body"
proof -
  obtain q where l: "ir_status q = IN_PROGRESS" "ir_ownerId q = ie_uuid env" "ir_requestHash q = ie_hash env body"
    "\<forall>pt st. try_lock env pt m k (ie_hash env body) st = (if redis_get t (getRedisKey m k) st = None
        then (Inr True, st(getRedisKey m k \<mapsto> (q, t + ttl_ms (ie_ttlHours env)))) else (Inr False, st))"
    using undisturbed_try_lock [OF assms(1), of "ie_hash env body" m k] by blast
  then have "try_lock env R_create m k (ie_hash env body) st = (Inr True, st(getRedisKey m k \<mapsto> (q, t + ttl_ms (ie_ttlHours env))))"
    using assms(2) by simp
  then show ?thesis by (intro exI [of _ q]) (simp add: idem_check_def Let_def pbind_def l(1-3))
qed

section \<open>Answers under interference\<close>

text \<open>Whatever fails and whatever others do meanwhile, a \<open>Miss\<close> means that this request holds the lock.\<close>

definition locked_by :: "idem_env \<Rightarrow> string \<Rightarrow> string \<Rightarrow> string \<Rightarrow> redis \<Rightarrow> bool" where
  "locked_by env m k h st \<longleftrightarrow> (\<exists>r x. st (getRedisKey m k) = Some (r, x) \<and> ir_status r = IN_PROGRESS \<and>
     ir_ownerId r = ie_uuid env \<and> ir_requestHash r = h)"

lemma valid_try_lock: "valid (\<lambda>st. True) (try_lock env pt m k h) (\<lambda>b st. b \<longrightarrow> locked_by env m k h st) (\<lambda>e st. True)"
  by (auto simp: valid_def try_lock_def redis_call_def Let_def locked_by_def split: option.splits sum.splits
      elim!: createInProgress_cases)

lemma valid_top: "valid P m (\<lambda>x st. True) (\<lambda>e st. True)"
  by (auto simp: valid_def split: prod.splits sum.splits)

lemma valid_judge: "valid (\<lambda>st. True) (judge h r) (\<lambda>c st. \<forall>w g. c \<noteq> Miss w g) (\<lambda>e st. True)"
  by (auto simp: valid_def judge_def preturn_def pthrow_def)

abbreviation miss_locked :: "idem_env \<Rightarrow> string \<Rightarrow> string \<Rightarrow> json \<Rightarrow> check_result \<Rightarrow> redis \<Rightarrow> bool" where
  "miss_locked env m k body c st \<equiv> \<forall>w g. c = Miss w g \<longrightarrow>
     w = ie_uuid env \<and> g = ie_hash env body \<and> locked_by env m k (ie_hash env body) st"

lemma valid_check: "valid (\<lambda>st. True) (idem_check env m k body) (miss_locked env m k body) (\<lambda>e st. True)"
proof -
  let ?h = "ie_hash env body"
  have j: "valid (\<lambda>st. True) (judge ?h r) (miss_locked env m k body) (\<lambda>e st. True)" for r
    by (rule valid_weaken [OF valid_judge]) auto
  have m: "valid (\<lambda>st. b \<longrightarrow> locked_by env m k ?h st) (if b then preturn (Miss (ie_uuid env) ?h) else f)
      (miss_locked env m k body) (\<lambda>e st. True)"
    if "valid (\<lambda>st. True) f (miss_locked env m k body) (\<lambda>e st. True)" for b f
    using that by (cases b) (auto intro!: valid_return valid_pre [OF that])
  have last: "valid (\<lambda>st. True) (case again of None \<Rightarrow> pthrow UNABLE_TO_LOCK | Some r \<Rightarrow> judge ?h r)
      (miss_locked env m k body) (\<lambda>e st. True)" for again
    using j by (cases again) (auto intro!: valid_throw)
  have "valid (\<lambda>st. True) (case found of Some r \<Rightarrow> judge ?h r
      | None \<Rightarrow> pbind (try_lock env R_recreate m k ?h) (\<lambda>b. if b then preturn (Miss (ie_uuid env) ?h)
          else pbind (look_up env R_refind m k) (\<lambda>again. case again of None \<Rightarrow> pthrow UNABLE_TO_LOCK | Some r \<Rightarrow> judge ?h r)))
      (miss_locked env m k body) (\<lambda>e st. True)" for found
  proof (cases found)
    case None
    then show ?thesis
      by (simp, intro valid_bind [OF valid_try_lock] m valid_bind [OF valid_top] last)
  qed (simp add: j)
  then show ?thesis
    unfolding idem_check_def Let_def by (intro valid_bind [OF valid_try_lock] m valid_bind [OF valid_top])
qed

section \<open>Commands of others\<close>

fun op_owner :: "idem_op \<Rightarrow> string option" where
  "op_owner (Op_create m k h w) = None"
| "op_owner (Op_complete m k w h code hs b) = Some w"
| "op_owner (Op_delete m k w) = Some w"

definition idem_run :: "(int \<Rightarrow> string) \<Rightarrow> jsnum \<Rightarrow> (int \<times> idem_op) list \<Rightarrow> redis \<Rightarrow> redis" where
  "idem_run iso_of ttlHours ops st = foldl (\<lambda>s (now, a). idem_exec iso_of ttlHours now a s) st ops"

lemma foreign_exec:
  assumes "st key = Some (r, x)" "now \<le> x" "op_owner a \<noteq> Some (ir_ownerId r)"
  shows "idem_exec iso_of ttlHours now a st key = Some (r, x)"
proof -
  have live: "redis_get now key st = Some r" using assms(1,2) by (simp add: redis_get_def)
  show ?thesis
  proof (cases a)
    case (Op_create m k h u)
    with live assms(1) show ?thesis
      by (auto elim!: createInProgress_cases split: sum.split)
  next
    case (Op_complete m k u h code hs b)
    with live assms show ?thesis
      by (auto elim!: markCompleted_cases split: sum.split)
  next
    case (Op_delete m k u)
    with live assms show ?thesis by (auto simp: Redis_delete_def split: option.split)
  qed
qed

lemma foreign_run:
  assumes "st key = Some (r, x)" "\<forall>(now, a) \<in> set ops. now \<le> x \<and> op_owner a \<noteq> Some (ir_ownerId r)"
  shows "idem_run iso_of ttlHours ops st key = Some (r, x)"
  using assms
proof (induction ops arbitrary: st)
  case Nil
  then show ?case by (simp add: idem_run_def)
next
  case (Cons p ops)
  obtain now a where p: "p = (now, a)" by (cases p)
  have "idem_exec iso_of ttlHours now a st key = Some (r, x)"
    by (rule foreign_exec) (use Cons.prems p in auto)
  with Cons.IH [of "idem_exec iso_of ttlHours now a st"] Cons.prems(2) p show ?case by (simp add: idem_run_def)
qed

lemma complete_stores:
  assumes "undisturbed env t" "idem_complete env m k w h code hs b st = (Inr (), st')"
  shows "\<exists>r. st' (getRedisKey m k) = Some (r, t + ttl_ms (ie_ttlHours env)) \<and> ir_status r = COMPLETED \<and> ir_ownerId r = w \<and>
    ir_requestHash r = h \<and> ir_statusCode r = code \<and> ir_headers r = hs \<and> ir_body r = b"
proof -
  have "Redis_markCompleted (ie_iso env) t m k w h code hs b (ie_ttlHours env) st = Inr (True, st')"
    using assms(2) unfolding idem_complete_def pbind_def
    by (auto simp: undisturbed_call [OF assms(1)] split: sum.splits if_splits)
  then show ?thesis by (rule markCompleted_cases) (auto simp: redis_expiry_ttl)
qed

section \<open>Properties of the service\<close>

text \<open>
  What \<open>check\<close> answers on an undisturbed store: a free key is locked for this request, for the
  configured lifetime, and the answer is a miss with the owner token; a key whose record has another
  request hash is refused with 422, before anything else; one in progress with 409; a completed one
  is answered with the response recorded. Only the miss changes the store.
\<close>

theorem check_outcomes:
  assumes "undisturbed env t"
  shows "case redis_get t (getRedisKey m k) st of
       None \<Rightarrow> \<exists>r. idem_check env m k body st =
           (Inr (Miss (ie_uuid env) (ie_hash env body)), st(getRedisKey m k \<mapsto> (r, t + ttl_ms (ie_ttlHours env)))) \<and>
           ir_status r = IN_PROGRESS \<and> ir_ownerId r = ie_uuid env \<and> ir_requestHash r = ie_hash env body
     | Some r \<Rightarrow> idem_check env m k body st =
          (if ir_requestHash r \<noteq> ie_hash env body then Inl KEY_REUSED
           else if ir_status r = IN_PROGRESS then Inl ALREADY_IN_PROGRESS
           else Inr (Replay (ir_statusCode r) (ir_headers r) (ir_body r)), st)"
  using check_free [OF assms, of m k st body] check_found [OF assms, of m k st _ body]
  by (auto simp: verdict_def split: option.split)

definition sample_idem_env :: "string \<Rightarrow> int \<Rightarrow> idem_env" where
  "sample_idem_env uuid t = \<lparr>ie_ttlHours = Fin 24, ie_uuid = uuid, ie_hash = (\<lambda>b. if b = JNull then ''h0'' else ''h1''),
     ie_iso = (\<lambda>t. ''t''), ie_clock = (\<lambda>pt. t), ie_fault = (\<lambda>pt. None), ie_between = (\<lambda>pt. id)\<rparr>"

lemma sample_idem_env_ok: "0 \<le> t \<Longrightarrow> t \<le> 1000000 \<Longrightarrow> undisturbed (sample_idem_env u t) t"
  and sample_ttl: "ttl_ms (ie_ttlHours (sample_idem_env u t)) = 86400000"
  by (simp_all add: undisturbed_def sample_idem_env_def record_times_def redis_expiry_def ttl_ms_def Let_def)

theorem check_outcomes_witness:
  "fst (idem_check (sample_idem_env ''u1'' 0) ''m'' ''k'' JNull (\<lambda>k. None)) = Inr (Miss ''u1'' ''h0'')"
  using check_outcomes [OF sample_idem_env_ok [of 0 "''u1''"], of "''m''" "''k''" JNull "\<lambda>k. None"]
  by (auto simp: redis_get_def sample_idem_env_def)

text \<open>
  Whatever commands fail, before or after Redis executed them, and whatever other workers do between
  them: an answer \<open>Miss\<close> carries this request's own token and hash, and at that moment the record under
  the key is this request's, in progress.
\<close>

theorem miss_means_locked:
  assumes "idem_check env m k body st = (Inr (Miss w h), st')"
  shows "w = ie_uuid env \<and> h = ie_hash env body \<and>
    (\<exists>r x. st' (getRedisKey m k) = Some (r, x) \<and> ir_status r = IN_PROGRESS \<and> ir_ownerId r = w \<and> ir_requestHash r = h)"
  using validD [OF valid_check TrueI assms] by (auto simp: locked_by_def)

theorem miss_means_locked_witness:
  "\<exists>st' r x. idem_check (sample_idem_env ''u1'' 0) ''m'' ''k'' JNull (\<lambda>k. None) = (Inr (Miss ''u1'' ''h0''), st') \<and>
     st' (getRedisKey ''m'' ''k'') = Some (r, x) \<and> ir_ownerId r = ''u1''"
proof -
  obtain st' where c: "idem_check (sample_idem_env ''u1'' 0) ''m'' ''k'' JNull (\<lambda>k. None) = (Inr (Miss ''u1'' ''h0''), st')"
    using check_free [OF sample_idem_env_ok [of 0 "''u1''"], of "''m''" "''k''" "\<lambda>k. None" JNull]
    by (auto simp: redis_get_def sample_idem_env_def)
  from miss_means_locked [OF this] c show ?thesis by blast
qed

text \<open>
  C8. Mutual exclusion over any sequence of commands of any number of requests, on this and other keys,
  as long as the clock does not go back: between two grants of one key the first holder has released
  it, or its whole lifetime has passed. Completing and extending never shorten a lock.
\<close>

theorem idempotency_lock_exclusive:
  assumes "sorted (map fst ops)"
    and "lock_run (idem_exec iso_of ttlHours) (idem_event key iso_of ttlHours) ops st = xs @ (t1, Granted w) # ys @ (t2, Granted v) # zs"
  shows "(\<exists>u. (u, Released w) \<in> set ys) \<or> t1 + ttl_ms ttlHours < t2"
  using assms by (rule idem_lock.exclusive)

theorem idempotency_lock_exclusive_witness:
  "\<exists>ys t2. lock_run (idem_exec (\<lambda>t. ''t'') (Fin 1)) (idem_event (getRedisKey ''m'' ''k'') (\<lambda>t. ''t'') (Fin 1))
      [(0, Op_create ''m'' ''k'' ''h'' ''w''), (5, Op_create ''m'' ''k'' ''h'' ''v''), (4000000, Op_create ''m'' ''k'' ''h'' ''v'')] (\<lambda>k. None)
      = [(0, Granted ''w'')] @ ys @ [(t2, Granted ''v'')] \<and> 3600000 < t2 \<and> ys = []"
proof -
  have run: "lock_run (idem_exec (\<lambda>t. ''t'') (Fin 1)) (idem_event (getRedisKey ''m'' ''k'') (\<lambda>t. ''t'') (Fin 1))
      [(0, Op_create ''m'' ''k'' ''h'' ''w''), (5, Op_create ''m'' ''k'' ''h'' ''v''), (4000000, Op_create ''m'' ''k'' ''h'' ''v'')] (\<lambda>k. None)
      = [] @ (0, Granted ''w'') # [] @ (4000000, Granted ''v'') # []"
    by (simp add: Redis_createInProgress_def record_times_def redis_expiry_def redis_get_def Let_def)
  from idempotency_lock_exclusive [OF _ run] have "(3600000 :: int) < 4000000" by (simp add: ttl_ms_def)
  with run show ?thesis by simp
qed

text \<open>
  A completed response is kept: until its lifetime ends, whatever other requests do, every later
  \<open>check\<close> of the same request is answered with exactly the status, headers and body that were
  completed, and every \<open>check\<close> with another hash is refused.
\<close>

theorem completed_is_replayed:
  assumes "undisturbed env1 t1" "idem_complete env1 m k w h code hs b st = (Inr (), st1)"
    and "\<forall>(now, a) \<in> set ops. now \<le> t1 + ttl_ms (ie_ttlHours env1) \<and> op_owner a \<noteq> Some w"
    and "undisturbed env2 t2" "t2 \<le> t1 + ttl_ms (ie_ttlHours env1)"
  shows "fst (idem_check env2 m k body (idem_run iso_of ttlHours ops st1)) =
    (if ie_hash env2 body = h then Inr (Replay code hs b) else Inl KEY_REUSED)"
proof -
  obtain r where r: "st1 (getRedisKey m k) = Some (r, t1 + ttl_ms (ie_ttlHours env1))" "ir_status r = COMPLETED"
    "ir_ownerId r = w" "ir_requestHash r = h" "ir_statusCode r = code" "ir_headers r = hs" "ir_body r = b"
    using complete_stores [OF assms(1,2)] by blast
  have "idem_run iso_of ttlHours ops st1 (getRedisKey m k) = Some (r, t1 + ttl_ms (ie_ttlHours env1))"
    by (rule foreign_run) (use assms(3) r(1,3) in auto)
  then have "redis_get t2 (getRedisKey m k) (idem_run iso_of ttlHours ops st1) = Some r"
    using assms(5) by (simp add: redis_get_def)
  from check_found [OF assms(4) this, of body] r show ?thesis by (simp add: verdict_def)
qed

theorem completed_is_replayed_witness:
  "\<exists>st1. fst (idem_check (sample_idem_env ''u2'' 9) ''m'' ''k'' JNull st1) = Inr (Replay (jnat 202) (JObj []) (JStr ''ok''))"
proof -
  let ?e = "sample_idem_env ''u1'' 5"
  obtain r st where c: "idem_check ?e ''m'' ''k'' JNull (\<lambda>k. None) = (Inr (Miss ''u1'' ''h0''), st)"
    "st (getRedisKey ''m'' ''k'') = Some (r, 86400005)" "ir_ownerId r = ''u1''"
    using check_free [OF sample_idem_env_ok [of 5 "''u1''"], of "''m''" "''k''" "\<lambda>k. None" JNull] sample_ttl [of "''u1''" 5]
    by (auto simp: redis_get_def sample_idem_env_def)
  obtain st1 where d: "idem_complete ?e ''m'' ''k'' ''u1'' ''h0'' (jnat 202) (JObj []) (JStr ''ok'') st = (Inr (), st1)"
    using c(2,3) by (simp add: idem_complete_def pbind_def redis_call_def Redis_markCompleted_def redis_get_def
        record_times_def redis_expiry_def sample_idem_env_def Let_def)
  have "undisturbed ?e 5" "undisturbed (sample_idem_env ''u2'' 9) 9" by (rule sample_idem_env_ok; simp)+
  from completed_is_replayed [OF this(1) d _ this(2), of "[]" JNull] show ?thesis
    using sample_ttl [of "''u1''" 5] by (auto simp: idem_run_def sample_idem_env_def)
qed

end
