(* ===== verification/Merchant.thy ===== *)
theory Merchant
  imports Services
begin

text \<open>
  Authentication: the merchant service (\<open>apps/merchant-service\<close>: API keys, \<open>InternalMerchantService\<close>
  and its endpoint) and the gateway's side of it (\<open>apps/gateway/src/auth\<close>: the client, the auth service
  and the middleware). SHA-256 is a parameter; a database error of the lookup, or of the update of
  \<open>lastUsedAt\<close> that runs beside the request, is an argument. Logging is left out.
\<close>

section \<open>Tables\<close>

record merchant =
  mr_id :: string
  mr_merchantId :: string
  mr_name :: string
  mr_email :: string
  mr_status :: string
  mr_metadata :: json
  mr_createdAt :: nat
  mr_updatedAt :: nat

record api_key =
  ak_id :: string
  ak_apiKeyHash :: string
  ak_merchantId :: string
  ak_active :: bool
  ak_createdAt :: nat
  ak_revokedAt :: "nat option"
  ak_lastUsedAt :: "nat option"

record merchant_db =
  md_merchants :: "merchant list"
  md_keys :: "api_key list"

text \<open>The unique keys of the schema, and the foreign key of an API key.\<close>

definition merchant_db_ok :: "merchant_db \<Rightarrow> bool" where
  "merchant_db_ok db \<longleftrightarrow> distinct (map mr_id (md_merchants db)) \<and> distinct (map mr_merchantId (md_merchants db)) \<and>
     distinct (map mr_email (md_merchants db)) \<and> distinct (map ak_id (md_keys db)) \<and>
     distinct (map ak_apiKeyHash (md_keys db)) \<and> ak_merchantId ` set (md_keys db) \<subseteq> mr_id ` set (md_merchants db)"

section \<open>API keys\<close>

definition hashApiKey :: "(string \<Rightarrow> string) \<Rightarrow> string \<Rightarrow> string" where
  "hashApiKey sha256 apiKey = sha256 apiKey"

text \<open>\<open>findUnique\<close> by hash, including the merchant.\<close>

definition find_key :: "string \<Rightarrow> merchant_db \<Rightarrow> (api_key \<times> merchant) option" where
  "find_key h db =
     (case find (\<lambda>k. ak_apiKeyHash k = h) (md_keys db) of
        None \<Rightarrow> None
      | Some k \<Rightarrow> map_option (Pair k) (find (\<lambda>m. mr_id m = ak_merchantId k) (md_merchants db)))"

text \<open>An error of the update is logged and swallowed.\<close>

definition updateLastUsedAtAsync :: "exn option \<Rightarrow> nat \<Rightarrow> string \<Rightarrow> merchant_db \<Rightarrow> merchant_db" where
  "updateLastUsedAtAsync flt now keyId db =
     (case flt of Some e \<Rightarrow> db
      | None \<Rightarrow> db\<lparr>md_keys := tbl_upd (\<lambda>k. ak_id k = keyId) (\<lambda>k. k\<lparr>ak_lastUsedAt := Some now\<rparr>) (md_keys db)\<rparr>)"

record merchant_env =
  me_sha256 :: "string \<Rightarrow> string"
  me_now :: nat
  me_lookup :: "exn option"
  me_update :: "exn option"

definition findActiveKeyWithMerchant ::
  "merchant_env \<Rightarrow> string \<Rightarrow> (merchant_db, exn, (api_key \<times> merchant) option) proc" where
  "findActiveKeyWithMerchant env rawKey = (\<lambda>db.
     case me_lookup env of
       Some e \<Rightarrow> (Inl e, db)
     | None \<Rightarrow>
         (case find_key (hashApiKey (me_sha256 env) rawKey) db of
            None \<Rightarrow> (Inr None, db)
          | Some km \<Rightarrow> (Inr (Some km), updateLastUsedAtAsync (me_update env) (me_now env) (ak_id (fst km)) db)))"

section \<open>\<open>InternalMerchantService\<close>\<close>

record merchant_info =
  mi_merchantId :: string
  mi_merchantName :: string
  mi_status :: string
  mi_permissions :: "json list"
  mi_webhookEnabled :: bool

definition unauthorized :: "string \<Rightarrow> exn" where
  "unauthorized msg = nest_builtin ''UnauthorizedException'' 401 ''Unauthorized'' msg"

definition forbidden :: "string \<Rightarrow> exn" where
  "forbidden msg = nest_builtin ''ForbiddenException'' 403 ''Forbidden'' msg"

text \<open>\<open>metadata || {}\<close>, then what is read from it.\<close>

definition merchant_info_of :: "merchant \<Rightarrow> merchant_info" where
  "merchant_info_of m =
     (let metadata = (if truthy (mr_metadata m) then mr_metadata m else JObj [])
      in \<lparr>mi_merchantId = mr_merchantId m, mi_merchantName = mr_name m, mi_status = mr_status m,
          mi_permissions = (case jget metadata ''permissions'' of Some (JArr ps) \<Rightarrow> ps | _ \<Rightarrow> []),
          mi_webhookEnabled = (case jget metadata ''webhookEnabled'' of Some (JBool b) \<Rightarrow> b | _ \<Rightarrow> True)\<rparr>)"

definition judge_key :: "(api_key \<times> merchant) option \<Rightarrow> exn + merchant_info" where
  "judge_key rec =
     (case rec of
        None \<Rightarrow> Inl (unauthorized ''Invalid API key'')
      | Some (k, m) \<Rightarrow>
          if \<not> ak_active k \<or> ak_revokedAt k \<noteq> None then Inl (unauthorized ''Invalid API key'')
          else if mr_status m \<noteq> ''ACTIVE'' then Inl (forbidden ''Merchant status is inactive'')
          else Inr (merchant_info_of m))"

definition validateMerchantApiKey :: "merchant_env \<Rightarrow> string option \<Rightarrow> (merchant_db, exn, merchant_info) proc" where
  "validateMerchantApiKey env apiKey =
     (if str_or apiKey [] = [] then pthrow (unauthorized ''Missing API key'')
      else pbind (findActiveKeyWithMerchant env (the apiKey)) (\<lambda>rec st. (judge_key rec, st)))"

definition merchant_info_json :: "merchant_info \<Rightarrow> json" where
  "merchant_info_json i = JObj
     [(''merchantId'', JStr (mi_merchantId i)), (''merchantName'', JStr (mi_merchantName i)), (''status'', JStr (mi_status i)),
      (''permissions'', JArr (mi_permissions i)), (''webhookEnabled'', JBool (mi_webhookEnabled i))]"

text \<open>The endpoint behind the exception filter; \<open>menv\<close> may differ at each attempt.\<close>

definition merchant_server ::
  "service_env \<Rightarrow> merchant_env \<Rightarrow> http_request \<Rightarrow> merchant_db \<Rightarrow> (nat \<times> json) \<times> merchant_db" where
  "merchant_server env menv rq db =
     (let (r, db') = validateMerchantApiKey menv (hr_headers rq ''x-api-key'') db
      in (respond env (hr_url rq) 200 (case r of Inl e \<Rightarrow> Inl e | Inr i \<Rightarrow> Inr (merchant_info_json i)), db'))"

section \<open>The gateway's client\<close>

record merchant_context =
  mc_merchantId :: string
  mc_merchantName :: string
  mc_permissions :: "json list"

text \<open>The shape check on the answer.\<close>

definition merchant_answer :: "json \<Rightarrow> merchant_context option" where
  "merchant_answer data =
     (case (jget data ''merchantId'', jget data ''merchantName'', jget data ''permissions'', jget data ''webhookEnabled'') of
        (Some (JStr i), Some (JStr n), Some (JArr ps), Some (JBool b)) \<Rightarrow>
          Some \<lparr>mc_merchantId = i, mc_merchantName = n, mc_permissions = ps\<rparr>
      | _ \<Rightarrow> None)"

definition INVALID_KEY :: exn where
  "INVALID_KEY = http_exn [(''error'', JStr (platform_str INVALID_API_KEY)), (''message'', JStr ''Invalid API key'')] 401"
definition DISABLED_MERCHANT :: exn where
  "DISABLED_MERCHANT = http_exn [(''error'', JStr (platform_str MERCHANT_DISABLED)), (''message'', JStr ''Merchant status is inactive'')] 403"
definition MERCHANT_DOWN :: exn where
  "MERCHANT_DOWN = http_exn_str ''Merchant Service is unavailable'' 503"
definition MISSING_KEY :: exn where
  "MISSING_KEY = http_exn [(''error'', JStr (platform_str INVALID_API_KEY)), (''message'', JStr ''Missing API key'')] 401"

definition map_merchant_error :: "exn \<Rightarrow> exn" where
  "map_merchant_error e =
     (if http_class ''DownstreamResponseException'' e \<and> exn_status e = 401 then INVALID_KEY
      else if http_class ''DownstreamResponseException'' e \<and> exn_status e = 403 then DISABLED_MERCHANT
      else MERCHANT_DOWN)"

definition key_header :: "string \<Rightarrow> call_config" where
  "key_header apiKey = \<lparr>cc_timeout = None, cc_forceRetry = False, cc_headers = (\<lambda>k. None)(''x-api-key'' \<mapsto> apiKey), cc_data = None\<rparr>"

definition authenticate ::
  "service_env \<Rightarrow> (http_request \<Rightarrow> nat \<Rightarrow> failure + json) \<Rightarrow> http_client \<Rightarrow> request_context \<Rightarrow> string \<Rightarrow> exn + merchant_context" where
  "authenticate env transport c ctx apiKey =
     (case HttpClient_get (se_js env) (se_inject env) transport c ctx ''/api/v1/internal/merchants/validate'' (key_header apiKey) of
        Inl e \<Rightarrow> Inl (map_merchant_error e)
      | Inr data \<Rightarrow> (case merchant_answer data of
            None \<Rightarrow> Inl (map_merchant_error (JsError ''Error'' [Lit ''Invalid response structure from Merchant Service'']))
          | Some mc \<Rightarrow> Inr mc))"

section \<open>The middleware\<close>

definition auth_skips :: "string \<Rightarrow> bool" where
  "auth_skips originalUrl =
     (let u = hd (js_split (CHR ''?'') originalUrl)
      in js_endsWith u ''/health'' \<or> js_endsWith u ''/health/live'' \<or> js_endsWith u ''/health/ready'' \<or>
         js_includes u ''/health/'' \<or> js_includes u ''/swagger'' \<or> js_includes u ''/swagger-json'')"

text \<open>
  On success the merchant, the headers with \<open>x-merchant-id\<close> overwritten, and the request context
  with the merchant's id; \<open>None\<close> for a path that needs no key.
\<close>

definition AuthMiddleware_use ::
  "(string \<Rightarrow> exn + merchant_context) \<Rightarrow> string \<Rightarrow> headers \<Rightarrow> request_context \<Rightarrow>
     exn + merchant_context option \<times> headers \<times> request_context" where
  "AuthMiddleware_use auth originalUrl hs ctx =
     (if auth_skips originalUrl then Inr (None, hs, ctx)
      else case str_or_opt (hs ''x-api-key'') (hs ''X-API-Key'') of
        None \<Rightarrow> Inl MISSING_KEY
      | Some apiKey \<Rightarrow>
          if apiKey = [] then Inl MISSING_KEY
          else rbind (auth apiKey) (\<lambda>mc.
                 Inr (Some mc, hs(''x-merchant-id'' \<mapsto> mc_merchantId mc), ctx\<lparr>rc_merchantId := Some (mc_merchantId mc)\<rparr>)))"

section \<open>The client against the service\<close>

text \<open>
  Attempt number \<open>k\<close> meets the table as the earlier attempts left it, and its own database errors.
\<close>

fun db_at :: "service_env \<Rightarrow> (nat \<Rightarrow> merchant_env) \<Rightarrow> http_request \<Rightarrow> merchant_db \<Rightarrow> nat \<Rightarrow> merchant_db" where
  "db_at env menvs rq db 0 = db"
| "db_at env menvs rq db (Suc k) = snd (merchant_server env (menvs k) rq (db_at env menvs rq db k))"

definition merchant_transport ::
  "service_env \<Rightarrow> (nat \<Rightarrow> merchant_env) \<Rightarrow> merchant_db \<Rightarrow> http_request \<Rightarrow> nat \<Rightarrow> failure + json" where
  "merchant_transport env menvs db rq k =
     serve (\<lambda>rq. fst (merchant_server env (menvs k) rq (db_at env menvs rq db k))) rq k"

text \<open>What a verdict depends on: everything but \<open>lastUsedAt\<close>.\<close>

definition key_view :: "api_key \<times> merchant \<Rightarrow> bool \<times> nat option \<times> merchant" where
  "key_view km = (ak_active (fst km), ak_revokedAt (fst km), snd km)"

lemma judge_key_view: "map_option key_view a = map_option key_view b \<Longrightarrow> judge_key a = judge_key b"
  by (cases a; cases b) (auto simp: judge_key_def key_view_def)

lemma find_key_touch:
  "map_option key_view (find_key h (updateLastUsedAtAsync flt now i db)) = map_option key_view (find_key h db)"
proof -
  have "find (\<lambda>k. ak_apiKeyHash k = h) (tbl_upd (\<lambda>k. ak_id k = i) (\<lambda>k. k\<lparr>ak_lastUsedAt := Some now\<rparr>) (md_keys db)) =
      map_option (\<lambda>k. if ak_id k = i then k\<lparr>ak_lastUsedAt := Some now\<rparr> else k) (find (\<lambda>k. ak_apiKeyHash k = h) (md_keys db))"
    by (rule find_tbl_upd) simp
  then show ?thesis
    by (auto simp: find_key_def updateLastUsedAtAsync_def key_view_def option.map_comp comp_def split: option.splits)
qed

lemma merchant_server_view:
  "map_option key_view (find_key h (snd (merchant_server env menv rq db))) = map_option key_view (find_key h db)"
  by (simp add: merchant_server_def validateMerchantApiKey_def findActiveKeyWithMerchant_def pbind_def pthrow_def
      find_key_touch split: option.splits prod.splits sum.splits)

lemma db_at_view: "map_option key_view (find_key h (db_at env menvs rq db k)) = map_option key_view (find_key h db)"
  by (induction k) (simp_all add: merchant_server_view)

text \<open>The answer to one attempt.\<close>

definition verdict_answer :: "(api_key \<times> merchant) option \<Rightarrow> exn + json" where
  "verdict_answer rec = (case judge_key rec of Inl e \<Rightarrow> Inl e | Inr i \<Rightarrow> Inr (merchant_info_json i))"

lemma merchant_transport_attempt:
  assumes "hr_headers rq ''x-api-key'' = Some apiKey" "apiKey \<noteq> []" "me_sha256 (menvs k) = sha256"
  shows "merchant_transport env menvs db rq k =
    (let (status, body) = respond env (hr_url rq) 200
           (case me_lookup (menvs k) of Some e \<Rightarrow> Inl e | None \<Rightarrow> verdict_answer (find_key (sha256 apiKey) db))
     in if 200 \<le> status \<and> status < 300 then Inr body else Inl (AxiosResponse status body))"
proof -
  let ?d = "db_at env menvs rq db k"
  have "judge_key (find_key (sha256 apiKey) ?d) = judge_key (find_key (sha256 apiKey) db)"
    by (rule judge_key_view) (rule db_at_view)
  moreover have "fst (validateMerchantApiKey (menvs k) (Some apiKey) ?d) =
      (case me_lookup (menvs k) of Some e \<Rightarrow> Inl e | None \<Rightarrow> judge_key (find_key (sha256 apiKey) ?d))"
    using assms(2,3)
    by (simp add: validateMerchantApiKey_def findActiveKeyWithMerchant_def hashApiKey_def pbind_def split: option.split)
  moreover obtain r d where "validateMerchantApiKey (menvs k) (Some apiKey) ?d = (r, d)" by fastforce
  ultimately have "fst (merchant_server env (menvs k) rq ?d) = respond env (hr_url rq) 200
      (case me_lookup (menvs k) of Some e \<Rightarrow> Inl e | None \<Rightarrow> verdict_answer (find_key (sha256 apiKey) db))"
    using assms(1) by (cases "me_lookup (menvs k)") (simp_all add: merchant_server_def verdict_answer_def)
  then show ?thesis by (simp add: merchant_transport_def serve_def)
qed

lemma judge_key_status: "judge_key rec = Inl e \<Longrightarrow> exn_status e \<in> {401, 403}"
  by (auto simp: judge_key_def unauthorized_def forbidden_def split: option.splits if_splits)

lemma merchant_answer_info: "merchant_answer (merchant_info_json i) =
    Some \<lparr>mc_merchantId = mi_merchantId i, mc_merchantName = mi_merchantName i, mc_permissions = mi_permissions i\<rparr>"
  by (simp add: merchant_answer_def merchant_info_json_def)

text \<open>What the gateway makes of a verdict.\<close>

definition gateway_verdict :: "(api_key \<times> merchant) option \<Rightarrow> exn + merchant_context" where
  "gateway_verdict rec =
     (case rec of
        None \<Rightarrow> Inl INVALID_KEY
      | Some (k, m) \<Rightarrow>
          if \<not> ak_active k \<or> ak_revokedAt k \<noteq> None then Inl INVALID_KEY
          else if mr_status m \<noteq> ''ACTIVE'' then Inl DISABLED_MERCHANT
          else Inr \<lparr>mc_merchantId = mr_merchantId m, mc_merchantName = mr_name m,
                    mc_permissions = mi_permissions (merchant_info_of m)\<rparr>)"

definition of_answer :: "exn + json \<Rightarrow> exn + merchant_context" where
  "of_answer r = (case r of Inl e \<Rightarrow> Inl (map_merchant_error e)
     | Inr data \<Rightarrow> (case merchant_answer data of
         None \<Rightarrow> Inl (map_merchant_error (JsError ''Error'' [Lit ''Invalid response structure from Merchant Service'']))
       | Some mc \<Rightarrow> Inr mc))"

lemma map_merchant_error_response: "map_merchant_error (translate_failure env n rq (AxiosResponse s b)) =
    (if s = 401 then INVALID_KEY else if s = 403 then DISABLED_MERCHANT else MERCHANT_DOWN)"
  by (simp add: map_merchant_error_def translated_response)

lemma verdict_cases:
  obtains (ok) i where "verdict_answer rec = Inr (merchant_info_json i)" "gateway_verdict rec = of_answer (Inr (merchant_info_json i))"
  | (bad) e where "verdict_answer rec = Inl e" "exn_status e \<in> {401, 403}"
      "gateway_verdict rec = Inl (if exn_status e = 401 then INVALID_KEY else DISABLED_MERCHANT)"
proof (cases "judge_key rec")
  case (Inl e)
  then have "gateway_verdict rec = Inl (if exn_status e = 401 then INVALID_KEY else DISABLED_MERCHANT)"
    by (auto simp: judge_key_def gateway_verdict_def unauthorized_def forbidden_def split: option.splits if_splits)
  with Inl judge_key_status show thesis by (intro bad) (simp_all add: verdict_answer_def)
next
  case (Inr i)
  then obtain k m where r: "rec = Some (k, m)" "i = merchant_info_of m"
    by (auto simp: judge_key_def split: option.splits if_splits)
  have "gateway_verdict rec = of_answer (Inr (merchant_info_json i))"
    using Inr r by (auto simp: judge_key_def gateway_verdict_def of_answer_def merchant_answer_info merchant_info_of_def Let_def split: if_splits)
  with Inr show thesis by (intro ok) (simp_all add: verdict_answer_def)
qed

lemma get_retries: "should_retry ''GET'' False"
proof -
  have "js_upper ''GET'' = ''GET''" by code_simp
  then show ?thesis by (simp add: should_retry_def)
qed

text \<open>The tracing headers injected leave the API key alone.\<close>

definition keeps_key :: "service_env \<Rightarrow> bool" where
  "keeps_key env \<longleftrightarrow> (\<forall>h. se_inject env h ''x-api-key'' = h ''x-api-key'')"

lemma authenticate_request:
  assumes "keeps_key env"
  obtains rq where "hr_headers rq ''x-api-key'' = Some apiKey"
    "authenticate env transport c ctx apiKey =
       of_answer (case fst (retry_execute (hc_retries c) (hc_retryDelay c) ''GET'' False (transport rq)) of
           Inr data \<Rightarrow> Inr data | Inl e \<Rightarrow> Inl (translate_failure (se_js env) (hc_serviceName c) rq e))"
proof -
  let ?rq = "propagateHeaders (se_inject env) ctx
     \<lparr>hr_method = ''GET'', hr_url = ''/api/v1/internal/merchants/validate'', hr_baseURL = hc_baseURL c, hr_timeout = hc_timeout c,
      hr_headers = (\<lambda>k. None)(''x-api-key'' \<mapsto> apiKey), hr_data = None\<rparr>"
  have "hr_headers ?rq ''x-api-key'' = Some apiKey"
    using assms by (simp add: propagateHeaders_def Let_def keeps_key_def propagate_one_def split: option.split)
  moreover have "authenticate env transport c ctx apiKey =
       of_answer (case fst (retry_execute (hc_retries c) (hc_retryDelay c) ''GET'' False (transport ?rq)) of
           Inr data \<Rightarrow> Inr data | Inl e \<Rightarrow> Inl (translate_failure (se_js env) (hc_serviceName c) ?rq e))"
    by (simp add: authenticate_def HttpClient_get_def HttpClient_request_def key_header_def of_answer_def Let_def
        split: sum.split option.split)
  ultimately show thesis by (rule that)
qed

text \<open>Retrying attempts that either fail for want of the database or all give one answer.\<close>

lemma retry_constant:
  assumes "\<And>k. down k \<Longrightarrow> \<exists>e. fn k = Inl e \<and> \<not> is4xx e \<and> P e" "\<And>k. \<not> down k \<Longrightarrow> fn k = v"
    and "\<And>e. v = Inl e \<Longrightarrow> is4xx e"
  shows "((\<exists>k \<le> n. \<not> down k) \<longrightarrow> fst (retry_execute n d ''GET'' False fn) = v) \<and>
         ((\<forall>k \<le> n. down k) \<longrightarrow> (\<exists>e. fst (retry_execute n d ''GET'' False fn) = Inl e \<and> P e))"
proof -
  obtain r ds where rd: "retry_execute n d ''GET'' False fn = (r, ds)" by fastforce
  have sp: "r = fn (length ds)" "length ds \<le> n" "\<forall>i < length ds. \<exists>e. fn i = Inl e \<and> \<not> is4xx e"
    "\<forall>e. r = Inl e \<longrightarrow> is4xx e \<or> length ds = n"
    using retry_loop_spec [of True n d fn 0 r ds] rd get_retries by (simp_all add: retry_execute_def)
  have before: "down i" if "i < length ds" for i
    using sp(3) that assms(2,3) by (metis (no_types))
  show ?thesis
  proof (cases "down (length ds)")
    case True
    then obtain e where e: "r = Inl e" "\<not> is4xx e" "P e" using assms(1) sp(1) by metis
    then have "length ds = n" using sp(4) by blast
    then have "\<not> (\<exists>k \<le> n. \<not> down k)" using True before by (metis le_neq_implies_less)
    with e rd show ?thesis by auto
  next
    case False
    with assms(2) sp(1,2) rd show ?thesis by auto
  qed
qed

section \<open>Properties\<close>

text \<open>
  C7. Authentication end to end, whatever attempts of the lookup fail in the database: as long as one of
  the attempts the client makes can read the table, the merchant's identity is attached exactly when
  the digest of the key is stored, active and not revoked, and its merchant is \<open>ACTIVE\<close>; an unknown,
  inactive or revoked key is a 401 and a merchant that is not \<open>ACTIVE\<close> a 403; if no attempt can
  read the table the answer is 503. Marking the key as used never changes a verdict.
\<close>

theorem authentication_verdict:
  assumes "keeps_key env" "apiKey \<noteq> []" "\<forall>k. me_sha256 (menvs k) = sha256"
    and "\<forall>k e. me_lookup (menvs k) = Some e \<longrightarrow> exn_status e = 500"
  shows "authenticate env (merchant_transport env menvs db) c ctx apiKey =
    (if \<exists>k \<le> hc_retries c. me_lookup (menvs k) = None then gateway_verdict (find_key (sha256 apiKey) db) else Inl MERCHANT_DOWN)"
proof -
  obtain rq where rq: "hr_headers rq ''x-api-key'' = Some apiKey"
    and au: "authenticate env (merchant_transport env menvs db) c ctx apiKey =
       of_answer (case fst (retry_execute (hc_retries c) (hc_retryDelay c) ''GET'' False (merchant_transport env menvs db rq)) of
           Inr data \<Rightarrow> Inr data | Inl e \<Rightarrow> Inl (translate_failure (se_js env) (hc_serviceName c) rq e))"
    by (rule authenticate_request [OF assms(1), of apiKey "merchant_transport env menvs db" c ctx])
  let ?rec = "find_key (sha256 apiKey) db" and ?fn = "merchant_transport env menvs db rq"
  let ?down = "\<lambda>k. me_lookup (menvs k) \<noteq> None"
  define v where "v = (let (status, body) = respond env (hr_url rq) 200 (verdict_answer ?rec)
     in if 200 \<le> status \<and> status < 300 then Inr body else Inl (AxiosResponse status body))"
  have at: "?fn k = (let (status, body) = respond env (hr_url rq) 200
           (case me_lookup (menvs k) of Some e \<Rightarrow> Inl e | None \<Rightarrow> verdict_answer ?rec)
     in if 200 \<le> status \<and> status < 300 then Inr body else Inl (AxiosResponse status body))" for k
    using merchant_transport_attempt [OF rq assms(2)] assms(3) by blast
  have failing: "\<exists>e. ?fn k = Inl e \<and> \<not> is4xx e \<and> (\<exists>b. e = AxiosResponse 500 b)" if dn: "?down k" for k
  proof -
    obtain e where e: "me_lookup (menvs k) = Some e" using dn by auto
    then have "fst (respond env (hr_url rq) 200 (Inl e)) = 500" using assms(4) by (simp add: respond_Inl)
    then show ?thesis using e unfolding at
      by (cases "respond env (hr_url rq) 200 (Inl e)") (simp add: is4xx_def response_status_def)
  qed
  have up: "?fn k = v" if "\<not> ?down k" for k using that by (simp add: at v_def)
  have ans: "of_answer (case v of Inr data \<Rightarrow> Inr data | Inl e \<Rightarrow> Inl (translate_failure (se_js env) (hc_serviceName c) rq e))
      = gateway_verdict ?rec \<and> (\<forall>e. v = Inl e \<longrightarrow> is4xx e)"
  proof (cases rule: verdict_cases [of ?rec])
    case (ok i)
    then show ?thesis by (simp add: v_def respond_Inr)
  next
    case (bad e)
    then have st: "fst (respond env (hr_url rq) 200 (Inl e)) = exn_status e" by (simp add: respond_Inl)
    have vi: "v = Inl (AxiosResponse (exn_status e) (snd (respond env (hr_url rq) 200 (Inl e))))"
      using bad(1,2) st by (cases "respond env (hr_url rq) 200 (Inl e)") (auto simp: v_def)
    show ?thesis using bad(2,3) unfolding vi
      by (auto simp: of_answer_def map_merchant_error_response is4xx_def response_status_def)
  qed
  note rc = retry_constant [where down = ?down and fn = ?fn and v = v and P = "\<lambda>e. \<exists>b. e = AxiosResponse 500 b"
      and n = "hc_retries c" and d = "hc_retryDelay c", OF failing up]
  have rc: "((\<exists>k \<le> hc_retries c. \<not> ?down k) \<longrightarrow> fst (retry_execute (hc_retries c) (hc_retryDelay c) ''GET'' False ?fn) = v) \<and>
      ((\<forall>k \<le> hc_retries c. ?down k) \<longrightarrow>
         (\<exists>e. fst (retry_execute (hc_retries c) (hc_retryDelay c) ''GET'' False ?fn) = Inl e \<and> (\<exists>b. e = AxiosResponse 500 b)))"
    using ans by (intro rc) blast+
  show ?thesis
  proof (cases "\<exists>k \<le> hc_retries c. me_lookup (menvs k) = None")
    case True
    then have "fst (retry_execute (hc_retries c) (hc_retryDelay c) ''GET'' False ?fn) = v" using rc by blast
    with True ans show ?thesis unfolding au by simp
  next
    case False
    then have dn: "\<forall>k \<le> hc_retries c. ?down k" by simp
    from mp [OF conjunct2 [OF rc] dn] obtain e b where "fst (retry_execute (hc_retries c) (hc_retryDelay c) ''GET'' False ?fn) = Inl e"
      "e = AxiosResponse 500 b" by (elim exE conjE)
    then show ?thesis unfolding au if_not_P [OF False] by (simp add: of_answer_def map_merchant_error_response)
  qed
qed

definition sample_merchants :: merchant_db where
  "sample_merchants =
     \<lparr>md_merchants = [\<lparr>mr_id = ''r1'', mr_merchantId = ''m1'', mr_name = ''Acme'', mr_email = ''a@b'', mr_status = ''ACTIVE'',
        mr_metadata = JObj [(''permissions'', JArr [JStr ''payment:create''])], mr_createdAt = 1, mr_updatedAt = 1\<rparr>],
      md_keys = [\<lparr>ak_id = ''k1'', ak_apiKeyHash = ''#secret'', ak_merchantId = ''r1'', ak_active = True, ak_createdAt = 1,
        ak_revokedAt = None, ak_lastUsedAt = None\<rparr>]\<rparr>"

definition sample_menvs :: "nat \<Rightarrow> merchant_env" where
  "sample_menvs k = \<lparr>me_sha256 = (\<lambda>s. ''#'' @ s), me_now = k, me_lookup = (if k = 0 then Some P2025 else None), me_update = None\<rparr>"

theorem authentication_verdict_witness:
  "authenticate sample_service_env (merchant_transport sample_service_env sample_menvs sample_merchants) sample_client sample_ctx ''secret''
   = Inr \<lparr>mc_merchantId = ''m1'', mc_merchantName = ''Acme'', mc_permissions = [JStr ''payment:create'']\<rparr>"
proof -
  have "authenticate sample_service_env (merchant_transport sample_service_env sample_menvs sample_merchants) sample_client sample_ctx ''secret''
      = (if \<exists>k \<le> hc_retries sample_client. me_lookup (sample_menvs k) = None
         then gateway_verdict (find_key (''#'' @ ''secret'') sample_merchants) else Inl MERCHANT_DOWN)"
    by (rule authentication_verdict)
       (simp_all add: keeps_key_def sample_service_env_def sample_menvs_def P2025_def exn_status_def split: if_splits)
  moreover have "\<exists>k \<le> hc_retries sample_client. me_lookup (sample_menvs k) = None"
    by (rule exI [of _ 1]) (simp add: sample_client_def sample_menvs_def)
  ultimately show ?thesis
    by (simp add: gateway_verdict_def find_key_def sample_merchants_def merchant_info_of_def)
qed

text \<open>
  Past the middleware, a request that is not for a health or documentation path carries the identity
  of a merchant its API key was verified for, in the request, in the context and in the header the
  services trust; a header of that name sent by the client is overwritten. Without a key, or with one
  that is not verified, nothing passes.
\<close>

theorem merchant_header_authenticated:
  assumes "\<not> auth_skips url"
  shows "AuthMiddleware_use auth url hs ctx = Inr (who, hs', ctx') \<longleftrightarrow>
    (\<exists>apiKey mc. str_or_opt (hs ''x-api-key'') (hs ''X-API-Key'') = Some apiKey \<and> apiKey \<noteq> [] \<and> auth apiKey = Inr mc \<and>
       who = Some mc \<and> hs' = hs(''x-merchant-id'' \<mapsto> mc_merchantId mc) \<and> ctx' = ctx\<lparr>rc_merchantId := Some (mc_merchantId mc)\<rparr>)"
  using assms by (auto simp: AuthMiddleware_use_def rbind_Inr_iff split: option.split)

theorem merchant_header_authenticated_witness:
  "\<exists>hs' ctx'. AuthMiddleware_use (\<lambda>k. Inr \<lparr>mc_merchantId = ''m1'', mc_merchantName = ''Acme'', mc_permissions = []\<rparr>)
     ''/api/v1/payments'' ((\<lambda>k. None)(''x-api-key'' \<mapsto> ''secret'', ''x-merchant-id'' \<mapsto> ''victim'')) sample_ctx
     = Inr (Some \<lparr>mc_merchantId = ''m1'', mc_merchantName = ''Acme'', mc_permissions = []\<rparr>, hs', ctx') \<and> hs' ''x-merchant-id'' = Some ''m1''"
proof -
  have u: "\<not> auth_skips ''/api/v1/payments''" by code_simp
  show ?thesis
    unfolding merchant_header_authenticated [OF u] by (simp add: str_or_opt_def)
qed

end
