(* ===== verification/Gateway.thy ===== *)
theory Gateway
  imports Merchant RateLimit Idempotency
begin

text \<open>
  The API gateway (\<open>apps/gateway\<close>): the tracing middleware, the idempotency interceptor with its HTTP
  client and the controller of the idempotency service behind it, the payment DTO and the proxy to the
  payment service. The state is the idempotency service's Redis and the state \<open>'w\<close> of whatever the
  route handler calls. The interceptor's completion runs beside the sending of the response; it is
  modelled right after the handler, and cannot change the response. Logging and metrics are left out.
\<close>

section \<open>\<open>LoggingMiddleware\<close>\<close>

record context_store = request_context +
  cs_sagaId :: "string option"
  cs_eventId :: "string option"
  cs_paymentId :: "string option"

text \<open>
  A header is taken as it is, whoever sent it, even when empty. The result is the context the request
  runs in, the request's headers, and the headers set on the response.
\<close>

definition header_or :: "headers \<Rightarrow> string \<Rightarrow> string \<Rightarrow> string" where
  "header_or hs k d = (case hs k of Some s \<Rightarrow> s | None \<Rightarrow> d)"

definition LoggingMiddleware_use ::
  "string \<Rightarrow> string \<Rightarrow> string option \<Rightarrow> context_store option \<Rightarrow> headers \<Rightarrow>
     context_store \<times> headers \<times> (string \<times> string) list" where
  "LoggingMiddleware_use uuid1 uuid2 reqMerchant active hs =
     (case active of
        Some store \<Rightarrow>
          (store,
           if str_or (rc_merchantId store) [] \<noteq> [] \<and> \<not> truthy_header hs ''x-merchant-id''
           then hs(''x-merchant-id'' := rc_merchantId store) else hs, [])
      | None \<Rightarrow>
          let requestId = header_or hs ''x-request-id'' (''req_'' @ uuid1);
              correlationId = header_or hs ''x-correlation-id'' (''corr_'' @ uuid2)
          in (\<lparr>rc_requestId = Some requestId, rc_correlationId = Some correlationId,
               rc_merchantId = str_or_opt (hs ''x-merchant-id'') reqMerchant,
               cs_sagaId = hs ''x-saga-id'', cs_eventId = hs ''x-event-id'', cs_paymentId = hs ''x-payment-id''\<rparr>,
              hs(''x-request-id'' \<mapsto> requestId, ''x-correlation-id'' \<mapsto> correlationId),
              [(''x-request-id'', requestId)] @ (if correlationId = [] then [] else [(''x-correlation-id'', correlationId)])))"

section \<open>Two parts of a state\<close>

definition on_fst :: "('a, 'e, 'r) proc \<Rightarrow> ('a \<times> 'b, 'e, 'r) proc" where
  "on_fst m = (\<lambda>(a, b). let (r, a') = m a in (r, (a', b)))"

definition on_snd :: "('b, 'e, 'r) proc \<Rightarrow> ('a \<times> 'b, 'e, 'r) proc" where
  "on_snd m = (\<lambda>(a, b). let (r, b') = m b in (r, (a, b')))"

section \<open>The idempotency service's controller\<close>

definition nonempty_str :: "json option \<Rightarrow> bool" where
  "nonempty_str v = (case v of Some (JStr s) \<Rightarrow> s \<noteq> [] | _ \<Rightarrow> False)"

definition str_of :: "json option \<Rightarrow> string" where
  "str_of v = (case v of Some (JStr s) \<Rightarrow> s | _ \<Rightarrow> [])"

text \<open>\<open>IsOptional\<close> lets null and undefined through.\<close>

definition optional :: "(json \<Rightarrow> bool) \<Rightarrow> json option \<Rightarrow> bool" where
  "optional p v = (case v of None \<Rightarrow> True | Some JNull \<Rightarrow> True | Some x \<Rightarrow> p x)"

definition is_object :: "json \<Rightarrow> bool" where
  "is_object v = (case v of JObj ps \<Rightarrow> True | _ \<Rightarrow> False)"

definition IdempotencyCheckDto_ok :: "json \<Rightarrow> bool" where
  "IdempotencyCheckDto_ok b \<longleftrightarrow> only_props [''merchantId'', ''idempotencyKey'', ''requestBody''] b \<and>
     nonempty_str (jget b ''merchantId'') \<and> nonempty_str (jget b ''idempotencyKey'') \<and>
     (case jget b ''requestBody'' of None \<Rightarrow> False | Some v \<Rightarrow> v \<noteq> JNull)"

definition IdempotencyCompleteDto_ok :: "json \<Rightarrow> bool" where
  "IdempotencyCompleteDto_ok b \<longleftrightarrow>
     only_props [''merchantId'', ''idempotencyKey'', ''ownerId'', ''requestHash'', ''statusCode'', ''headers'', ''body''] b \<and>
     nonempty_str (jget b ''merchantId'') \<and> nonempty_str (jget b ''idempotencyKey'') \<and>
     nonempty_str (jget b ''ownerId'') \<and> nonempty_str (jget b ''requestHash'') \<and>
     (case jget b ''statusCode'' of Some (JNum n) \<Rightarrow> is_integer n | _ \<Rightarrow> False) \<and>
     optional is_object (jget b ''headers'')"

definition IdempotencyCleanupDto_ok :: "json \<Rightarrow> bool" where
  "IdempotencyCleanupDto_ok b \<longleftrightarrow> only_props [''merchantId'', ''idempotencyKey'', ''ownerId''] b \<and>
     nonempty_str (jget b ''merchantId'') \<and> nonempty_str (jget b ''idempotencyKey'') \<and> nonempty_str (jget b ''ownerId'')"

text \<open>What NestJS's own validation pipe throws, with the messages of class-validator.\<close>

definition pipe_error :: "service_env \<Rightarrow> exn" where
  "pipe_error env = HttpExn \<lparr>he_name = ''BadRequestException'', he_status = 400,
     he_response = JObj [(''message'', se_details env), (''error'', JStr ''Bad Request''), (''statusCode'', jnat 400)],
     he_message = [Lit ''Bad Request Exception''], he_response_data = None\<rparr>"

fun check_json :: "check_result \<Rightarrow> json" where
  "check_json (Miss w h) = JObj [(''status'', JStr ''MISS''), (''ownerId'', JStr w), (''requestHash'', JStr h)]"
| "check_json (Replay code hs b) =
     JObj [(''status'', JStr ''COMPLETED''), (''statusCode'', code), (''headers'', hs), (''body'', b)]"

definition success_json :: json where "success_json = JObj [(''success'', JBool True)]"

definition IdempotencyController_check :: "service_env \<Rightarrow> idem_env \<Rightarrow> json \<Rightarrow> json icall" where
  "IdempotencyController_check env ienv b =
     (if \<not> IdempotencyCheckDto_ok b then pthrow (pipe_error env)
      else pbind (idem_check ienv (str_of (jget b ''merchantId'')) (str_of (jget b ''idempotencyKey'')) (the (jget b ''requestBody'')))
             (\<lambda>r. preturn (check_json r)))"

definition json_or_empty :: "json option \<Rightarrow> json" where
  "json_or_empty v = (case v of Some x \<Rightarrow> if truthy x then x else JObj [] | None \<Rightarrow> JObj [])"

definition IdempotencyController_complete :: "service_env \<Rightarrow> idem_env \<Rightarrow> json \<Rightarrow> json icall" where
  "IdempotencyController_complete env ienv b =
     (if \<not> IdempotencyCompleteDto_ok b then pthrow (pipe_error env)
      else pbind (idem_complete ienv (str_of (jget b ''merchantId'')) (str_of (jget b ''idempotencyKey''))
                   (str_of (jget b ''ownerId'')) (str_of (jget b ''requestHash'')) (the (jget b ''statusCode''))
                   (json_or_empty (jget b ''headers'')) (json_or_empty (jget b ''body'')))
             (\<lambda>u. preturn success_json))"

definition IdempotencyController_cleanup :: "service_env \<Rightarrow> idem_env \<Rightarrow> json \<Rightarrow> json icall" where
  "IdempotencyController_cleanup env ienv b =
     (if \<not> IdempotencyCleanupDto_ok b then pthrow (pipe_error env)
      else pbind (idem_cleanup ienv (str_of (jget b ''merchantId'')) (str_of (jget b ''idempotencyKey'')) (str_of (jget b ''ownerId'')))
             (\<lambda>u. preturn success_json))"

section \<open>The gateway's idempotency client\<close>

datatype iop = I_check | I_complete | I_cleanup

fun iop_name :: "iop \<Rightarrow> string" where
  "iop_name I_check = ''check''"
| "iop_name I_complete = ''complete''"
| "iop_name I_cleanup = ''cleanup''"

text \<open>What differs from call to call; \<open>ge_net\<close>: the call fails, and whether the service had executed it.\<close>

record gw_env =
  ge_srv :: service_env
  ge_idem :: "iop \<Rightarrow> idem_env"
  ge_net :: "iop \<Rightarrow> (failure \<times> bool) option"

text \<open>An exception built from any JSON body.\<close>

definition http_exn_json :: "json \<Rightarrow> nat \<Rightarrow> exn" where
  "http_exn_json d status =
     (case d of
        JObj ps \<Rightarrow> http_exn ps status
      | JStr m \<Rightarrow> http_exn_str m status
      | v \<Rightarrow> HttpExn \<lparr>he_name = ''HttpException'', he_status = status, he_response = v,
               he_message = [Lit ''Http Exception''], he_response_data = None\<rparr>)"

definition service_error :: "string \<Rightarrow> nat \<Rightarrow> exn" where
  "service_error msg status = http_exn [(''error'', JStr ''IDEMPOTENCY_SERVICE_ERROR''), (''message'', JStr msg)] status"

definition handleAxiosError :: "iop \<Rightarrow> failure \<Rightarrow> exn" where
  "handleAxiosError op1 e =
     (case e of
        AxiosResponse status data \<Rightarrow>
          if truthy data
          then (case jget data ''error'' of
                  Some inner \<Rightarrow>
                    if jget data ''success'' = Some (JBool False) \<and> typeof_object inner \<and> inner \<noteq> JNull
                    then http_exn (json_prop ''error'' (jget inner ''code'') @ json_prop ''message'' (jget inner ''message'')
                           @ json_prop ''details'' (jget inner ''details'')) status
                    else http_exn_json data status
                | None \<Rightarrow> http_exn_json data status)
          else service_error (''Idempotency Service error during '' @ iop_name op1) status
      | AxiosNoResponse code msg \<Rightarrow> service_error msg 500
      | AxiosSetup msg \<Rightarrow> service_error msg 500
      | OtherError msg \<Rightarrow> service_error msg 500)"

definition idem_path :: "iop \<Rightarrow> string" where
  "idem_path op1 = ''/api/v1/internal/idempotency/'' @ iop_name op1"

definition idem_endpoint :: "gw_env \<Rightarrow> iop \<Rightarrow> json \<Rightarrow> json icall" where
  "idem_endpoint env op1 payload =
     (case op1 of
        I_check \<Rightarrow> IdempotencyController_check (ge_srv env) (ge_idem env I_check) payload
      | I_complete \<Rightarrow> IdempotencyController_complete (ge_srv env) (ge_idem env I_complete) payload
      | I_cleanup \<Rightarrow> IdempotencyController_cleanup (ge_srv env) (ge_idem env I_cleanup) payload)"

definition idem_post :: "gw_env \<Rightarrow> iop \<Rightarrow> json \<Rightarrow> json icall" where
  "idem_post env op1 payload = (\<lambda>st.
     let (r, st1) = idem_endpoint env op1 payload st
     in case ge_net env op1 of
          Some (flt, executed) \<Rightarrow> (Inl (handleAxiosError op1 flt), if executed then st1 else st)
        | None \<Rightarrow>
            (let (status, body) = respond (ge_srv env) (idem_path op1) 200 r
             in (if 200 \<le> status \<and> status < 300 then Inr body else Inl (handleAxiosError op1 (AxiosResponse status body)), st1)))"

definition check_payload :: "string \<Rightarrow> string \<Rightarrow> json \<Rightarrow> json" where
  "check_payload m k body = JObj [(''merchantId'', JStr m), (''idempotencyKey'', JStr k), (''requestBody'', body)]"

definition complete_payload :: "string \<Rightarrow> string \<Rightarrow> json \<Rightarrow> nat \<Rightarrow> (string \<times> string) list \<Rightarrow> json \<Rightarrow> json" where
  "complete_payload m k r status hs body = JObj
     ([(''merchantId'', JStr m), (''idempotencyKey'', JStr k)]
      @ json_prop ''ownerId'' (jget r ''ownerId'') @ json_prop ''requestHash'' (jget r ''requestHash'')
      @ [(''statusCode'', jnat status), (''headers'', JObj (map (\<lambda>(n, v). (n, JStr v)) hs)), (''body'', body)])"

definition cleanup_payload :: "string \<Rightarrow> string \<Rightarrow> json \<Rightarrow> json" where
  "cleanup_payload m k r = JObj
     ([(''merchantId'', JStr m), (''idempotencyKey'', JStr k)] @ json_prop ''ownerId'' (jget r ''ownerId''))"

section \<open>The interceptor\<close>

text \<open>A response being built; header names are in lower case, as Node keeps them.\<close>

record reply =
  rp_status :: nat
  rp_headers :: "(string \<times> string) list"
  rp_body :: json

definition set_header :: "string \<Rightarrow> string \<Rightarrow> reply \<Rightarrow> reply" where
  "set_header n v rp = rp\<lparr>rp_headers := filter (\<lambda>h. fst h \<noteq> n) (rp_headers rp) @ [(n, v)]\<rparr>"

definition uncached_headers :: "string list" where
  "uncached_headers = [''connection'', ''keep-alive'', ''transfer-encoding'', ''date'', ''x-powered-by'']"

definition headers_to_cache :: "reply \<Rightarrow> (string \<times> string) list" where
  "headers_to_cache rp = filter (\<lambda>h. fst h \<notin> set uncached_headers) (rp_headers rp)"

definition header_text :: "js_env \<Rightarrow> json \<Rightarrow> string" where
  "header_text env v = (case v of JStr s \<Rightarrow> s | x \<Rightarrow> je_string env x)"

text \<open>\<open>checkResult.statusCode || HttpStatus.OK\<close>.\<close>

definition status_of :: "json option \<Rightarrow> nat" where
  "status_of v = (case v of Some (JNum (Fin q)) \<Rightarrow> if q = 0 then 200 else nat \<lfloor>q\<rfloor> | _ \<Rightarrow> 200)"

definition object_entries :: "json option \<Rightarrow> (string \<times> json) list" where
  "object_entries v = (case v of Some (JObj ps) \<Rightarrow> ps | _ \<Rightarrow> [])"

definition replay_reply :: "js_env \<Rightarrow> json \<Rightarrow> reply \<Rightarrow> reply" where
  "replay_reply env r base =
     (let rp = base\<lparr>rp_status := status_of (jget r ''statusCode'')\<rparr>;
          rp1 = foldl (\<lambda>q (n, v). set_header n (header_text env v) q) rp (object_entries (jget r ''headers''))
      in (set_header ''idempotency-replayed'' ''true'' rp1)\<lparr>rp_body := (case jget r ''body'' of Some b \<Rightarrow> b | None \<Rightarrow> JNull)\<rparr>)"

definition MISSING_IDEMPOTENCY :: exn where
  "MISSING_IDEMPOTENCY = http_exn [(''error'', JStr (platform_str MISSING_IDEMPOTENCY_KEY)),
     (''message'', JStr ''Missing or empty Idempotency-Key header'')] 400"

definition FILTER_ERROR :: exn where
  "FILTER_ERROR = http_exn [(''error'', JStr ''IDEMPOTENCY_FILTER_ERROR''),
     (''message'', JStr ''Failed to process request idempotency'')] 500"

definition is_http_exn :: "exn \<Rightarrow> bool" where
  "is_http_exn e = (case e of HttpExn h \<Rightarrow> True | _ \<Rightarrow> False)"

text \<open>The effect of a call whose error is only logged.\<close>

definition quietly :: "('s, exn, 'a) proc \<Rightarrow> 's \<Rightarrow> 's" where
  "quietly m st = snd (m st)"

text \<open>
  Once the lock is acquired: the handler runs; a response below 500 is completed and a failure cleaned
  up. An error of either call changes nothing in the response.
\<close>

definition run_locked ::
  "gw_env \<Rightarrow> string \<Rightarrow> string \<Rightarrow> json \<Rightarrow> reply \<Rightarrow> ('w, exn, json) proc \<Rightarrow> (redis \<times> 'w, exn, reply) proc" where
  "run_locked env m k r base handle = (\<lambda>st.
     case on_snd handle st of
       (Inr body, st1) \<Rightarrow>
         (Inr (base\<lparr>rp_body := body\<rparr>),
          if rp_status base < 500
          then quietly (on_fst (idem_post env I_complete
                 (complete_payload m k r (rp_status base) (headers_to_cache base) (if body = JNull then JObj [] else body)))) st1
          else quietly (on_fst (idem_post env I_cleanup (cleanup_payload m k r))) st1)
     | (Inl e, st1) \<Rightarrow> (Inl e, quietly (on_fst (idem_post env I_cleanup (cleanup_payload m k r))) st1))"

definition plain_run :: "reply \<Rightarrow> ('w, exn, json) proc \<Rightarrow> (redis \<times> 'w, exn, reply) proc" where
  "plain_run base handle = pbind (on_snd handle) (\<lambda>body. preturn (base\<lparr>rp_body := body\<rparr>))"

definition intercept ::
  "gw_env \<Rightarrow> string \<Rightarrow> string option \<Rightarrow> string option \<Rightarrow> json option \<Rightarrow> reply \<Rightarrow> ('w, exn, json) proc \<Rightarrow>
     (redis \<times> 'w, exn, reply) proc" where
  "intercept env meth keyHeader merchant body base handle =
     (let key = js_trim (str_or keyHeader []) in
      if meth \<notin> {''POST'', ''PUT'', ''PATCH'', ''DELETE''} then plain_run base handle
      else if key = [] then pthrow MISSING_IDEMPOTENCY
      else case merchant of
        None \<Rightarrow> plain_run base handle
      | Some m \<Rightarrow>
          pbind (pcatch (pbind (on_fst (idem_post env I_check (check_payload m key (json_or_empty body))))
                          (\<lambda>r st. (case read_prop r ''status'' of Inl e \<Rightarrow> Inl e | Inr s \<Rightarrow> Inr (r, s), st)))
                   (\<lambda>e. pthrow (if is_http_exn e then e else FILTER_ERROR)))
            (\<lambda>(r, s). if s = Some (JStr ''COMPLETED'') then preturn (replay_reply (se_js (ge_srv env)) r base)
                      else run_locked env m key r base handle))"

section \<open>The route\<close>

text \<open>The decorators of the gateway's \<open>CreatePaymentRequestDto\<close>; \<open>is_iso4217\<close> is class-validator's.\<close>

definition GatewayPaymentDto_ok :: "service_env \<Rightarrow> (string \<Rightarrow> bool) \<Rightarrow> json \<Rightarrow> bool" where
  "GatewayPaymentDto_ok env is_iso4217 b \<longleftrightarrow>
     only_props [''idempotencyKey'', ''amount'', ''currency'', ''merchantId'', ''orderId'', ''paymentMethod'', ''customerId'', ''metadata''] b \<and>
     (case jget b ''idempotencyKey'' of Some (JStr s) \<Rightarrow> True | _ \<Rightarrow> False) \<and>
     (case jget b ''amount'' of Some (JNum (Fin q)) \<Rightarrow> 0 < q | Some (JNum (Inf pos)) \<Rightarrow> pos | _ \<Rightarrow> False) \<and>
     (case jget b ''currency'' of Some (JStr s) \<Rightarrow> is_iso4217 s | _ \<Rightarrow> False) \<and>
     (case jget b ''merchantId'' of Some (JStr s) \<Rightarrow> se_is_uuid4 env s | _ \<Rightarrow> False) \<and>
     (case jget b ''orderId'' of Some (JStr s) \<Rightarrow> se_is_uuid4 env s | _ \<Rightarrow> False) \<and>
     (case jget b ''paymentMethod'' of Some (JStr s) \<Rightarrow> True | _ \<Rightarrow> False) \<and>
     optional (\<lambda>v. case v of JStr s \<Rightarrow> True | _ \<Rightarrow> False) (jget b ''customerId'') \<and>
     optional is_object (jget b ''metadata'')"

text \<open>\<open>forwardPaymentRequest\<close>: the three properties sent on.\<close>

definition payment_service_body :: "json \<Rightarrow> json" where
  "payment_service_body b = JObj
     (json_prop ''amount'' (jget b ''amount'') @ json_prop ''currency'' (jget b ''currency'')
      @ json_prop ''reference'' (jor (jget b ''reference'') (jget b ''orderId'')))"

definition GatewayPaymentController_createPayment ::
  "service_env \<Rightarrow> (string \<Rightarrow> bool) \<Rightarrow> (json \<Rightarrow> ('w, exn, json) proc) \<Rightarrow> json \<Rightarrow> ('w, exn, json) proc" where
  "GatewayPaymentController_createPayment env is_iso4217 payments body =
     (if \<not> GatewayPaymentDto_ok env is_iso4217 body then pthrow (validation_failed env)
      else payments (payment_service_body body))"

section \<open>The client against the service\<close>

text \<open>What the gateway throws for an exception of the idempotency service.\<close>

definition relayed :: "gw_env \<Rightarrow> iop \<Rightarrow> exn \<Rightarrow> exn" where
  "relayed env op1 e = handleAxiosError op1 (AxiosResponse (exn_status e)
     (error_json (ge_srv env) (snd (filter_catch e (idem_path op1) (se_ids (ge_srv env)) (None, None)))))"

lemma respond_error: "respond env url ok (Inl e) =
    (exn_status e, error_json env (snd (filter_catch e url (se_ids env) (None, None))))"
  by (simp add: respond_def filter_catch_def filter_fields_status Let_def)

text \<open>An error answer of a service, as the client decodes it: its status, code and message.\<close>

lemma relayed_eq:
  "relayed env op1 e = http_exn [(''error'', JStr (ef_code (filter_fields e))),
     (''message'', JStr (message_text (se_js (ge_srv env)) (ef_message (filter_fields e))))] (exn_status e)"
  by (simp add: relayed_def handleAxiosError_def error_json_def filter_catch_def createErrorResponse_def Let_def json_prop_def)
     (auto simp: opt_prop_def split: option.splits)

lemma idem_post_result:
  assumes "ge_net env op1 = None" "idem_endpoint env op1 payload st = (r, st1)"
    and "\<And>e. r = Inl e \<Longrightarrow> 300 \<le> exn_status e"
  shows "idem_post env op1 payload st = (case r of Inr v \<Rightarrow> Inr v | Inl e \<Rightarrow> Inl (relayed env op1 e), st1)"
proof (cases r)
  case (Inl e)
  with assms show ?thesis by (simp add: idem_post_def relayed_def respond_error)
next
  case (Inr v)
  with assms show ?thesis by (simp add: idem_post_def respond_def)
qed

lemma check_endpoint:
  assumes "m \<noteq> []" "k \<noteq> []" "body \<noteq> JNull"
  shows "idem_endpoint env I_check (check_payload m k body) st =
    (case idem_check (ge_idem env I_check) m k body st of (Inr c, st1) \<Rightarrow> (Inr (check_json c), st1) | (Inl e, st1) \<Rightarrow> (Inl e, st1))"
  using assms by (simp add: idem_endpoint_def IdempotencyController_check_def IdempotencyCheckDto_ok_def check_payload_def
      only_props_def nonempty_str_def str_of_def pbind_def preturn_def split: prod.split sum.split)

lemma service_exn_status [simp]:
  "exn_status KEY_REUSED = 422" "exn_status ALREADY_IN_PROGRESS = 409" "exn_status UNABLE_TO_LOCK = 500"
  "exn_status LOCK_OWNERSHIP_MISMATCH = 409"
  by (simp_all add: KEY_REUSED_def ALREADY_IN_PROGRESS_def UNABLE_TO_LOCK_def LOCK_OWNERSHIP_MISMATCH_def idem_exn_def)

lemma relayed_conflicts:
  "relayed env I_check KEY_REUSED = http_exn [(''error'', JStr ''IDEMPOTENCY_CONFLICT''),
     (''message'', JStr ''IDEMPOTENCY_KEY_REUSED_WITH_DIFFERENT_REQUEST'')] 422"
  "relayed env I_check ALREADY_IN_PROGRESS = http_exn [(''error'', JStr ''IDEMPOTENCY_CONFLICT''),
     (''message'', JStr ''An identical request with this Idempotency-Key is already in progress'')] 409"
  by (simp_all add: relayed_eq KEY_REUSED_def ALREADY_IN_PROGRESS_def idem_exn_def opt_prop_def http_exn_def http_exn_body_def
      filter_fields_def filter_http_def filter_http_body_def pick_code_def pick_message_def pick_validation_def pick_metadata_def
      raw_error_def jor_def extracted_message_def filter_init_def message_text_def exn_status_def Let_def)

text \<open>
  The calls of one request at one instant: nothing fails and nobody interferes; identifiers and
  digests are not empty.
\<close>

definition calm :: "gw_env \<Rightarrow> int \<Rightarrow> bool" where
  "calm env t \<longleftrightarrow> (\<forall>op1. undisturbed (ge_idem env op1) t \<and> ge_net env op1 = None) \<and>
     (\<forall>op1. ie_ttlHours (ge_idem env op1) = ie_ttlHours (ge_idem env I_check)) \<and>
     ie_uuid (ge_idem env I_check) \<noteq> [] \<and> (\<forall>b. ie_hash (ge_idem env I_check) b \<noteq> [])"

definition calm_check :: "gw_env \<Rightarrow> int \<Rightarrow> bool" where
  "calm_check env t \<longleftrightarrow> undisturbed (ge_idem env I_check) t \<and> ge_net env I_check = None"

lemma calm_calm_check [simp]: "calm env t \<Longrightarrow> calm_check env t"
  by (simp add: calm_def calm_check_def)

lemma json_or_empty_not_null [simp]: "json_or_empty b \<noteq> JNull"
  by (auto simp: json_or_empty_def split: option.split)

lemma json_or_empty_object [simp]: "json_or_empty (Some (JObj ps)) = JObj ps"
  by (simp add: json_or_empty_def)

lemma post_check_found:
  assumes "calm_check env t" "m \<noteq> []" "k \<noteq> []" "body \<noteq> JNull" "redis_get t (getRedisKey m k) st = Some r"
  shows "idem_post env I_check (check_payload m k body) st =
    (case verdict (ie_hash (ge_idem env I_check) body) r of Inr c \<Rightarrow> Inr (check_json c) | Inl e \<Rightarrow> Inl (relayed env I_check e), st)"
proof -
  let ?v = "verdict (ie_hash (ge_idem env I_check) body) r"
  have u: "undisturbed (ge_idem env I_check) t" "ge_net env I_check = None" using assms(1) by (simp_all add: calm_check_def)
  have ep: "idem_endpoint env I_check (check_payload m k body) st = (case ?v of Inr c \<Rightarrow> Inr (check_json c) | Inl e \<Rightarrow> Inl e, st)"
    using check_endpoint [OF assms(2-4), of env st] check_found [OF u(1) assms(5), of body] by (cases ?v) simp_all
  have "300 \<le> exn_status e" if "?v = Inl e" for e
    using that by (auto simp: verdict_def split: if_splits)
  then show ?thesis
    using idem_post_result [OF u(2) ep] by (cases ?v) simp_all
qed

lemma post_check_free:
  assumes "calm_check env t" "m \<noteq> []" "k \<noteq> []" "body \<noteq> JNull" "redis_get t (getRedisKey m k) st = None"
  shows "\<exists>r. idem_post env I_check (check_payload m k body) st =
      (Inr (check_json (Miss (ie_uuid (ge_idem env I_check)) (ie_hash (ge_idem env I_check) body))),
       st(getRedisKey m k \<mapsto> (r, t + ttl_ms (ie_ttlHours (ge_idem env I_check))))) \<and>
    ir_status r = IN_PROGRESS \<and> ir_ownerId r = ie_uuid (ge_idem env I_check) \<and>
    ir_requestHash r = ie_hash (ge_idem env I_check) body"
proof -
  have u: "undisturbed (ge_idem env I_check) t" "ge_net env I_check = None" using assms(1) by (simp_all add: calm_check_def)
  from check_free [OF u(1) assms(5), of body] obtain r where r:
    "idem_check (ge_idem env I_check) m k body st = (Inr (Miss (ie_uuid (ge_idem env I_check)) (ie_hash (ge_idem env I_check) body)),
       st(getRedisKey m k \<mapsto> (r, t + ttl_ms (ie_ttlHours (ge_idem env I_check)))))"
    "ir_status r = IN_PROGRESS" "ir_ownerId r = ie_uuid (ge_idem env I_check)" "ir_requestHash r = ie_hash (ge_idem env I_check) body"
    by blast
  let ?c = "Miss (ie_uuid (ge_idem env I_check)) (ie_hash (ge_idem env I_check) body)"
  have "idem_endpoint env I_check (check_payload m k body) st =
      (Inr (check_json ?c), st(getRedisKey m k \<mapsto> (r, t + ttl_ms (ie_ttlHours (ge_idem env I_check)))))"
    using check_endpoint [OF assms(2-4), of env st] r(1) by (simp del: check_json.simps)
  from idem_post_result [OF u(2) this] r(2-4) show ?thesis by (intro exI [of _ r]) (simp del: check_json.simps)
qed

section \<open>The interceptor, by the answer to its check\<close>

definition idempotency_key :: "string option \<Rightarrow> string" where
  "idempotency_key keyHeader = js_trim (str_or keyHeader [])"

definition mutating :: "string \<Rightarrow> bool" where
  "mutating meth \<longleftrightarrow> meth \<in> {''POST'', ''PUT'', ''PATCH'', ''DELETE''}"

lemma intercept_checked:
  assumes "mutating meth" "idempotency_key kh \<noteq> []"
    and "idem_post env I_check (check_payload m (idempotency_key kh) (json_or_empty body)) st = (Inr r, st1)" "r \<noteq> JNull"
  shows "intercept env meth kh (Some m) body base handle (st, w) =
    (if jget r ''status'' = Some (JStr ''COMPLETED'') then (Inr (replay_reply (se_js (ge_srv env)) r base), (st1, w))
     else run_locked env m (idempotency_key kh) r base handle (st1, w))"
  using assms by (simp add: intercept_def mutating_def idempotency_key_def Let_def pbind_def pcatch_def on_fst_def read_prop_def)

lemma intercept_refused:
  assumes "mutating meth" "idempotency_key kh \<noteq> []"
    and "idem_post env I_check (check_payload m (idempotency_key kh) (json_or_empty body)) st = (Inl e, st1)"
  shows "intercept env meth kh (Some m) body base handle (st, w) = (Inl (if is_http_exn e then e else FILTER_ERROR), (st1, w))"
  using assms by (simp add: intercept_def mutating_def idempotency_key_def Let_def pbind_def pcatch_def on_fst_def)

lemma run_locked_outcome:
  "\<exists>st2. run_locked env m k r base handle (st, w) =
     (case fst (handle w) of Inr b \<Rightarrow> Inr (base\<lparr>rp_body := b\<rparr>) | Inl e \<Rightarrow> Inl e, (st2, snd (handle w)))"
proof (cases "handle w")
  case (Pair x w1)
  then show ?thesis
    by (cases x) (auto simp: run_locked_def on_snd_def quietly_def on_fst_def split: prod.splits)
qed

lemma check_json_simps [simp]:
  "check_json c \<noteq> JNull" "jget (check_json (Miss o1 h)) ''status'' = Some (JStr ''MISS'')"
  "jget (check_json (Replay code hs b)) ''status'' = Some (JStr ''COMPLETED'')"
  "jget (check_json (Miss o1 h)) ''ownerId'' = Some (JStr o1)" "jget (check_json (Miss o1 h)) ''requestHash'' = Some (JStr h)"
  "jget (check_json (Replay code hs b)) ''statusCode'' = Some code" "jget (check_json (Replay code hs b)) ''headers'' = Some hs"
  "jget (check_json (Replay code hs b)) ''body'' = Some b"
  by (cases c; simp)+

declare check_json.simps [simp del]

lemma is_integer_of_nat [simp]: "is_integer (Fin (of_nat n))"
  using quotient_of_int [of "int n"] by (simp add: is_integer_def)

lemma http_exn_is [simp]: "is_http_exn (relayed env op1 e)"
  by (simp add: relayed_eq http_exn_def http_exn_body_def is_http_exn_def)

text \<open>Completing the request that holds the lock.\<close>

lemma complete_endpoint:
  assumes "m \<noteq> []" "k \<noteq> []" "u \<noteq> []" "h \<noteq> []"
  shows "idem_endpoint env I_complete (complete_payload m k (check_json (Miss u h)) code hs bb) st =
    (case idem_complete (ge_idem env I_complete) m k u h (jnat code) (JObj (map (\<lambda>(n, v). (n, JStr v)) hs)) (json_or_empty (Some bb)) st of
       (Inr v, st1) \<Rightarrow> (Inr success_json, st1) | (Inl e, st1) \<Rightarrow> (Inl e, st1))"
proof -
  let ?p = "complete_payload m k (check_json (Miss u h)) code hs bb"
  have g: "jget ?p ''merchantId'' = Some (JStr m)" "jget ?p ''idempotencyKey'' = Some (JStr k)" "jget ?p ''ownerId'' = Some (JStr u)"
    "jget ?p ''requestHash'' = Some (JStr h)" "jget ?p ''statusCode'' = Some (jnat code)"
    "jget ?p ''headers'' = Some (JObj (map (\<lambda>(n, v). (n, JStr v)) hs))" "jget ?p ''body'' = Some bb"
    by (simp_all add: complete_payload_def json_prop_def)
  have "only_props [''merchantId'', ''idempotencyKey'', ''ownerId'', ''requestHash'', ''statusCode'', ''headers'', ''body''] ?p"
    by (simp add: complete_payload_def only_props_def json_prop_def)
  with g have "IdempotencyCompleteDto_ok ?p"
    using assms by (simp add: IdempotencyCompleteDto_ok_def nonempty_str_def optional_def is_object_def jnat_def)
  then show ?thesis
    by (simp add: idem_endpoint_def IdempotencyController_complete_def g str_of_def pbind_def preturn_def
        json_or_empty_object split: prod.split sum.split)
qed

lemma run_locked_completes:
  assumes "calm env t" "m \<noteq> []" "k \<noteq> []" "handle w = (Inr b, w')" "rp_status base < 500"
    and "st (getRedisKey m k) = Some (r0, x)" "t \<le> x" "ir_ownerId r0 = ie_uuid (ge_idem env I_check)" "h \<noteq> []"
  shows "\<exists>st2 r. run_locked env m k (check_json (Miss (ie_uuid (ge_idem env I_check)) h)) base handle (st, w)
      = (Inr (base\<lparr>rp_body := b\<rparr>), (st2, w')) \<and>
    st2 (getRedisKey m k) = Some (r, t + ttl_ms (ie_ttlHours (ge_idem env I_check))) \<and> ir_status r = COMPLETED \<and>
    ir_ownerId r = ie_uuid (ge_idem env I_check) \<and> ir_requestHash r = h \<and> ir_statusCode r = jnat (rp_status base) \<and>
    ir_headers r = JObj (map (\<lambda>(n, v). (n, JStr v)) (headers_to_cache base)) \<and>
    ir_body r = json_or_empty (Some b)"
proof -
  let ?u = "ie_uuid (ge_idem env I_check)" and ?ie = "ge_idem env I_complete"
  let ?hs = "JObj (map (\<lambda>(n, v). (n, JStr v)) (headers_to_cache base))"
  define bb where "bb = (if b = JNull then JObj [] else b)"
  let ?p = "complete_payload m k (check_json (Miss ?u h)) (rp_status base) (headers_to_cache base) bb"
  have c: "undisturbed ?ie t" "ge_net env I_complete = None" "ie_ttlHours ?ie = ie_ttlHours (ge_idem env I_check)" "?u \<noteq> []"
    using assms(1) by (simp_all add: calm_def)
  obtain cr e y where tm: "record_times (ie_iso ?ie) t (ie_ttlHours ?ie) = Inr (cr, e)" "redis_expiry t (ie_ttlHours ?ie) = Inr y"
    using c(1) by (auto simp: undisturbed_def)
  let ?r = "completed_record ?u h (jnat (rp_status base)) ?hs (json_or_empty (Some bb)) cr e"
  let ?st = "st(getRedisKey m k \<mapsto> (?r, y))"
  have "idem_complete ?ie m k ?u h (jnat (rp_status base)) ?hs (json_or_empty (Some bb)) st = (Inr (), ?st)"
    using assms(6-8) by (simp add: idem_complete_def pbind_def undisturbed_call [OF c(1)] Redis_markCompleted_def redis_get_def tm)
  then have "idem_endpoint env I_complete ?p st = (Inr success_json, ?st)"
    using complete_endpoint [OF assms(2,3) c(4) assms(9), of env "rp_status base" "headers_to_cache base" bb st] by simp
  from idem_post_result [OF c(2) this] have post: "idem_post env I_complete ?p st = (Inr success_json, ?st)" by simp
  have "run_locked env m k (check_json (Miss ?u h)) base handle (st, w) = (Inr (base\<lparr>rp_body := b\<rparr>), (?st, w'))"
    using assms(4,5) post by (simp add: run_locked_def on_snd_def quietly_def on_fst_def flip: bb_def)
  moreover have "json_or_empty (Some bb) = json_or_empty (Some b)" by (simp add: json_or_empty_def bb_def)
  ultimately show ?thesis
    using redis_expiry_ttl [OF tm(2)] c(3) by (intro exI [of _ ?st] exI [of _ ?r]) simp
qed

lemma run_locked_releases:
  assumes "calm env t" "m \<noteq> []" "k \<noteq> []" "handle w = (Inl e, w')"
    and "st (getRedisKey m k) = Some (r0, x)" "t \<le> x" "ir_ownerId r0 = ie_uuid (ge_idem env I_check)"
  shows "run_locked env m k (check_json (Miss (ie_uuid (ge_idem env I_check)) h)) base handle (st, w)
      = (Inl e, (st(getRedisKey m k := None), w'))"
proof -
  let ?u = "ie_uuid (ge_idem env I_check)" and ?ie = "ge_idem env I_cleanup"
  let ?p = "cleanup_payload m k (check_json (Miss ?u h))"
  have c: "undisturbed ?ie t" "ge_net env I_cleanup = None" "?u \<noteq> []" using assms(1) by (simp_all add: calm_def)
  have ok: "IdempotencyCleanupDto_ok ?p"
    using assms(2,3) c(3) by (simp add: IdempotencyCleanupDto_ok_def cleanup_payload_def only_props_def nonempty_str_def json_prop_def)
  have "idem_cleanup ?ie m k ?u st = (Inr (), st(getRedisKey m k := None))"
    using assms(5-7) by (simp add: idem_cleanup_def pbind_def undisturbed_call [OF c(1)] Redis_delete_def redis_get_def)
  then have "idem_endpoint env I_cleanup ?p st = (Inr success_json, st(getRedisKey m k := None))"
    using ok by (simp add: idem_endpoint_def IdempotencyController_cleanup_def)
      (simp add: cleanup_payload_def json_prop_def str_of_def pbind_def)
  from idem_post_result [OF c(2) this] have "idem_post env I_cleanup ?p st = (Inr success_json, st(getRedisKey m k := None))" by simp
  then show ?thesis using assms(4) by (simp add: run_locked_def on_snd_def quietly_def on_fst_def)
qed

text \<open>Setting the headers of a recorded response.\<close>

lemma map_of_set_header: "map_of (rp_headers (set_header n v rp)) k = (if k = n then Some v else map_of (rp_headers rp) k)"
proof -
  have "map_of (filter (\<lambda>h. fst h \<noteq> n) xs @ [(n, v)]) k = (if k = n then Some v else map_of xs k)" for xs :: "(string \<times> string) list"
    by (induction xs) auto
  then show ?thesis by (simp add: set_header_def)
qed

lemma header_text_str [simp]: "header_text env (JStr s) = s"
  by (simp add: header_text_def)

lemma map_of_set_headers:
  assumes "distinct (map fst hs)"
  shows "map_of (rp_headers (foldl (\<lambda>q (n, v). set_header n (header_text env v) q) rp (map (\<lambda>(n, v). (n, JStr v)) hs))) k =
    (case map_of hs k of Some v \<Rightarrow> Some v | None \<Rightarrow> map_of (rp_headers rp) k)"
  using assms
proof (induction hs arbitrary: rp)
  case Nil
  then show ?case by simp
next
  case (Cons p hs)
  obtain n v where p: "p = (n, v)" by (cases p)
  have nn: "map_of hs n = None" and d: "distinct (map fst hs)" using Cons.prems p by (simp_all add: map_of_eq_None_iff)
  have "map_of (rp_headers (foldl (\<lambda>q (n, v). set_header n (header_text env v) q) rp (map (\<lambda>(n, v). (n, JStr v)) (p # hs)))) k =
      (case map_of hs k of Some v \<Rightarrow> Some v | None \<Rightarrow> map_of (rp_headers (set_header n v rp)) k)"
    using Cons.IH [OF d, of "set_header n v rp"] p by simp
  then show ?case using nn p by (cases "k = n") (simp_all add: map_of_set_header split: option.split)
qed

lemma set_header_status [simp]: "rp_status (set_header n v rp) = rp_status rp"
  by (simp add: set_header_def)

lemma rp_status_foldl [simp]: "rp_status (foldl (\<lambda>q (n, v). set_header n (f v) q) rp hs) = rp_status rp"
  by (induction hs arbitrary: rp) auto

section \<open>Requests with a key\<close>

text \<open>What the interceptor answers about a record found, and what the client is told.\<close>

lemma intercept_found:
  assumes "calm_check env t" "m \<noteq> []" "mutating meth" "idempotency_key kh \<noteq> []"
    and "redis_get t (getRedisKey m (idempotency_key kh)) st = Some r"
  shows "intercept env meth kh (Some m) body base handle (st, w) =
    (if ir_requestHash r \<noteq> ie_hash (ge_idem env I_check) (json_or_empty body) then Inl (relayed env I_check KEY_REUSED)
     else if ir_status r = IN_PROGRESS then Inl (relayed env I_check ALREADY_IN_PROGRESS)
     else Inr (replay_reply (se_js (ge_srv env)) (check_json (Replay (ir_statusCode r) (ir_headers r) (ir_body r))) base), (st, w))"
proof -
  have post: "idem_post env I_check (check_payload m (idempotency_key kh) (json_or_empty body)) st =
    (case verdict (ie_hash (ge_idem env I_check) (json_or_empty body)) r of
       Inr c \<Rightarrow> Inr (check_json c) | Inl e \<Rightarrow> Inl (relayed env I_check e), st)"
    by (rule post_check_found [OF assms(1,2,4) json_or_empty_not_null assms(5)])
  show ?thesis
  proof (cases "verdict (ie_hash (ge_idem env I_check) (json_or_empty body)) r")
    case (Inl e)
    with post have "idem_post env I_check (check_payload m (idempotency_key kh) (json_or_empty body)) st = (Inl (relayed env I_check e), st)"
      by simp
    from intercept_refused [OF assms(3,4) this] Inl show ?thesis by (auto simp: verdict_def split: if_splits)
  next
    case (Inr c)
    then have c: "c = Replay (ir_statusCode r) (ir_headers r) (ir_body r)" by (simp add: verdict_def split: if_splits)
    from post Inr have "idem_post env I_check (check_payload m (idempotency_key kh) (json_or_empty body)) st = (Inr (check_json c), st)"
      by simp
    from intercept_checked [OF assms(3,4) this] Inr c show ?thesis by (auto simp: verdict_def split: if_splits)
  qed
qed

lemma intercept_free:
  assumes "calm_check env t" "m \<noteq> []" "mutating meth" "idempotency_key kh \<noteq> []"
    and "redis_get t (getRedisKey m (idempotency_key kh)) st = None"
  shows "\<exists>r. intercept env meth kh (Some m) body base handle (st, w) =
      run_locked env m (idempotency_key kh)
        (check_json (Miss (ie_uuid (ge_idem env I_check)) (ie_hash (ge_idem env I_check) (json_or_empty body)))) base handle
        (st(getRedisKey m (idempotency_key kh) \<mapsto> (r, t + ttl_ms (ie_ttlHours (ge_idem env I_check)))), w) \<and>
    ir_status r = IN_PROGRESS \<and> ir_ownerId r = ie_uuid (ge_idem env I_check) \<and>
    ir_requestHash r = ie_hash (ge_idem env I_check) (json_or_empty body)"
proof -
  obtain r where r: "idem_post env I_check (check_payload m (idempotency_key kh) (json_or_empty body)) st =
      (Inr (check_json (Miss (ie_uuid (ge_idem env I_check)) (ie_hash (ge_idem env I_check) (json_or_empty body)))),
       st(getRedisKey m (idempotency_key kh) \<mapsto> (r, t + ttl_ms (ie_ttlHours (ge_idem env I_check)))))"
    "ir_status r = IN_PROGRESS" "ir_ownerId r = ie_uuid (ge_idem env I_check)"
    "ir_requestHash r = ie_hash (ge_idem env I_check) (json_or_empty body)"
    using post_check_free [OF assms(1,2,4) json_or_empty_not_null assms(5)] by blast
  from intercept_checked [OF assms(3,4) r(1)] r(2-4) show ?thesis by (intro exI [of _ r]) simp
qed

text \<open>\<open>ttl_ms\<close> of a lifetime Redis accepts is positive.\<close>

lemma undisturbed_ttl: "undisturbed env t \<Longrightarrow> 0 \<le> ttl_ms (ie_ttlHours env)"
  by (auto simp: undisturbed_def redis_expiry_def ttl_ms_def split: jsnum.splits if_splits)

text \<open>The whole first request: its answer and the record it leaves.\<close>

lemma first_request:
  assumes "calm env t" "m \<noteq> []" "mutating meth" "idempotency_key kh \<noteq> []"
    and "redis_get t (getRedisKey m (idempotency_key kh)) st = None" "handle w = (Inr b, w')" "rp_status base < 500"
  shows "\<exists>st1 r. intercept env meth kh (Some m) body base handle (st, w) = (Inr (base\<lparr>rp_body := b\<rparr>), (st1, w')) \<and>
    st1 (getRedisKey m (idempotency_key kh)) = Some (r, t + ttl_ms (ie_ttlHours (ge_idem env I_check))) \<and>
    ir_status r = COMPLETED \<and> ir_ownerId r = ie_uuid (ge_idem env I_check) \<and>
    ir_requestHash r = ie_hash (ge_idem env I_check) (json_or_empty body) \<and> ir_statusCode r = jnat (rp_status base) \<and>
    ir_headers r = JObj (map (\<lambda>(n, v). (n, JStr v)) (headers_to_cache base)) \<and> ir_body r = json_or_empty (Some b)"
proof -
  obtain r0 where r0: "intercept env meth kh (Some m) body base handle (st, w) =
      run_locked env m (idempotency_key kh)
        (check_json (Miss (ie_uuid (ge_idem env I_check)) (ie_hash (ge_idem env I_check) (json_or_empty body)))) base handle
        (st(getRedisKey m (idempotency_key kh) \<mapsto> (r0, t + ttl_ms (ie_ttlHours (ge_idem env I_check)))), w)"
    "ir_ownerId r0 = ie_uuid (ge_idem env I_check)"
    using intercept_free [where body = body and base = base and handle = handle and w = w, OF calm_calm_check [OF assms(1)] assms(2-5)]
    by blast
  have ttl: "t \<le> t + ttl_ms (ie_ttlHours (ge_idem env I_check))" and h: "ie_hash (ge_idem env I_check) (json_or_empty body) \<noteq> []"
    using assms(1) undisturbed_ttl by (auto simp: calm_def)
  show ?thesis
    using run_locked_completes [where handle = handle and base = base and w = w, OF assms(1,2,4,6,7) _ ttl r0(2) h] r0(1) by simp
qed

section \<open>A handler runs only under its lock\<close>

definition proper_faults :: "idem_env \<Rightarrow> bool" where
  "proper_faults env \<longleftrightarrow> (\<forall>pt e x. ie_fault env pt = Some (e, x) \<longrightarrow> 300 \<le> exn_status e)"

lemma valid_redis_call:
  assumes "proper_faults env" "\<And>now st e. f now st = Inl e \<Longrightarrow> 300 \<le> exn_status e"
  shows "valid (\<lambda>st. True) (redis_call env pt f) (\<lambda>x st. True) (\<lambda>e st. 300 \<le> exn_status e)"
  using assms by (auto simp: valid_def redis_call_def proper_faults_def Let_def split: option.splits sum.splits)

lemma redis_errors:
  "Redis_createInProgress iso_of now m k h w ttlHours st = Inl e \<Longrightarrow> 300 \<le> exn_status e"
  by (auto simp: Redis_createInProgress_def record_times_def redis_expiry_def invalid_expire_def invalid_time_def
      exn_status_def Let_def split: rbind_splits jsnum.splits if_splits prod.splits)

lemma valid_try: "proper_faults env \<Longrightarrow> valid (\<lambda>st. True) (try_lock env pt m k h) (\<lambda>x st. True) (\<lambda>e st. 300 \<le> exn_status e)"
  unfolding try_lock_def by (rule valid_redis_call) (auto intro: redis_errors)

lemma valid_look: "proper_faults env \<Longrightarrow> valid (\<lambda>st. True) (look_up env pt m k) (\<lambda>x st. True) (\<lambda>e st. 300 \<le> exn_status e)"
  unfolding look_up_def by (rule valid_redis_call) auto

lemma valid_judge_status: "valid (\<lambda>st. True) (judge h r) (\<lambda>x st. True) (\<lambda>e st. 300 \<le> exn_status e)"
  by (auto simp: valid_def judge_def pthrow_def preturn_def)

lemma valid_check_status:
  assumes "proper_faults env"
  shows "valid (\<lambda>st. True) (idem_check env m k body) (\<lambda>x st. True) (\<lambda>e st. 300 \<le> exn_status e)"
proof -
  note rules = valid_bind [where R = "\<lambda>x st. True"] valid_if valid_return valid_try valid_look valid_judge_status valid_throw
  have again: "valid (\<lambda>st. True) (case x of None \<Rightarrow> pthrow UNABLE_TO_LOCK | Some r \<Rightarrow> judge h r) (\<lambda>x st. True) (\<lambda>e st. 300 \<le> exn_status e)"
    for x h by (cases x) (auto intro!: rules)
  have found: "valid (\<lambda>st. True) (case x of Some r \<Rightarrow> judge h r | None \<Rightarrow> f) (\<lambda>x st. True) (\<lambda>e st. 300 \<le> exn_status e)"
    if "valid (\<lambda>st. True) f (\<lambda>x st. True) (\<lambda>e st. 300 \<le> exn_status e)" for x h f
    using that by (cases x) (auto intro!: rules)
  show ?thesis
    unfolding idem_check_def Let_def
    by (rule valid_bind [OF valid_try [OF assms]], rule valid_if, simp add: valid_return,
        rule valid_bind [OF valid_look [OF assms]], rule found,
        rule valid_bind [OF valid_try [OF assms]], rule valid_if, simp add: valid_return,
        rule valid_bind [OF valid_look [OF assms]], rule again)
qed

lemma check_post_inv:
  assumes "proper_faults (ge_idem env I_check)" "idem_post env I_check (check_payload m k body) st = (Inr r, st1)" "body \<noteq> JNull"
  shows "\<exists>c. m \<noteq> [] \<and> k \<noteq> [] \<and> idem_check (ge_idem env I_check) m k body st = (Inr c, st1) \<and> r = check_json c"
proof -
  obtain x s where ep: "idem_endpoint env I_check (check_payload m k body) st = (x, s)" by fastforce
  have net: "ge_net env I_check = None" using assms(2) ep by (cases "ge_net env I_check") (auto simp: idem_post_def)
  have ok: "IdempotencyCheckDto_ok (check_payload m k body) \<longleftrightarrow> m \<noteq> [] \<and> k \<noteq> []"
    using assms(3) by (auto simp: IdempotencyCheckDto_ok_def check_payload_def only_props_def nonempty_str_def)
  show ?thesis
  proof (cases "m \<noteq> [] \<and> k \<noteq> []")
    case False
    then have "idem_endpoint env I_check (check_payload m k body) st = (Inl (pipe_error (ge_srv env)), st)"
      using ok by (simp add: idem_endpoint_def IdempotencyController_check_def pthrow_def)
    from idem_post_result [OF net this] assms(2) show ?thesis by (simp add: pipe_error_def exn_status_def)
  next
    case True
    obtain y s2 where c: "idem_check (ge_idem env I_check) m k body st = (y, s2)" by fastforce
    have st: "300 \<le> exn_status e" if "y = Inl e" for e
      using validD [OF valid_check_status [OF assms(1)] TrueI c] that by simp
    have "idem_endpoint env I_check (check_payload m k body) st = (case y of Inr c \<Rightarrow> Inr (check_json c) | Inl e \<Rightarrow> Inl e, s2)"
      using check_endpoint [of m k body env st] True assms(3) c by (cases y) simp_all
    from idem_post_result [OF net this] st assms(2) c True show ?thesis by (cases y) auto
  qed
qed

lemma handler_locked:
  assumes "mutating meth" "proper_faults (ge_idem env I_check)"
    and "intercept env meth kh (Some m) body base handle (st, w) = (ans, (st', w'))" "w' \<noteq> w"
  shows "\<exists>st1 r x. snd (idem_post env I_check (check_payload m (idempotency_key kh) (json_or_empty body)) st) = st1 \<and>
    st1 (getRedisKey m (idempotency_key kh)) = Some (r, x) \<and> ir_status r = IN_PROGRESS \<and>
    ir_ownerId r = ie_uuid (ge_idem env I_check) \<and> ir_requestHash r = ie_hash (ge_idem env I_check) (json_or_empty body) \<and> idempotency_key kh \<noteq> []"
proof (cases "idempotency_key kh = []")
  case True
  then have "intercept env meth kh (Some m) body base handle (st, w) = (Inl MISSING_IDEMPOTENCY, (st, w))"
    using assms(1) by (simp add: intercept_def mutating_def idempotency_key_def Let_def pthrow_def)
  with assms(3,4) show ?thesis by simp
next
  case False
  let ?k = "idempotency_key kh" and ?b = "json_or_empty body" and ?ie = "ge_idem env I_check"
  obtain a st1 where post: "idem_post env I_check (check_payload m ?k ?b) st = (a, st1)" by fastforce
  show ?thesis
  proof (cases a)
    case (Inl e)
    from intercept_refused [where base = base and handle = handle and w = w, OF assms(1) False post [unfolded Inl]] assms(3,4) show ?thesis by simp
  next
    case (Inr r)
    obtain c where c: "idem_check ?ie m ?k ?b st = (Inr c, st1)" "r = check_json c"
      using check_post_inv [OF assms(2) post [unfolded Inr] json_or_empty_not_null] by blast
    show ?thesis
    proof (cases c)
      case (Replay code hs bd)
      from intercept_checked [where base = base and handle = handle and w = w, OF assms(1) False post [unfolded Inr]] c(2) Replay assms(3,4) show ?thesis by simp
    next
      case (Miss o1 h)
      from validD [OF valid_check TrueI c(1)] Miss post False show ?thesis by (auto simp: locked_by_def)
    qed
  qed
qed

section \<open>Properties of the interceptor\<close>

text \<open>
  C6. A retry is answered from the record: when a request with a free key has been answered below 500, a
  second request of the same merchant with the same key and the same body, before the lifetime ends and
  whatever the commands of other requests do meanwhile, does not run the handler and changes nothing.
  Its answer has the status and body of the first and each of its cached headers (also those of the
  first request's own tracing and rate limit), and is marked as replayed.
\<close>

theorem retry_is_replayed:
  assumes "calm env1 t1" "m \<noteq> []" "mutating meth" "idempotency_key kh \<noteq> []"
    and "redis_get t1 (getRedisKey m (idempotency_key kh)) st = None" "handle1 w1 = (Inr b, w1')"
    and "0 < rp_status base1" "rp_status base1 < 500" "distinct (map fst (rp_headers base1))"
    and "intercept env1 meth kh (Some m) body base1 handle1 (st, w1) = (ans1, (st1, w))"
    and "\<forall>(now, a) \<in> set ops. now \<le> t1 + ttl_ms (ie_ttlHours (ge_idem env1 I_check)) \<and> op_owner a \<noteq> Some (ie_uuid (ge_idem env1 I_check))"
    and "st2 = idem_run iso_of ttlHours ops st1" "calm env2 t2" "t2 \<le> t1 + ttl_ms (ie_ttlHours (ge_idem env1 I_check))"
    and "ie_hash (ge_idem env2 I_check) (json_or_empty body) = ie_hash (ge_idem env1 I_check) (json_or_empty body)"
  shows "ans1 = Inr (base1\<lparr>rp_body := b\<rparr>) \<and> w = w1' \<and>
    (\<exists>rp. intercept env2 meth kh (Some m) body base2 handle2 (st2, w2) = (Inr rp, (st2, w2)) \<and>
       rp_status rp = rp_status base1 \<and> rp_body rp = json_or_empty (Some b) \<and>
       map_of (rp_headers rp) ''idempotency-replayed'' = Some ''true'' \<and>
       (\<forall>n. n \<noteq> ''idempotency-replayed'' \<longrightarrow> map_of (rp_headers rp) n =
          (case map_of (headers_to_cache base1) n of Some v \<Rightarrow> Some v | None \<Rightarrow> map_of (rp_headers base2) n)))"
proof -
  obtain s1 r where first: "intercept env1 meth kh (Some m) body base1 handle1 (st, w1) = (Inr (base1\<lparr>rp_body := b\<rparr>), (s1, w1'))"
    and r: "s1 (getRedisKey m (idempotency_key kh)) = Some (r, t1 + ttl_ms (ie_ttlHours (ge_idem env1 I_check)))"
    "ir_status r = COMPLETED" "ir_ownerId r = ie_uuid (ge_idem env1 I_check)"
    "ir_requestHash r = ie_hash (ge_idem env1 I_check) (json_or_empty body)" "ir_statusCode r = jnat (rp_status base1)"
    "ir_headers r = JObj (map (\<lambda>(n, v). (n, JStr v)) (headers_to_cache base1))" "ir_body r = json_or_empty (Some b)"
    using first_request [where body = body and handle = handle1 and w = w1 and base = base1, OF assms(1-6,8)] by blast
  have s1: "s1 = st1" using first assms(10) by simp
  have "st2 (getRedisKey m (idempotency_key kh)) = Some (r, t1 + ttl_ms (ie_ttlHours (ge_idem env1 I_check)))"
    unfolding assms(12) by (rule foreign_run) (use assms(11) r(1,3) s1 in auto)
  then have live: "redis_get t2 (getRedisKey m (idempotency_key kh)) st2 = Some r" using assms(14) by (simp add: redis_get_def)
  have d: "distinct (map fst (headers_to_cache base1))"
    using assms(9) unfolding headers_to_cache_def by (rule distinct_map_filter)
  let ?rp = "replay_reply (se_js (ge_srv env2)) (check_json (Replay (ir_statusCode r) (ir_headers r) (ir_body r))) base2"
  have "intercept env2 meth kh (Some m) body base2 handle2 (st2, w2) = (Inr ?rp, (st2, w2))"
    using intercept_found [where body = body and base = base2 and handle = handle2 and w = w2,
        OF calm_calm_check [OF assms(13)] assms(2-4) live] r(2,4) assms(15) by simp
  moreover have "rp_status ?rp = rp_status base1" "rp_body ?rp = json_or_empty (Some b)"
    using r(5,7) assms(7) by (simp_all add: replay_reply_def status_of_def jnat_def Let_def)
  moreover have "map_of (rp_headers ?rp) n = (if n = ''idempotency-replayed'' then Some ''true''
      else case map_of (headers_to_cache base1) n of Some v \<Rightarrow> Some v | None \<Rightarrow> map_of (rp_headers base2) n)" for n
    using map_of_set_headers [OF d] r(6) by (simp add: replay_reply_def object_entries_def map_of_set_header Let_def split: option.split)
  ultimately show ?thesis using first assms(10) by (intro conjI exI [of _ ?rp]) simp_all
qed

text \<open>
  C30. A handler that fails releases the key: the client gets the failure, and the same request right after
  it runs the handler again.
\<close>

theorem failure_releases_key:
  assumes "calm env t" "m \<noteq> []" "mutating meth" "idempotency_key kh \<noteq> []"
    and "redis_get t (getRedisKey m (idempotency_key kh)) st = None" "handle1 w1 = (Inl e, w1')"
    and "calm env2 t2" "handle2 w1' = (x, w2)"
  shows "\<exists>st1 st2. intercept env meth kh (Some m) body base handle1 (st, w1) = (Inl e, (st1, w1')) \<and>
    st1 (getRedisKey m (idempotency_key kh)) = None \<and>
    intercept env2 meth kh (Some m) body base handle2 (st1, w1') =
      (case x of Inr b \<Rightarrow> Inr (base\<lparr>rp_body := b\<rparr>) | Inl e2 \<Rightarrow> Inl e2, (st2, w2))"
proof -
  let ?k = "getRedisKey m (idempotency_key kh)"
  obtain r0 where r0: "intercept env meth kh (Some m) body base handle1 (st, w1) =
      run_locked env m (idempotency_key kh)
        (check_json (Miss (ie_uuid (ge_idem env I_check)) (ie_hash (ge_idem env I_check) (json_or_empty body)))) base handle1
        (st(?k \<mapsto> (r0, t + ttl_ms (ie_ttlHours (ge_idem env I_check)))), w1)"
    "ir_ownerId r0 = ie_uuid (ge_idem env I_check)"
    using intercept_free [where body = body and base = base and handle = handle1 and w = w1, OF calm_calm_check [OF assms(1)] assms(2-5)]
    by blast
  have ttl: "t \<le> t + ttl_ms (ie_ttlHours (ge_idem env I_check))" using assms(1) undisturbed_ttl by (auto simp: calm_def)
  define st1 where "st1 = (st(?k \<mapsto> (r0, t + ttl_ms (ie_ttlHours (ge_idem env I_check)))))(?k := None)"
  have first: "intercept env meth kh (Some m) body base handle1 (st, w1) = (Inl e, (st1, w1'))"
    using run_locked_releases [where handle = handle1 and base = base and w = w1, OF assms(1,2,4,6) _ ttl r0(2)] r0(1)
    by (simp add: st1_def)
  have free: "redis_get t2 ?k st1 = None" by (simp add: st1_def redis_get_def)
  obtain r2 where r2: "intercept env2 meth kh (Some m) body base handle2 (st1, w1') =
      run_locked env2 m (idempotency_key kh)
        (check_json (Miss (ie_uuid (ge_idem env2 I_check)) (ie_hash (ge_idem env2 I_check) (json_or_empty body)))) base handle2
        (st1(?k \<mapsto> (r2, t2 + ttl_ms (ie_ttlHours (ge_idem env2 I_check)))), w1')"
    using intercept_free [where body = body and base = base and handle = handle2 and w = w1',
        OF calm_calm_check [OF assms(7)] assms(2-4) free] by blast
  obtain s2 where "intercept env2 meth kh (Some m) body base handle2 (st1, w1') =
      (case x of Inr b \<Rightarrow> Inr (base\<lparr>rp_body := b\<rparr>) | Inl e2 \<Rightarrow> Inl e2, (s2, w2))"
    unfolding r2 using run_locked_outcome [of env2 m "idempotency_key kh" _ base handle2 _ w1'] assms(8) by fastforce
  with first show ?thesis by (intro exI [of _ st1] exI [of _ s2]) (simp add: st1_def)
qed

text \<open>
  Safety under any interference and any failure: if the route handler of a request with a key has
  changed anything, then the check of that request ended with the record under its key being its own
  lock, in progress, with this request's owner token and hash. (Hypothesis: an error of the store is
  not itself an HTTP exception with a success status.)
\<close>

theorem handler_needs_lock:
  assumes "mutating meth" "proper_faults (ge_idem env I_check)"
    and "intercept env meth kh (Some m) body base handle (st, w) = (ans, (st', w'))" "w' \<noteq> w"
  shows "\<exists>st1 r x. snd (idem_post env I_check (check_payload m (idempotency_key kh) (json_or_empty body)) st) = st1 \<and>
    st1 (getRedisKey m (idempotency_key kh)) = Some (r, x) \<and> ir_status r = IN_PROGRESS \<and>
    ir_ownerId r = ie_uuid (ge_idem env I_check) \<and> ir_requestHash r = ie_hash (ge_idem env I_check) (json_or_empty body)"
  using handler_locked [OF assms] by blast

text \<open>
  C31. A completion that never reaches the service is only logged: the client has its answer, the key stays
  locked, and every retry until the lifetime ends is refused with 409 and does not run the handler.
\<close>

theorem lost_completion_locks_key:
  assumes "calm_check env t" "m \<noteq> []" "mutating meth" "idempotency_key kh \<noteq> []"
    and "redis_get t (getRedisKey m (idempotency_key kh)) st = None" "handle1 w1 = (Inr b, w1')" "rp_status base < 500"
    and "ge_net env I_complete = Some (flt, False)"
    and "calm_check env2 t2" "t2 \<le> t + ttl_ms (ie_ttlHours (ge_idem env I_check))"
    and "ie_hash (ge_idem env2 I_check) (json_or_empty body) = ie_hash (ge_idem env I_check) (json_or_empty body)"
  shows "\<exists>st1. intercept env meth kh (Some m) body base handle1 (st, w1) = (Inr (base\<lparr>rp_body := b\<rparr>), (st1, w1')) \<and>
    intercept env2 meth kh (Some m) body base2 handle2 (st1, w2) = (Inl (http_exn [(''error'', JStr ''IDEMPOTENCY_CONFLICT''),
      (''message'', JStr ''An identical request with this Idempotency-Key is already in progress'')] 409), (st1, w2))"
proof -
  let ?k = "getRedisKey m (idempotency_key kh)"
  obtain r0 where r0: "intercept env meth kh (Some m) body base handle1 (st, w1) =
      run_locked env m (idempotency_key kh)
        (check_json (Miss (ie_uuid (ge_idem env I_check)) (ie_hash (ge_idem env I_check) (json_or_empty body)))) base handle1
        (st(?k \<mapsto> (r0, t + ttl_ms (ie_ttlHours (ge_idem env I_check)))), w1)" "ir_status r0 = IN_PROGRESS"
    "ir_requestHash r0 = ie_hash (ge_idem env I_check) (json_or_empty body)"
    using intercept_free [where body = body and base = base and handle = handle1 and w = w1, OF assms(1-5)] by blast
  define st1 where "st1 = st(?k \<mapsto> (r0, t + ttl_ms (ie_ttlHours (ge_idem env I_check))))"
  have lost: "snd (idem_post env I_complete p s) = s" for p s
    using assms(8) by (simp add: idem_post_def split: prod.split)
  have first: "intercept env meth kh (Some m) body base handle1 (st, w1) = (Inr (base\<lparr>rp_body := b\<rparr>), (st1, w1'))"
    unfolding r0(1) st1_def using assms(6,7) by (simp add: run_locked_def on_snd_def quietly_def on_fst_def split_beta lost)
  have "redis_get t2 ?k st1 = Some r0" using assms(10) by (simp add: st1_def redis_get_def)
  from intercept_found [where body = body and base = base2 and handle = handle2 and w = w2, OF assms(9,2-4) this] r0(2,3) assms(11)
  have "intercept env2 meth kh (Some m) body base2 handle2 (st1, w2) = (Inl (relayed env2 I_check ALREADY_IN_PROGRESS), (st1, w2))"
    by simp
  with first show ?thesis unfolding relayed_conflicts by blast
qed

text \<open>
  C29. The answer to a request with a key, by the record found under it: none, the handler runs exactly once
  and the client gets its result; another request's hash, 422; a request in progress, 409; a completed
  one, the recorded response. In the last three cases the handler does not run and nothing changes.
\<close>

theorem intercept_outcomes:
  assumes "calm_check env t" "m \<noteq> []" "mutating meth" "idempotency_key kh \<noteq> []"
  shows "case redis_get t (getRedisKey m (idempotency_key kh)) st of
      None \<Rightarrow> \<exists>st1. intercept env meth kh (Some m) body base handle (st, w) =
          (case fst (handle w) of Inr b \<Rightarrow> Inr (base\<lparr>rp_body := b\<rparr>) | Inl e \<Rightarrow> Inl e, (st1, snd (handle w)))
    | Some r \<Rightarrow> intercept env meth kh (Some m) body base handle (st, w) =
        (if ir_requestHash r \<noteq> ie_hash (ge_idem env I_check) (json_or_empty body)
         then Inl (http_exn [(''error'', JStr ''IDEMPOTENCY_CONFLICT''),
                (''message'', JStr ''IDEMPOTENCY_KEY_REUSED_WITH_DIFFERENT_REQUEST'')] 422)
         else if ir_status r = IN_PROGRESS
         then Inl (http_exn [(''error'', JStr ''IDEMPOTENCY_CONFLICT''),
                (''message'', JStr ''An identical request with this Idempotency-Key is already in progress'')] 409)
         else Inr (replay_reply (se_js (ge_srv env)) (check_json (Replay (ir_statusCode r) (ir_headers r) (ir_body r))) base), (st, w))"
proof (cases "redis_get t (getRedisKey m (idempotency_key kh)) st")
  case None
  obtain r where "intercept env meth kh (Some m) body base handle (st, w) =
      run_locked env m (idempotency_key kh)
        (check_json (Miss (ie_uuid (ge_idem env I_check)) (ie_hash (ge_idem env I_check) (json_or_empty body)))) base handle
        (st(getRedisKey m (idempotency_key kh) \<mapsto> (r, t + ttl_ms (ie_ttlHours (ge_idem env I_check)))), w)"
    using intercept_free [where body = body and base = base and handle = handle and w = w, OF assms None] by blast
  with run_locked_outcome [of env m "idempotency_key kh" _ base handle _ w] None show ?thesis by simp
next
  case (Some r)
  from intercept_found [where body = body and base = base and handle = handle and w = w, OF assms Some]
  show ?thesis using Some unfolding relayed_conflicts by simp
qed

section \<open>The properties at work\<close>

definition sample_gw :: "string \<Rightarrow> int \<Rightarrow> gw_env" where
  "sample_gw u t = \<lparr>ge_srv = sample_service_env, ge_idem = (\<lambda>op1. sample_idem_env u t), ge_net = (\<lambda>op1. None)\<rparr>"

definition sample_reply :: reply where
  "sample_reply = \<lparr>rp_status = 202, rp_headers = [(''x-request-id'', ''r1'')], rp_body = JNull\<rparr>"

definition count_calls :: "(nat, exn, json) proc" where
  "count_calls = (\<lambda>n. (Inr (JStr ''ok''), Suc n))"

lemma sample_gw_calm: "0 \<le> t \<Longrightarrow> t \<le> 1000000 \<Longrightarrow> u \<noteq> [] \<Longrightarrow> calm (sample_gw u t) t"
  using sample_idem_env_ok [of t u] by (auto simp: calm_def sample_gw_def sample_idem_env_def)

lemma sample_gw_ttl [simp]: "ttl_ms (ie_ttlHours (ge_idem (sample_gw u t) op1)) = 86400000"
  by (simp add: sample_gw_def sample_ttl)

lemma sample_key: "idempotency_key (Some ''k1'') = ''k1''"
  by code_simp

theorem retry_is_replayed_witness:
  "\<exists>st1 rp. intercept (sample_gw ''u1'' 5) ''POST'' (Some ''k1'') (Some ''m'') None sample_reply count_calls ((\<lambda>k. None), 0)
      = (Inr (sample_reply\<lparr>rp_body := JStr ''ok''\<rparr>), (st1, 1)) \<and>
    intercept (sample_gw ''u2'' 9) ''POST'' (Some ''k1'') (Some ''m'') None sample_reply count_calls (st1, 1) = (Inr rp, (st1, 1)) \<and>
    rp_status rp = 202 \<and> rp_body rp = JStr ''ok''"
proof -
  obtain ans st1 w where c: "intercept (sample_gw ''u1'' 5) ''POST'' (Some ''k1'') (Some ''m'') None sample_reply count_calls
      ((\<lambda>k. None), 0) = (ans, (st1, w))" by (rule prod_cases3)
  have h: "ie_hash (ge_idem (sample_gw ''u2'' 9) I_check) b = ie_hash (ge_idem (sample_gw ''u1'' 5) I_check) b" for b
    by (simp add: sample_gw_def sample_idem_env_def)
  from retry_is_replayed [where ops = "[]" and st = "\<lambda>k. None" and ?base2.0 = sample_reply and ?handle2.0 = count_calls and ?w2.0 = 1
      and iso_of = "\<lambda>t. []" and ttlHours = NaN and ?st2.0 = st1 and ?w1'.0 = 1 and b = "JStr ''ok''",
      OF sample_gw_calm [of 5 "''u1''"] _ _ _ _ _ _ _ _ c _ _ sample_gw_calm [of 9 "''u2''"] _ h]
  show ?thesis using c
    by (auto simp: mutating_def sample_key redis_get_def count_calls_def sample_reply_def idem_run_def json_or_empty_def)
qed

theorem failure_releases_key_witness:
  "\<exists>st1 st2. intercept (sample_gw ''u1'' 5) ''POST'' (Some ''k1'') (Some ''m'') None sample_reply (\<lambda>n. (Inl FILTER_ERROR, n)) ((\<lambda>k. None), 0 :: nat)
      = (Inl FILTER_ERROR, (st1, 0)) \<and>
    intercept (sample_gw ''u2'' 9) ''POST'' (Some ''k1'') (Some ''m'') None sample_reply count_calls (st1, 0)
      = (Inr (sample_reply\<lparr>rp_body := JStr ''ok''\<rparr>), (st2, 1))"
  using failure_releases_key [where env = "sample_gw ''u1'' 5" and t = 5 and m = "''m''" and meth = "''POST''" and kh = "Some ''k1''"
      and st = "\<lambda>k. None" and ?handle1.0 = "\<lambda>n. (Inl FILTER_ERROR, n)" and ?w1.0 = 0 and e = FILTER_ERROR and ?w1'.0 = 0
      and ?env2.0 = "sample_gw ''u2'' 9" and ?t2.0 = 9 and ?handle2.0 = count_calls and x = "Inr (JStr ''ok'')" and ?w2.0 = 1
      and body = None and base = sample_reply]
    sample_gw_calm [of 5 "''u1''"] sample_gw_calm [of 9 "''u2''"]
  by (simp add: mutating_def sample_key redis_get_def count_calls_def) (elim exE conjE, intro exI conjI, assumption+)

theorem lost_completion_locks_key_witness:
  "\<exists>st1. fst (intercept ((sample_gw ''u1'' 5)\<lparr>ge_net := (\<lambda>op1. if op1 = I_complete then Some (OtherError ''down'', False) else None)\<rparr>)
        ''POST'' (Some ''k1'') (Some ''m'') None sample_reply count_calls ((\<lambda>k. None), 0)) = Inr (sample_reply\<lparr>rp_body := JStr ''ok''\<rparr>) \<and>
    (\<exists>msg. fst (intercept (sample_gw ''u2'' 80000000) ''POST'' (Some ''k1'') (Some ''m'') None sample_reply count_calls (st1, 1))
        = Inl (http_exn [(''error'', JStr ''IDEMPOTENCY_CONFLICT''), (''message'', JStr msg)] 409))"
proof -
  let ?e = "(sample_gw ''u1'' 5)\<lparr>ge_net := (\<lambda>op1. if op1 = I_complete then Some (OtherError ''down'', False) else None)\<rparr>"
  have e: "calm_check ?e 5" "calm_check (sample_gw ''u2'' 80000000) 80000000"
    by (simp_all add: calm_check_def sample_gw_def sample_idem_env_def undisturbed_def record_times_def redis_expiry_def Let_def)
  from lost_completion_locks_key [where meth = "''POST''" and kh = "Some ''k1''" and m = "''m''" and st = "\<lambda>k. None"
      and ?handle1.0 = count_calls and ?w1.0 = 0 and b = "JStr ''ok''" and ?w1'.0 = 1 and base = sample_reply and body = None
      and ?base2.0 = sample_reply and ?handle2.0 = count_calls and ?w2.0 = 1, OF e(1) _ _ _ _ _ _ _ e(2)]
  obtain st1 where "intercept ?e ''POST'' (Some ''k1'') (Some ''m'') None sample_reply count_calls ((\<lambda>k. None), 0) =
      (Inr (sample_reply\<lparr>rp_body := JStr ''ok''\<rparr>), (st1, 1)) \<and>
      intercept (sample_gw ''u2'' 80000000) ''POST'' (Some ''k1'') (Some ''m'') None sample_reply count_calls (st1, 1) =
      (Inl (http_exn [(''error'', JStr ''IDEMPOTENCY_CONFLICT''),
      (''message'', JStr ''An identical request with this Idempotency-Key is already in progress'')] 409), (st1, 1))"
    by (auto simp: mutating_def sample_key redis_get_def count_calls_def sample_reply_def sample_gw_def sample_idem_env_def sample_ttl ttl_ms_def)
  then show ?thesis
    by (intro exI [of _ st1] conjI exI [of _ "''An identical request with this Idempotency-Key is already in progress''"]) simp_all
qed

theorem handler_needs_lock_witness:
  "\<exists>st1 r x. snd (idem_post (sample_gw ''u1'' 5) I_check (check_payload ''m'' ''k1'' (JObj [])) (\<lambda>k. None)) = st1 \<and>
    st1 (getRedisKey ''m'' ''k1'') = Some (r, x) \<and> ir_status r = IN_PROGRESS \<and> ir_ownerId r = ''u1''"
proof -
  obtain st1 where c: "intercept (sample_gw ''u1'' 5) ''POST'' (Some ''k1'') (Some ''m'') None sample_reply count_calls
      ((\<lambda>k. None), 0) = (Inr (sample_reply\<lparr>rp_body := JStr ''ok''\<rparr>), (st1, 1))"
    using first_request [where env = "sample_gw ''u1'' 5" and t = 5 and m = "''m''" and meth = "''POST''" and kh = "Some ''k1''"
      and st = "\<lambda>k. None" and handle = count_calls and w = 0 and b = "JStr ''ok''" and w' = 1 and base = sample_reply and body = None]
      sample_gw_calm [of 5 "''u1''"]
    by (auto simp: mutating_def sample_key redis_get_def count_calls_def sample_reply_def)
  have p: "proper_faults (ge_idem (sample_gw ''u1'' 5) I_check)"
    by (simp add: proper_faults_def sample_gw_def sample_idem_env_def)
  from handler_needs_lock [OF _ p c] show ?thesis
    by (auto simp: mutating_def sample_key json_or_empty_def sample_gw_def sample_idem_env_def)
qed

theorem intercept_outcomes_witness:
  "\<exists>st1. intercept (sample_gw ''u1'' 5) ''POST'' (Some ''k1'') (Some ''m'') None sample_reply count_calls ((\<lambda>k. None), 0)
      = (Inr (sample_reply\<lparr>rp_body := JStr ''ok''\<rparr>), (st1, 1))"
  using intercept_outcomes [where env = "sample_gw ''u1'' 5" and t = 5 and m = "''m''" and meth = "''POST''" and kh = "Some ''k1''"
      and st = "\<lambda>k. None" and handle = count_calls and w = 0 and base = sample_reply and body = None]
    sample_gw_calm [of 5 "''u1''"]
  by (simp add: mutating_def sample_key redis_get_def count_calls_def)

end
