(* ===== verification/Pipeline.thy ===== *)
theory Pipeline
  imports Gateway
begin

text \<open>
  The whole path of a payment: the gateway's middlewares, interceptor and route in the order
  \<open>AppModule\<close> and NestJS run them, the proxy's call, and the payment service behind it. What is
  proved here spans the components: no call to the payment service without authentication, rate
  admission, the key's lock and a valid body; and a stored payment belongs to the merchant whose API
  key was sent, whatever else the request says.
\<close>

section \<open>The payment service as a server\<close>

text \<open>
  Node keeps the names of received headers in lower case; the clients write three of them with capitals.
\<close>

definition sent_name :: "string \<Rightarrow> string" where
  "sent_name k = (if k = ''x-request-id'' then ''X-Request-ID'' else if k = ''x-correlation-id'' then ''X-Correlation-ID''
     else if k = ''x-merchant-id'' then ''X-Merchant-ID'' else k)"

definition received :: "headers \<Rightarrow> headers" where
  "received h = (\<lambda>k. case h k of Some v \<Rightarrow> Some v | None \<Rightarrow> h (sent_name k))"

record payment_env =
  pe_srv :: service_env
  pe_uuid1 :: string
  pe_uuid2 :: string
  pe_create :: create_env
  pe_faults :: db_faults
  pe_orders :: "request_context \<Rightarrow> downstream"
  pe_fraud :: "request_context \<Rightarrow> downstream"

definition payment_server :: "payment_env \<Rightarrow> http_request \<Rightarrow> payment_db \<Rightarrow> (nat \<times> json) \<times> payment_db" where
  "payment_server env rq db =
     (let (cs, hs, out) = LoggingMiddleware_use (pe_uuid1 env) (pe_uuid2 env) None None (received (hr_headers rq));
          ctx = request_context.truncate cs;
          (r, calls, db') = PaymentController_createPayment (validation_failed (pe_srv env)) (pe_create env) (pe_faults env)
                              (pe_orders env ctx) (pe_fraud env ctx) ctx hs (request_body rq) db
      in (respond (pe_srv env) (hr_url rq) 202 (case r of Inl e \<Rightarrow> Inl e | Inr ps \<Rightarrow> Inr (JObj ps)), db'))"

section \<open>The proxy's call\<close>

definition no_config :: call_config where
  "no_config = \<lparr>cc_timeout = None, cc_forceRetry = False, cc_headers = (\<lambda>k. None), cc_data = None\<rparr>"

text \<open>The request that reaches the payment service; a POST is sent once.\<close>

definition payment_request :: "service_env \<Rightarrow> http_client \<Rightarrow> request_context \<Rightarrow> json \<Rightarrow> http_request" where
  "payment_request env c ctx body = propagateHeaders (se_inject env) ctx
     \<lparr>hr_method = ''POST'', hr_url = ''/api/v1/payments'', hr_baseURL = hc_baseURL c, hr_timeout = hc_timeout c,
      hr_headers = (\<lambda>k. None), hr_data = Some body\<rparr>"

text \<open>\<open>flt\<close>: the call fails on the way, and whether the service had executed it.\<close>

definition forward_payment ::
  "service_env \<Rightarrow> http_client \<Rightarrow> (http_request \<Rightarrow> 'w \<Rightarrow> (nat \<times> json) \<times> 'w) \<Rightarrow> (failure \<times> bool) option \<Rightarrow>
     request_context \<Rightarrow> json \<Rightarrow> ('w, exn, json) proc" where
  "forward_payment env c srv flt ctx body = (\<lambda>w.
     let transport = (\<lambda>rq k. case flt of Some (f, executed) \<Rightarrow> Inl f | None \<Rightarrow> serve (\<lambda>rq. fst (srv rq w)) rq k)
     in (HttpClient_post (se_js env) (se_inject env) transport c ctx ''/api/v1/payments'' (Some body) no_config,
         case flt of Some (f, False) \<Rightarrow> w | _ \<Rightarrow> snd (srv (payment_request env c ctx body) w)))"

section \<open>A request to the gateway's payment route\<close>

record route_env =
  ro_uuid1 :: string
  ro_uuid2 :: string
  ro_uuid3 :: string
  ro_now :: int
  ro_redis_down :: bool
  ro_rate :: rate_config
  ro_url :: string
  ro_iso4217 :: "string \<Rightarrow> bool"

definition js_lower :: "string \<Rightarrow> string" where
  "js_lower s = map (\<lambda>c. if 65 \<le> (of_char c :: nat) \<and> (of_char c :: nat) \<le> 90 then char_of (of_char c + 32 :: nat) else c) s"

definition set_headers :: "(string \<times> string) list \<Rightarrow> reply \<Rightarrow> reply" where
  "set_headers hs rp = foldl (\<lambda>q (n, v). set_header (js_lower n) v q) rp hs"

text \<open>What the exception filter answers, with the headers set so far.\<close>

definition error_reply :: "service_env \<Rightarrow> string \<Rightarrow> request_context \<Rightarrow> headers \<Rightarrow> reply \<Rightarrow> exn \<Rightarrow> reply" where
  "error_reply env url ctx hs rp e =
     (let (status, a) = filter_catch e url (rc_correlationId ctx, rc_requestId ctx) (hs ''x-correlation-id'', hs ''x-request-id'')
      in rp\<lparr>rp_status := status, rp_body := error_json env a\<rparr>)"

text \<open>
  The middlewares in the order of \<open>AppModule.configure\<close>, then the interceptor around the validation
  pipe and the controller. NestJS sets the status of \<open>HttpCode\<close> before the interceptors run.
\<close>

definition gateway_payment ::
  "gw_env \<Rightarrow> route_env \<Rightarrow> (request_context \<Rightarrow> string \<Rightarrow> exn + merchant_context) \<Rightarrow>
     (request_context \<Rightarrow> json \<Rightarrow> ('w, exn, json) proc) \<Rightarrow> headers \<Rightarrow> json option \<Rightarrow>
     zstore \<times> redis \<times> 'w \<Rightarrow> reply \<times> zstore \<times> redis \<times> 'w" where
  "gateway_payment env rt auth payments hs0 body st =
     (let (z, rd, w) = st;
          srv = ge_srv env;
          (cs, hs, out) = LoggingMiddleware_use (ro_uuid1 rt) (ro_uuid2 rt) None None hs0;
          ctx = request_context.truncate cs;
          rp = set_headers out \<lparr>rp_status = 200, rp_headers = [], rp_body = JNull\<rparr>
      in case AuthMiddleware_use (auth ctx) (ro_url rt) hs ctx of
           Inl e \<Rightarrow> (error_reply srv (ro_url rt) ctx hs rp e, st)
         | Inr (who, hs', ctx') \<Rightarrow>
             (let (r, rls, z') = rate_limit_use (ro_rate rt) (ro_redis_down rt) (ro_now rt) (ro_uuid3 rt) (ro_url rt)
                    (map_option mc_merchantId who) (map_of (rp_headers rp) ''x-request-id'') (rc_requestId ctx') z;
                  rp' = set_headers rls rp
              in case r of
                   Inl e \<Rightarrow> (error_reply srv (ro_url rt) ctx' hs' rp' e, (z', rd, w))
                 | Inr u \<Rightarrow>
                     (case intercept env ''POST'' (str_or_opt (hs' ''idempotency-key'') (hs' ''Idempotency-Key''))
                             (map_option mc_merchantId who) body (rp'\<lparr>rp_status := 202\<rparr>)
                             (GatewayPaymentController_createPayment srv (ro_iso4217 rt) (payments ctx') (case body of Some b \<Rightarrow> b | None \<Rightarrow> JObj []))
                             (rd, w) of
                        (Inr ans, (rd', w')) \<Rightarrow> (ans, (z', rd', w'))
                      | (Inl e, (rd', w')) \<Rightarrow> (error_reply srv (ro_url rt) ctx' hs' rp' e, (z', rd', w')))))"

section \<open>Lemmas\<close>

text \<open>Paths are compared after the query string is cut off.\<close>

definition payments_route :: "string \<Rightarrow> bool" where
  "payments_route url \<longleftrightarrow> hd (js_split (CHR ''?'') url) = ''/api/v1/payments''"

lemma payments_route_checked:
  assumes "payments_route url"
  shows "\<not> auth_skips url" "\<not> rate_limit_skips url"
proof -
  have "\<not> (js_endsWith ''/api/v1/payments'' ''/health'' \<or> js_endsWith ''/api/v1/payments'' ''/health/live'' \<or>
      js_endsWith ''/api/v1/payments'' ''/health/ready'' \<or> js_includes ''/api/v1/payments'' ''/health/'' \<or>
      js_includes ''/api/v1/payments'' ''/swagger'' \<or> js_includes ''/api/v1/payments'' ''/swagger-json'')" by code_simp
  then show "\<not> auth_skips url" using assms by (simp add: auth_skips_def payments_route_def)
  have "\<not> (js_includes ''/api/v1/payments'' ''/health'' \<or> js_includes ''/api/v1/payments'' ''/swagger'' \<or>
      js_includes ''/api/v1/payments'' ''/swagger-json'')" by code_simp
  then show "\<not> rate_limit_skips url" using assms by (simp add: rate_limit_skips_def payments_route_def)
qed

lemma logging_headers:
  assumes "LoggingMiddleware_use u1 u2 who None hs = (cs, hs', out)" "k \<noteq> ''x-request-id''" "k \<noteq> ''x-correlation-id''"
  shows "hs' k = hs k"
  using assms by (auto simp: LoggingMiddleware_use_def Let_def)

lemma intercept_world:
  assumes "intercept env meth kh merchant body base handle (st, w) = (ans, (st', w'))"
  shows "w' = w \<or> w' = snd (handle w)"
proof -
  have plain: "snd (snd (plain_run base handle (st, w))) = snd (handle w)"
    by (simp add: plain_run_def pbind_def on_snd_def preturn_def split: prod.split sum.split)
  have locked: "snd (snd (run_locked env m k r base handle (s, w))) = snd (handle w)" for m k r s
    using run_locked_outcome [of env m k r base handle s w] by auto
  have "snd (snd (intercept env meth kh merchant body base handle (st, w))) \<in> {w, snd (handle w)}"
    using plain locked
    by (auto simp: intercept_def Let_def pthrow_def pbind_def pcatch_def on_fst_def preturn_def
        split: option.split prod.split sum.split)
  then show ?thesis using assms by simp
qed

lemma rate_admitted:
  assumes "rate_limit_use cfg down now u url (Some m) a c z = (Inr x, hs, z')" "\<not> rate_limit_skips url"
  shows "rl_allowed (fst (fst (checkLimit cfg down now m (str_or (str_or_opt a c) (''req_fallback_'' @ u)) z)))"
  using assms by (auto simp: rate_limit_use_def Let_def split: prod.splits if_splits)

text \<open>The controller touches the payment service only with a body that passes the DTO.\<close>

lemma controller_world:
  assumes "snd (GatewayPaymentController_createPayment env i4217 payments b w) \<noteq> w"
  shows "GatewayPaymentDto_ok env i4217 b \<and>
    snd (GatewayPaymentController_createPayment env i4217 payments b w) = snd (payments (payment_service_body b) w)"
  using assms by (auto simp: GatewayPaymentController_createPayment_def pthrow_def split: if_splits)

section \<open>Verdicts and refusals\<close>

text \<open>The context and identifier of a request, and the verdict on its key.\<close>

definition request_ctx :: "route_env \<Rightarrow> headers \<Rightarrow> request_context" where
  "request_ctx rt hs = request_context.truncate (fst (LoggingMiddleware_use (ro_uuid1 rt) (ro_uuid2 rt) None None hs))"

definition request_id :: "route_env \<Rightarrow> headers \<Rightarrow> string" where
  "request_id rt hs = str_or (Some (header_or hs ''x-request-id'' (''req_'' @ ro_uuid1 rt))) (''req_fallback_'' @ ro_uuid3 rt)"

definition key_verdict :: "route_env \<Rightarrow> (request_context \<Rightarrow> string \<Rightarrow> exn + merchant_context) \<Rightarrow> headers \<Rightarrow> exn + merchant_context" where
  "key_verdict rt auth hs =
     (case str_or_opt (hs ''x-api-key'') (hs ''X-API-Key'') of
        None \<Rightarrow> Inl MISSING_KEY
      | Some k \<Rightarrow> if k = [] then Inl MISSING_KEY else auth (request_ctx rt hs) k)"

lemma auth_verdict:
  assumes "payments_route url" "hs1 ''x-api-key'' = hs ''x-api-key''" "hs1 ''X-API-Key'' = hs ''X-API-Key''"
  shows "AuthMiddleware_use (auth (request_ctx rt hs)) url hs1 ctx =
    (case key_verdict rt auth hs of Inl e \<Rightarrow> Inl e
     | Inr mc \<Rightarrow> Inr (Some mc, hs1(''x-merchant-id'' \<mapsto> mc_merchantId mc), ctx\<lparr>rc_merchantId := Some (mc_merchantId mc)\<rparr>))"
  using payments_route_checked(1) [OF assms(1)] assms(2,3)
  by (auto simp: AuthMiddleware_use_def key_verdict_def split: option.split sum.split)

lemma key_verdict_Inr:
  "key_verdict rt auth hs = Inr mc \<longleftrightarrow>
     (\<exists>apiKey. str_or_opt (hs ''x-api-key'') (hs ''X-API-Key'') = Some apiKey \<and> apiKey \<noteq> [] \<and> auth (request_ctx rt hs) apiKey = Inr mc)"
  by (auto simp: key_verdict_def split: option.splits if_splits)

lemma error_reply_status:
  "rp_status (error_reply env url ctx hs rp e) = exn_status e" "rp_headers (error_reply env url ctx hs rp e) = rp_headers rp"
  by (simp_all add: error_reply_def filter_catch_def filter_fields_status Let_def)

lemma rate_limited_status [simp]: "exn_status RATE_LIMITED = 429"
  by (simp add: RATE_LIMITED_def)

lemma js_lower_names: "js_lower ''x-request-id'' = ''x-request-id''" "js_lower ''x-correlation-id'' = ''x-correlation-id''"
  "js_lower ''Retry-After'' = ''retry-after''"
  by code_simp+

lemma retry_after_set: "map_of (rp_headers (set_headers (hs @ [(''Retry-After'', v)]) rp)) ''retry-after'' = Some v"
  by (simp add: set_headers_def js_lower_names map_of_set_header)

lemma rate_refused:
  assumes "rate_limit_use cfg down now u url (Some m) a c z = (r, hs, z')" "\<not> rate_limit_skips url"
    and "\<not> rl_allowed (fst (fst (checkLimit cfg down now m (str_or (str_or_opt a c) (''req_fallback_'' @ u)) z)))"
  shows "\<exists>hs' v. r = Inl RATE_LIMITED \<and> hs = hs' @ [(''Retry-After'', v)]"
  using assms by (auto simp: rate_limit_use_def Let_def split: prod.splits if_splits)

lemma logged_request_id:
  assumes "LoggingMiddleware_use (ro_uuid1 rt) (ro_uuid2 rt) None None hs = (cs, hs1, out)"
  shows "str_or (str_or_opt (map_of (rp_headers (set_headers out \<lparr>rp_status = 200, rp_headers = [], rp_body = JNull\<rparr>)) ''x-request-id'')
      (rc_requestId (request_ctx rt hs))) (''req_fallback_'' @ ro_uuid3 rt) = request_id rt hs"
  using assms
  by (auto simp: LoggingMiddleware_use_def Let_def set_headers_def js_lower_names map_of_set_header request_ctx_def request_id_def
      request_context.truncate_def str_or_opt_def)

section \<open>A guarded call\<close>

text \<open>The key the interceptor takes from the headers of a request.\<close>

definition request_key :: "headers \<Rightarrow> string" where
  "request_key hs = idempotency_key (str_or_opt (hs ''idempotency-key'') (hs ''Idempotency-Key''))"

text \<open>A change of the payment service's state is one guarded call.\<close>

lemma guarded_call:
  assumes "payments_route (ro_url rt)" "proper_faults (ge_idem env I_check)"
    and "gateway_payment env rt auth payments hs body (z, rd, w) = (rp, (z', rd', w'))" "w' \<noteq> w"
  shows "\<exists>mc r x b. key_verdict rt auth hs = Inr mc \<and>
    rl_allowed (fst (fst (checkLimit (ro_rate rt) (ro_redis_down rt) (ro_now rt) (mc_merchantId mc) (request_id rt hs) z))) \<and>
    request_key hs \<noteq> [] \<and> snd (idem_post env I_check (check_payload (mc_merchantId mc) (request_key hs) (json_or_empty body)) rd)
      (getRedisKey (mc_merchantId mc) (request_key hs)) = Some (r, x) \<and>
    ir_status r = IN_PROGRESS \<and> ir_ownerId r = ie_uuid (ge_idem env I_check) \<and>
    ir_requestHash r = ie_hash (ge_idem env I_check) (json_or_empty body) \<and>
    body = Some b \<and> GatewayPaymentDto_ok (ge_srv env) (ro_iso4217 rt) b \<and>
    w' = snd (payments ((request_ctx rt hs)\<lparr>rc_merchantId := Some (mc_merchantId mc)\<rparr>) (payment_service_body b) w)"
proof -
  let ?srv = "ge_srv env"
  obtain cs hs1 out where log: "LoggingMiddleware_use (ro_uuid1 rt) (ro_uuid2 rt) None None hs = (cs, hs1, out)" by (rule prod_cases3)
  have ctx: "request_context.truncate cs = request_ctx rt hs" by (simp add: request_ctx_def log)
  define rp0 where "rp0 = set_headers out \<lparr>rp_status = 200, rp_headers = [], rp_body = JNull\<rparr>"
  have hdr: "hs1 ''x-api-key'' = hs ''x-api-key''" "hs1 ''X-API-Key'' = hs ''X-API-Key''"
    "hs1 ''idempotency-key'' = hs ''idempotency-key''" "hs1 ''Idempotency-Key'' = hs ''Idempotency-Key''"
    using logging_headers [OF log] by simp_all
  note au = auth_verdict [where auth = auth and rt = rt and ctx = "request_ctx rt hs", OF assms(1) hdr(1,2)]
  obtain mc where key: "key_verdict rt auth hs = Inr mc"
    using assms(3,4) by (cases "key_verdict rt auth hs") (auto simp: gateway_payment_def log ctx au)
  define ctx2 where "ctx2 = (request_ctx rt hs)\<lparr>rc_merchantId := Some (mc_merchantId mc)\<rparr>"
  obtain r rls z2 where rl: "rate_limit_use (ro_rate rt) (ro_redis_down rt) (ro_now rt) (ro_uuid3 rt) (ro_url rt)
      (Some (mc_merchantId mc)) (map_of (rp_headers rp0) ''x-request-id'') (rc_requestId ctx2) z = (r, rls, z2)" by (rule prod_cases3)
  have r: "r = Inr ()"
    using assms(3,4) by (cases r) (auto simp: gateway_payment_def log ctx au key rl simp flip: rp0_def ctx2_def)
  have rid: "rl_allowed (fst (fst (checkLimit (ro_rate rt) (ro_redis_down rt) (ro_now rt) (mc_merchantId mc) (request_id rt hs) z)))"
    using rate_admitted [OF rl [unfolded r] payments_route_checked(2) [OF assms(1)]] logged_request_id [OF log]
    by (simp add: rp0_def ctx2_def)
  define b where "b = (case body of Some b \<Rightarrow> b | None \<Rightarrow> JObj [])"
  let ?kh = "str_or_opt (hs ''idempotency-key'') (hs ''Idempotency-Key'')"
  let ?handle = "GatewayPaymentController_createPayment ?srv (ro_iso4217 rt) (payments ctx2) b"
  obtain ans rd2 w2 where ic: "intercept env ''POST'' ?kh (Some (mc_merchantId mc)) body ((set_headers rls rp0)\<lparr>rp_status := 202\<rparr>) ?handle (rd, w)
      = (ans, (rd2, w2))" by (rule prod_cases3)
  have w2: "w2 = w'"
    using assms(3) ic by (cases ans) (auto simp: gateway_payment_def log ctx au key rl r hdr simp flip: rp0_def ctx2_def b_def)
  have mut: "mutating ''POST''" by (simp add: mutating_def)
  have lock: "\<exists>st1 r x. snd (idem_post env I_check (check_payload (mc_merchantId mc) (request_key hs) (json_or_empty body)) rd) = st1 \<and>
    st1 (getRedisKey (mc_merchantId mc) (request_key hs)) = Some (r, x) \<and> ir_status r = IN_PROGRESS \<and>
    ir_ownerId r = ie_uuid (ge_idem env I_check) \<and> ir_requestHash r = ie_hash (ge_idem env I_check) (json_or_empty body) \<and> request_key hs \<noteq> []"
    unfolding request_key_def by (rule handler_locked [OF mut assms(2) ic]) (use w2 assms(4) in simp)
  have "w' = snd (?handle w)" using intercept_world [OF ic] w2 assms(4) by simp
  with controller_world [of ?srv "ro_iso4217 rt" "payments ctx2" b w] assms(4)
  have c: "GatewayPaymentDto_ok ?srv (ro_iso4217 rt) b" "w' = snd (payments ctx2 (payment_service_body b) w)" by auto
  then have "body = Some b"
    by (cases body) (auto simp: b_def GatewayPaymentDto_ok_def)
  with lock key rid c show ?thesis unfolding ctx2_def by blast
qed

section \<open>What is stored\<close>

lemma createPayment_fails_clean:
  "createPayment env flt orders fraud ctx b m db = (Inl e, calls, db') \<Longrightarrow> db' = db"
  by (cases "check_duplicate flt db m (js_trim (cp_reference b))") (auto simp: createPayment_def dest: createPayment_rest_Inl)

text \<open>When the payment service's store changes, its handler ran and succeeded, in the context of the request's headers.\<close>

lemma payment_server_created:
  assumes "payment_server env rq db = (a, db')" "db' \<noteq> db"
  obtains cs hs out m q calls where
    "LoggingMiddleware_use (pe_uuid1 env) (pe_uuid2 env) None None (received (hr_headers rq)) = (cs, hs, out)"
    "received (hr_headers rq) ''x-merchant-id'' = Some m" "m \<noteq> []" "CreatePaymentRequestDto_ok (request_body rq)"
    "a = (202, JObj [(''paymentId'', JStr (p_id q)), (''status'', JStr (payment_status_str (p_status q)))])"
    "createPayment (pe_create env) (pe_faults env) (pe_orders env (request_context.truncate cs)) (pe_fraud env (request_context.truncate cs))
       (request_context.truncate cs) (as_create_payment (request_body rq)) m db = (Inr q, calls, db')"
proof -
  obtain cs hs out where log: "LoggingMiddleware_use (pe_uuid1 env) (pe_uuid2 env) None None (received (hr_headers rq)) = (cs, hs, out)"
    by (rule prod_cases3)
  let ?ctx = "request_context.truncate cs"
  obtain r calls d where c: "PaymentController_createPayment (validation_failed (pe_srv env)) (pe_create env) (pe_faults env)
      (pe_orders env ?ctx) (pe_fraud env ?ctx) ?ctx hs (request_body rq) db = (r, calls, d)" by (rule prod_cases3)
  have d: "d = db'" using assms(1) by (simp add: payment_server_def log c)
  have mh: "hs ''x-merchant-id'' = received (hr_headers rq) ''x-merchant-id''" using logging_headers [OF log] by simp
  show thesis
  proof (cases r)
    case (Inl e)
    with c d assms(2) have False
      by (auto simp: PaymentController_createPayment_def split: if_splits prod.splits sum.splits dest: createPayment_fails_clean)
    then show ?thesis ..
  next
    case (Inr res)
    have "truthy_header hs ''x-merchant-id''"
      using c Inr by (auto simp: PaymentController_createPayment_def split: if_splits)
    then obtain m where m: "hs ''x-merchant-id'' = Some m" "m \<noteq> []" by (auto simp: truthy_header_def split: option.splits)
    from controller_create_Inr [OF c [unfolded Inr d]] obtain q where ok: "CreatePaymentRequestDto_ok (request_body rq)"
      and q: "createPayment (pe_create env) (pe_faults env) (pe_orders env ?ctx) (pe_fraud env ?ctx) ?ctx
        (as_create_payment (request_body rq)) (the (hs ''x-merchant-id'')) db = (Inr q, calls, db')"
      and res: "res = [(''paymentId'', JStr (p_id q)), (''status'', JStr (payment_status_str (p_status q)))]" by blast
    have "a = (202, JObj [(''paymentId'', JStr (p_id q)), (''status'', JStr (payment_status_str (p_status q)))])"
      using assms(1) Inr res by (auto simp: payment_server_def log c respond_Inr)
    with log m mh ok q show ?thesis by (intro that [of cs hs out m q calls]) simp_all
  qed
qed

lemma payment_server_stores:
  assumes "payment_server env rq db = (a, db')" "db' \<noteq> db"
  shows "\<exists>m q ev. received (hr_headers rq) ''x-merchant-id'' = Some m \<and> m \<noteq> [] \<and> CreatePaymentRequestDto_ok (request_body rq) \<and>
    db_payments db' = db_payments db @ [q] \<and> db_outbox db' = db_outbox db @ [ev] \<and> announces q ev \<and> p_status q = P_PENDING \<and>
    p_merchantId q = m \<and> p_amount q = cp_amount (as_create_payment (request_body rq)) \<and>
    p_currency q = cp_currency (as_create_payment (request_body rq)) \<and>
    p_reference q = js_trim (cp_reference (as_create_payment (request_body rq)))"
proof -
  obtain cs hs out m q calls where
    "LoggingMiddleware_use (pe_uuid1 env) (pe_uuid2 env) None None (received (hr_headers rq)) = (cs, hs, out)"
    and c: "received (hr_headers rq) ''x-merchant-id'' = Some m" "m \<noteq> []" "CreatePaymentRequestDto_ok (request_body rq)"
    and "a = (202, JObj [(''paymentId'', JStr (p_id q)), (''status'', JStr (payment_status_str (p_status q)))])" and c4:
    "createPayment (pe_create env) (pe_faults env) (pe_orders env (request_context.truncate cs)) (pe_fraud env (request_context.truncate cs))
       (request_context.truncate cs) (as_create_payment (request_body rq)) m db = (Inr q, calls, db')"
    by (rule payment_server_created [OF assms])
  from createPayment_rest_appends [OF createPayment_InrD [OF c4]] obtain ev where
    "db_payments db' = db_payments db @ [q]" "db_outbox db' = db_outbox db @ [ev]" "announces q ev" "p_status q = P_PENDING"
    "p_merchantId q = m" "p_reference q = js_trim (cp_reference (as_create_payment (request_body rq)))"
    "p_amount q = cp_amount (as_create_payment (request_body rq))" "p_currency q = cp_currency (as_create_payment (request_body rq))"
    by metis
  with c show ?thesis by blast
qed

lemma payment_server_duplicate:
  assumes "received (hr_headers rq) ''x-merchant-id'' = Some m" "m \<noteq> []" "df_lookup (pe_faults env) = None"
    and "CreatePaymentRequestDto_ok (request_body rq)" "q \<in> set (db_payments db)" "p_merchantId q = m"
    and "p_reference q = js_trim (cp_reference (as_create_payment (request_body rq)))"
  shows "payment_server env rq db = (respond (pe_srv env) (hr_url rq) 202
    (Inl (DuplicatePaymentReferenceException m (p_reference q))), db)"
proof -
  obtain cs hs out where log: "LoggingMiddleware_use (pe_uuid1 env) (pe_uuid2 env) None None (received (hr_headers rq)) = (cs, hs, out)"
    by (rule prod_cases3)
  have mh: "hs ''x-merchant-id'' = Some m" using logging_headers [OF log] assms(1) by simp
  have "PaymentRepository_findByReference m (p_reference q) (db_payments db) \<noteq> None"
    using assms(5,6) by (auto simp: PaymentRepository_findByReference_def find_None_iff)
  then have "check_duplicate (pe_faults env) db m (p_reference q) = Inl (DuplicatePaymentReferenceException m (p_reference q))"
    using assms(3) by (auto simp: check_duplicate_def)
  then show ?thesis
    using mh assms(2,4,7) by (simp add: payment_server_def log PaymentController_createPayment_def truthy_header_def createPayment_def)
qed

text \<open>Trace propagation leaves the merchant header alone.\<close>

definition keeps_merchant :: "service_env \<Rightarrow> bool" where
  "keeps_merchant env \<longleftrightarrow> (\<forall>h. se_inject env h ''X-Merchant-ID'' = h ''X-Merchant-ID'' \<and> se_inject env h ''x-merchant-id'' = h ''x-merchant-id'')"

lemma payment_request_merchant:
  assumes "keeps_merchant env"
  shows "received (hr_headers (payment_request env c (ctx\<lparr>rc_merchantId := Some m\<rparr>) body)) ''x-merchant-id'' = (if m = [] then None else Some m)"
  using assms by (auto simp: payment_request_def propagateHeaders_def received_def sent_name_def keeps_merchant_def
      propagate_one_def truthy_header_def Let_def split: option.split)

lemma payment_request_body: "request_body (payment_request env c ctx body) = body"
  by (simp add: payment_request_def propagateHeaders_def request_body_def Let_def)

text \<open>The body sent on, as the payment service reads it.\<close>

lemma forwarded_body:
  assumes "GatewayPaymentDto_ok env i4217 b"
  shows "Some (JNum (Fin (cp_amount (as_create_payment (payment_service_body b))))) = jget b ''amount'' \<or>
      \<not> CreatePaymentRequestDto_ok (payment_service_body b)"
    and "jget b ''currency'' = Some (JStr (cp_currency (as_create_payment (payment_service_body b))))"
    and "jget b ''orderId'' = Some (JStr (cp_reference (as_create_payment (payment_service_body b))))"
proof -
  obtain ps where b: "b = JObj ps" and ks: "''reference'' \<notin> fst ` set ps"
    using assms by (cases b) (auto simp: GatewayPaymentDto_ok_def only_props_def)
  have ref: "jget b ''reference'' = None" using ks by (simp add: b map_of_eq_None_iff)
  obtain a c i where f: "jget b ''amount'' = Some a" "jget b ''currency'' = Some (JStr c)" "jget b ''orderId'' = Some (JStr i)"
    using assms by (auto simp: GatewayPaymentDto_ok_def split: option.splits json.splits)
  have g: "jget (payment_service_body b) ''amount'' = Some a" "jget (payment_service_body b) ''currency'' = Some (JStr c)"
    "jget (payment_service_body b) ''reference'' = Some (JStr i)"
    using f by (simp_all add: payment_service_body_def ref json_prop_def jor_def)
  show "Some (JNum (Fin (cp_amount (as_create_payment (payment_service_body b))))) = jget b ''amount'' \<or>
      \<not> CreatePaymentRequestDto_ok (payment_service_body b)"
    using f g dto_amount [of "payment_service_body b"] by auto
  show "jget b ''currency'' = Some (JStr (cp_currency (as_create_payment (payment_service_body b))))"
    "jget b ''orderId'' = Some (JStr (cp_reference (as_create_payment (payment_service_body b))))"
    using f g by (simp_all add: as_create_payment_def)
qed

section \<open>Properties of the whole path\<close>

text \<open>
  C5. No call to the payment service behind the back of the gateway's checks, whatever fails and whatever
  others do. If a request to the payment route has changed the payment service's state, then the API key of
  its header was verified as belonging to a merchant, the rate limiter admitted that merchant and the
  request's identifier, the check of the key in its own \<open>Idempotency-Key\<close> header, trimmed and not empty,
  ended with that key locked under that merchant's name by this very request and with the hash of its body,
  its body passed the DTO, and the change is the one call of the proxy with that body, in the request's
  context with the verified merchant.
\<close>

theorem payment_call_guarded:
  assumes "payments_route (ro_url rt)" "proper_faults (ge_idem env I_check)"
    and "gateway_payment env rt auth payments hs body (z, rd, w) = (rp, (z', rd', w'))" "w' \<noteq> w"
    and "k = idempotency_key (str_or_opt (hs ''idempotency-key'') (hs ''Idempotency-Key''))"
  shows "k \<noteq> [] \<and> (\<exists>apiKey mc r x b. str_or_opt (hs ''x-api-key'') (hs ''X-API-Key'') = Some apiKey \<and> apiKey \<noteq> [] \<and>
    auth (request_ctx rt hs) apiKey = Inr mc \<and>
    rl_allowed (fst (fst (checkLimit (ro_rate rt) (ro_redis_down rt) (ro_now rt) (mc_merchantId mc) (request_id rt hs) z))) \<and>
    snd (idem_post env I_check (check_payload (mc_merchantId mc) k (json_or_empty body)) rd) (getRedisKey (mc_merchantId mc) k)
      = Some (r, x) \<and> ir_status r = IN_PROGRESS \<and> ir_ownerId r = ie_uuid (ge_idem env I_check) \<and>
    ir_requestHash r = ie_hash (ge_idem env I_check) (json_or_empty body) \<and>
    body = Some b \<and> GatewayPaymentDto_ok (ge_srv env) (ro_iso4217 rt) b \<and>
    w' = snd (payments ((request_ctx rt hs)\<lparr>rc_merchantId := Some (mc_merchantId mc)\<rparr>) (payment_service_body b) w))"
  using guarded_call [OF assms(1-4)] unfolding assms(5) request_key_def key_verdict_Inr by blast

text \<open>
  C4. A stored payment belongs to the merchant whose API key the request carried, whatever its headers and
  body say: whatever the answers of the order and fraud services, the database errors and the fate of
  the call, if the request changed the payment database then it added one \<open>PENDING\<close> payment and its
  one event, under the verified merchant's name, with the amount and currency of the body and the
  trimmed \<open>orderId\<close> as its reference.
\<close>

theorem stored_payment_is_authenticated:
  assumes "payments_route (ro_url rt)" "proper_faults (ge_idem env I_check)" "keeps_merchant (ge_srv env)"
    and "gateway_payment env rt auth (forward_payment (ge_srv env) c (payment_server penv) flt) hs body (z, rd, db) = (rp, (z', rd', db'))"
    and "db' \<noteq> db"
  shows "\<exists>ctx apiKey mc b i q ev. str_or_opt (hs ''x-api-key'') (hs ''X-API-Key'') = Some apiKey \<and> auth ctx apiKey = Inr mc \<and>
    body = Some b \<and> db_payments db' = db_payments db @ [q] \<and> db_outbox db' = db_outbox db @ [ev] \<and> announces q ev \<and>
    p_status q = P_PENDING \<and> p_merchantId q = mc_merchantId mc \<and> jget b ''amount'' = Some (JNum (Fin (p_amount q))) \<and>
    jget b ''currency'' = Some (JStr (p_currency q)) \<and> jget b ''orderId'' = Some (JStr i) \<and> p_reference q = js_trim i"
proof -
  let ?ctx = "request_ctx rt hs"
  obtain mc b where key: "key_verdict rt auth hs = Inr mc" and b: "body = Some b" "GatewayPaymentDto_ok (ge_srv env) (ro_iso4217 rt) b"
    "db' = snd (forward_payment (ge_srv env) c (payment_server penv) flt (?ctx\<lparr>rc_merchantId := Some (mc_merchantId mc)\<rparr>) (payment_service_body b) db)"
    using guarded_call [OF assms(1,2,4,5)] by blast
  obtain apiKey where "str_or_opt (hs ''x-api-key'') (hs ''X-API-Key'') = Some apiKey" "auth ?ctx apiKey = Inr mc"
    using key by (auto simp: key_verdict_Inr)
  note g = this b
  let ?rq = "payment_request (ge_srv env) c (?ctx\<lparr>rc_merchantId := Some (mc_merchantId mc)\<rparr>) (payment_service_body b)"
  have "db' = snd (payment_server penv ?rq db)"
    using g(5) assms(5) by (auto simp: forward_payment_def Let_def split: option.splits bool.splits)
  then obtain a where srv: "payment_server penv ?rq db = (a, db')" by (metis prod.collapse)
  obtain m q ev where st: "received (hr_headers ?rq) ''x-merchant-id'' = Some m" "CreatePaymentRequestDto_ok (payment_service_body b)"
    "db_payments db' = db_payments db @ [q]" "db_outbox db' = db_outbox db @ [ev]" "announces q ev" "p_status q = P_PENDING"
    "p_merchantId q = m" "p_amount q = cp_amount (as_create_payment (payment_service_body b))"
    "p_currency q = cp_currency (as_create_payment (payment_service_body b))"
    "p_reference q = js_trim (cp_reference (as_create_payment (payment_service_body b)))"
    using payment_server_stores [OF srv assms(5)] unfolding payment_request_body by blast
  have "m = mc_merchantId mc" using st(1) payment_request_merchant [OF assms(3)] by (simp split: if_splits)
  with st g(1-3) forwarded_body [OF g(4)] show ?thesis by auto
qed

text \<open>
  What a request that is turned away leaves behind: without a verified key it is answered with the
  status of the refusal and changes nothing at all; over the merchant's limit it is answered 429 with
  a \<open>Retry-After\<close> header, and neither the idempotency store nor the payment service has seen it.
\<close>

theorem gateway_refusals:
  assumes "payments_route (ro_url rt)"
    and "gateway_payment env rt auth payments hs body (z, rd, w) = (rp, (z', rd', w'))"
  shows "case key_verdict rt auth hs of
      Inl e \<Rightarrow> rp_status rp = exn_status e \<and> z' = z \<and> rd' = rd \<and> w' = w
    | Inr mc \<Rightarrow>
        (\<not> rl_allowed (fst (fst (checkLimit (ro_rate rt) (ro_redis_down rt) (ro_now rt) (mc_merchantId mc) (request_id rt hs) z))) \<longrightarrow>
         rp_status rp = 429 \<and> (\<exists>s. map_of (rp_headers rp) ''retry-after'' = Some s) \<and> rd' = rd \<and> w' = w)"
proof -
  let ?srv = "ge_srv env"
  obtain cs hs1 out where log: "LoggingMiddleware_use (ro_uuid1 rt) (ro_uuid2 rt) None None hs = (cs, hs1, out)" by (rule prod_cases3)
  have ctx: "request_context.truncate cs = request_ctx rt hs" by (simp add: request_ctx_def log)
  define rp0 where "rp0 = set_headers out \<lparr>rp_status = 200, rp_headers = [], rp_body = JNull\<rparr>"
  have hdr: "hs1 ''x-api-key'' = hs ''x-api-key''" "hs1 ''X-API-Key'' = hs ''X-API-Key''"
    using logging_headers [OF log] by simp_all
  note au = auth_verdict [where auth = auth and rt = rt and ctx = "request_ctx rt hs", OF assms(1) hdr]
  show ?thesis
  proof (cases "key_verdict rt auth hs")
    case (Inl e)
    with assms(2) show ?thesis
      by (auto simp: gateway_payment_def log ctx au error_reply_status simp flip: rp0_def)
  next
    case (Inr mc)
    let ?ctx2 = "(request_ctx rt hs)\<lparr>rc_merchantId := Some (mc_merchantId mc)\<rparr>"
    obtain r rls z2 where rl: "rate_limit_use (ro_rate rt) (ro_redis_down rt) (ro_now rt) (ro_uuid3 rt) (ro_url rt)
        (Some (mc_merchantId mc)) (map_of (rp_headers rp0) ''x-request-id'') (rc_requestId ?ctx2) z = (r, rls, z2)" by (rule prod_cases3)
    have rid: "str_or (str_or_opt (map_of (rp_headers rp0) ''x-request-id'') (rc_requestId ?ctx2)) (''req_fallback_'' @ ro_uuid3 rt) = request_id rt hs"
      using logged_request_id [OF log] by (simp add: rp0_def)
    show ?thesis
    proof (cases "rl_allowed (fst (fst (checkLimit (ro_rate rt) (ro_redis_down rt) (ro_now rt) (mc_merchantId mc) (request_id rt hs) z)))")
      case True
      with Inr show ?thesis by simp
    next
      case False
      from rate_refused [OF rl payments_route_checked(2) [OF assms(1)]] False
      obtain hs9 v where rf: "r = Inl RATE_LIMITED" "rls = hs9 @ [(''Retry-After'', v)]" unfolding rid by blast
      with assms(2) Inr rl show ?thesis
        by (auto simp: gateway_payment_def log ctx au error_reply_status retry_after_set simp flip: rp0_def)
    qed
  qed
qed

section \<open>The properties at work\<close>

definition sample_route :: route_env where
  "sample_route = \<lparr>ro_uuid1 = ''a'', ro_uuid2 = ''b'', ro_uuid3 = ''c'', ro_now = 5, ro_redis_down = False, ro_rate = sample_rate_config,
     ro_url = ''/api/v1/payments?x=1'', ro_iso4217 = (\<lambda>c. c = ''USD'')\<rparr>"

definition sample_auth :: "request_context \<Rightarrow> string \<Rightarrow> exn + merchant_context" where
  "sample_auth ctx k = (if k = ''secret'' then Inr \<lparr>mc_merchantId = ''m1'', mc_merchantName = ''Acme'', mc_permissions = []\<rparr> else Inl INVALID_KEY)"

definition sample_headers :: headers where
  "sample_headers = (\<lambda>k. None)(''x-api-key'' \<mapsto> ''secret'', ''idempotency-key'' \<mapsto> ''k1'', ''x-merchant-id'' \<mapsto> ''victim'')"

definition sample_gateway_body :: json where
  "sample_gateway_body = JObj [(''idempotencyKey'', JStr ''k1''), (''amount'', JNum (Fin 100)), (''currency'', JStr ''USD''),
     (''merchantId'', JStr ''victim''), (''orderId'', JStr ''r1''), (''paymentMethod'', JStr ''card'')]"

lemma sample_payments_route: "payments_route (ro_url sample_route)"
  unfolding sample_route_def payments_route_def by code_simp

lemma sample_proper_faults: "proper_faults (ge_idem (sample_gw u t) op1)"
  by (simp add: proper_faults_def sample_gw_def sample_idem_env_def)

lemma sample_key_verdict:
  "key_verdict sample_route sample_auth sample_headers = Inr \<lparr>mc_merchantId = ''m1'', mc_merchantName = ''Acme'', mc_permissions = []\<rparr>"
  by (simp add: key_verdict_def sample_headers_def str_or_opt_def sample_auth_def)

text \<open>A first request, once its payment call is known.\<close>

lemma sample_run:
  assumes "payments ((request_ctx sample_route sample_headers)\<lparr>rc_merchantId := Some ''m1''\<rparr>) (payment_service_body sample_gateway_body) w
      = (Inr b, w')"
  shows "\<exists>rp z rd. gateway_payment (sample_gw ''u1'' 5) sample_route sample_auth payments sample_headers (Some sample_gateway_body)
    ((\<lambda>k. None), (\<lambda>k. None), w) = (rp, (z, rd, w'))"
proof -
  let ?rt = sample_route and ?srv = "ge_srv (sample_gw ''u1'' 5)"
  obtain cs hs1 out where log: "LoggingMiddleware_use (ro_uuid1 ?rt) (ro_uuid2 ?rt) None None sample_headers = (cs, hs1, out)"
    by (rule prod_cases3)
  have ctx: "request_context.truncate cs = request_ctx ?rt sample_headers" by (simp add: request_ctx_def log)
  have hdr: "hs1 ''x-api-key'' = sample_headers ''x-api-key''" "hs1 ''X-API-Key'' = sample_headers ''X-API-Key''"
    "hs1 ''idempotency-key'' = Some ''k1''"
    using logging_headers [OF log] by (simp_all add: sample_headers_def)
  note au = auth_verdict [where auth = sample_auth and rt = ?rt and ctx = "request_ctx ?rt sample_headers",
      OF sample_payments_route hdr(1,2), unfolded sample_key_verdict]
  have rl: "\<exists>rls z. rate_limit_use (ro_rate ?rt) (ro_redis_down ?rt) (ro_now ?rt) (ro_uuid3 ?rt) (ro_url ?rt) (Some ''m1'') a c (\<lambda>k. None)
      = (Inr (), rls, z)" for a c
    using payments_route_checked(2) [OF sample_payments_route]
    by (simp add: rate_limit_use_def checkLimit_def checkRateLimit_def lua_rate_limit_def zget_def zremrangebyscore_def
        sample_route_def sample_rate_config_def Let_def)
  define rp0 where "rp0 = set_headers out \<lparr>rp_status = 200, rp_headers = [], rp_body = JNull\<rparr>"
  define ctx2 where "ctx2 = (request_ctx ?rt sample_headers)\<lparr>rc_merchantId := Some ''m1''\<rparr>"
  obtain rls z where r: "rate_limit_use (ro_rate ?rt) (ro_redis_down ?rt) (ro_now ?rt) (ro_uuid3 ?rt) (ro_url ?rt) (Some ''m1'')
      (map_of (rp_headers rp0) ''x-request-id'') (rc_requestId ctx2) (\<lambda>k. None) = (Inr (), rls, z)" using rl by blast
  have b: "payments ctx2 (payment_service_body sample_gateway_body) w = (Inr b, w')" using assms unfolding ctx2_def .
  let ?handle = "GatewayPaymentController_createPayment ?srv (ro_iso4217 ?rt) (payments ctx2) sample_gateway_body"
  have "GatewayPaymentDto_ok ?srv (ro_iso4217 ?rt) sample_gateway_body"
    by (simp add: GatewayPaymentDto_ok_def only_props_def sample_gateway_body_def optional_def sample_route_def
        sample_gw_def sample_service_env_def)
  then have h: "?handle w = (Inr b, w')" using b by (simp add: GatewayPaymentController_createPayment_def)
  have kh: "str_or_opt ((hs1(''x-merchant-id'' \<mapsto> ''m1'')) ''idempotency-key'') x = Some ''k1''" for x
    using hdr(3) by (simp add: str_or_opt_def)
  let ?base = "(set_headers rls rp0)\<lparr>rp_status := 202\<rparr>"
  obtain st1 where "intercept (sample_gw ''u1'' 5) ''POST'' (Some ''k1'') (Some ''m1'') (Some sample_gateway_body) ?base ?handle ((\<lambda>k. None), w)
      = (Inr (?base\<lparr>rp_body := b\<rparr>), (st1, w'))"
    using first_request [where env = "sample_gw ''u1'' 5" and t = 5 and m = "''m1''" and meth = "''POST''" and kh = "Some ''k1''"
      and st = "\<lambda>k. None" and handle = ?handle and w = w and b = b and w' = w' and base = ?base and body = "Some sample_gateway_body"]
      sample_gw_calm [of 5 "''u1''"] h
    by (auto simp: mutating_def sample_key redis_get_def)
  then show ?thesis using r kh
    by (simp add: gateway_payment_def log ctx au flip: rp0_def ctx2_def)
qed

theorem payment_call_guarded_witness:
  "\<exists>rp z rd r x. gateway_payment (sample_gw ''u1'' 5) sample_route sample_auth (\<lambda>ctx b n. (Inr (JStr ''ok''), Suc n)) sample_headers
      (Some sample_gateway_body) ((\<lambda>k. None), (\<lambda>k. None), 0) = (rp, (z, rd, Suc 0)) \<and>
    snd (idem_post (sample_gw ''u1'' 5) I_check (check_payload ''m1'' ''k1'' sample_gateway_body) (\<lambda>k. None)) (getRedisKey ''m1'' ''k1'')
      = Some (r, x) \<and> ir_status r = IN_PROGRESS \<and> ir_ownerId r = ''u1''"
proof -
  let ?payments = "\<lambda>ctx b n. (Inr (JStr ''ok''), Suc n)"
  obtain rp z rd where run: "gateway_payment (sample_gw ''u1'' 5) sample_route sample_auth ?payments sample_headers (Some sample_gateway_body)
    ((\<lambda>k. None), (\<lambda>k. None), 0) = (rp, (z, rd, Suc 0))"
    using sample_run [of ?payments 0 "JStr ''ok''" "Suc 0"] by auto
  have m: "sample_auth ctx k = Inr mc \<Longrightarrow> mc_merchantId mc = ''m1''" for ctx k mc
    by (auto simp: sample_auth_def split: if_splits)
  have k: "''k1'' = idempotency_key (str_or_opt (sample_headers ''idempotency-key'') (sample_headers ''Idempotency-Key''))"
    by (simp add: sample_headers_def str_or_opt_def sample_key)
  have "json_or_empty (Some sample_gateway_body) = sample_gateway_body" "ie_uuid (ge_idem (sample_gw ''u1'' 5) I_check) = ''u1''"
    by (simp_all add: json_or_empty_def sample_gateway_body_def sample_gw_def sample_idem_env_def)
  with payment_call_guarded [OF sample_payments_route sample_proper_faults run _ k] m run show ?thesis
    by fastforce
qed

text \<open>The payment service, with order and fraud services that accept.\<close>

definition sample_payment_env :: payment_env where
  "sample_payment_env = \<lparr>pe_srv = sample_service_env, pe_uuid1 = ''x'', pe_uuid2 = ''y'', pe_create = sample_env, pe_faults = no_faults,
     pe_orders = (\<lambda>ctx rq. Inr sample_order_answer), pe_fraud = (\<lambda>ctx rq. Inr sample_fraud_answer)\<rparr>"

lemma forward_payment_sent:
  "forward_payment env c srv None ctx body w =
    (let ((status, d), w') = srv (payment_request env c ctx body) w
     in (if 200 \<le> status \<and> status < 300 then Inr d
         else Inl (translate_failure (se_js env) (hc_serviceName c) (payment_request env c ctx body) (AxiosResponse status d)), w'))"
  by (cases "srv (payment_request env c ctx body) w")
     (auto simp: forward_payment_def HttpClient_post_def HttpClient_request_def no_config_def retry_post serve_def Let_def
        payment_request_def split: prod.split)

lemma sample_payment_server:
  assumes "received (hr_headers rq) ''x-merchant-id'' = Some ''m1''" "request_body rq = payment_service_body sample_gateway_body"
  shows "\<exists>ps db'. payment_server sample_payment_env rq empty_db = ((202, ps), db') \<and> db' \<noteq> empty_db"
proof -
  let ?env = sample_payment_env
  obtain cs hs out where log: "LoggingMiddleware_use (pe_uuid1 ?env) (pe_uuid2 ?env) None None (received (hr_headers rq)) = (cs, hs, out)"
    by (rule prod_cases3)
  have mh: "hs ''x-merchant-id'' = Some ''m1''" using logging_headers [OF log] assms(1) by simp
  have body: "payment_service_body sample_gateway_body = JObj [(''amount'', JNum (Fin 100)), (''currency'', JStr ''USD''), (''reference'', JStr ''r1'')]"
    by (simp add: payment_service_body_def sample_gateway_body_def json_prop_def jor_def)
  have dto: "CreatePaymentRequestDto_ok (request_body rq)" unfolding assms(2) body
    using sample_json_body_ok by (simp add: sample_json_body_def)
  have amount: "fits_int (cp_amount (as_create_payment (request_body rq)))" unfolding assms(2) body by (simp add: as_create_payment_def)
  have "\<exists>q calls db'. createPayment sample_env no_faults (\<lambda>rq. Inr sample_order_answer) (\<lambda>rq. Inr sample_fraud_answer) ctx
      (as_create_payment (request_body rq)) ''m1'' empty_db = (Inr q, calls, db') \<and> db_payments db' = [q]" for ctx
    using amount
    by (simp add: createPayment_def check_duplicate_def PaymentRepository_findByReference_def createPayment_rest_def order_stage_sample
        fraud_stage_sample Let_def no_faults_def persist_stage_def PaymentRepository_create_def OutboxRepository_save_def empty_db_def)
  then obtain q calls db' where c: "createPayment sample_env no_faults (\<lambda>rq. Inr sample_order_answer) (\<lambda>rq. Inr sample_fraud_answer)
      (request_context.truncate cs) (as_create_payment (request_body rq)) ''m1'' empty_db = (Inr q, calls, db')" "db_payments db' = [q]" by blast
  have "db' \<noteq> empty_db" using c(2) by (auto simp: empty_db_def)
  moreover have "\<exists>ps. payment_server ?env rq empty_db = ((202, ps), db')"
    using log mh dto c(1) by (simp add: payment_server_def sample_payment_env_def PaymentController_createPayment_def truthy_header_def respond_Inr)
  ultimately show ?thesis by blast
qed

theorem stored_payment_is_authenticated_witness:
  "\<exists>rp z rd db' q. gateway_payment (sample_gw ''u1'' 5) sample_route sample_auth
      (forward_payment sample_service_env sample_client (payment_server sample_payment_env) None) sample_headers (Some sample_gateway_body)
      ((\<lambda>k. None), (\<lambda>k. None), empty_db) = (rp, (z, rd, db')) \<and> db_payments db' = [q] \<and> p_merchantId q = ''m1'' \<and> p_reference q = ''r1''"
proof -
  let ?ctx = "(request_ctx sample_route sample_headers)\<lparr>rc_merchantId := Some ''m1''\<rparr>"
  let ?rq = "payment_request sample_service_env sample_client ?ctx (payment_service_body sample_gateway_body)"
  have keep: "keeps_merchant sample_service_env" by (simp add: keeps_merchant_def sample_service_env_def)
  have srv: "ge_srv (sample_gw ''u1'' 5) = sample_service_env" by (simp add: sample_gw_def)
  obtain ps db' where p: "payment_server sample_payment_env ?rq empty_db = ((202, ps), db')" "db' \<noteq> empty_db"
    using sample_payment_server [of ?rq] payment_request_merchant [OF keep] payment_request_body by auto
  then have "forward_payment sample_service_env sample_client (payment_server sample_payment_env) None ?ctx
      (payment_service_body sample_gateway_body) empty_db = (Inr ps, db')" by (simp add: forward_payment_sent)
  from sample_run [where payments = "forward_payment sample_service_env sample_client (payment_server sample_payment_env) None", OF this]
  obtain rp z rd where run: "gateway_payment (sample_gw ''u1'' 5) sample_route sample_auth
      (forward_payment sample_service_env sample_client (payment_server sample_payment_env) None) sample_headers (Some sample_gateway_body)
      ((\<lambda>k. None), (\<lambda>k. None), empty_db) = (rp, (z, rd, db'))" by blast
  have "sample_auth ctx k = Inr mc \<Longrightarrow> mc_merchantId mc = ''m1''" for ctx k mc
    by (auto simp: sample_auth_def split: if_splits)
  with stored_payment_is_authenticated [OF sample_payments_route sample_proper_faults keep [folded srv] run [folded srv] p(2)]
  obtain q i where "db_payments db' = db_payments empty_db @ [q]" "p_merchantId q = ''m1''"
    "jget sample_gateway_body ''orderId'' = Some (JStr i)" "p_reference q = js_trim i" by fastforce
  moreover have "js_trim ''r1'' = ''r1''" by code_simp
  ultimately show ?thesis using run by (intro exI [of _ rp] exI [of _ z] exI [of _ rd] exI [of _ db'] exI [of _ q])
      (simp add: sample_gateway_body_def empty_db_def)
qed

theorem gateway_refusals_witness:
  "rp_status (fst (gateway_payment (sample_gw ''u1'' 5) sample_route sample_auth (\<lambda>ctx b n. (Inr JNull, Suc n)) (\<lambda>k. None) None
      ((\<lambda>k. None), (\<lambda>k. None), 0 :: nat))) = 401"
proof -
  obtain rp z rd w where run: "gateway_payment (sample_gw ''u1'' 5) sample_route sample_auth (\<lambda>ctx b n. (Inr JNull, Suc n)) (\<lambda>k. None) None
      ((\<lambda>k. None), (\<lambda>k. None), 0 :: nat) = (rp, (z, rd, w))" by (metis prod.collapse)
  have "key_verdict sample_route sample_auth (\<lambda>k. None) = Inl MISSING_KEY" by (simp add: key_verdict_def str_or_opt_def)
  with gateway_refusals [OF sample_payments_route run] run show ?thesis by (simp add: MISSING_KEY_def)
qed

text \<open>
  C28. An answer lost on the way back: the payment service has stored the payment, but the gateway's call
  fails, so the client is told of a failure and never gets the payment's id. Every later call for the
  same order by the same merchant is then refused with 409, and stores nothing more.
\<close>

theorem lost_answer_retry:
  assumes "keeps_merchant env" "df_lookup (pe_faults penv2) = None"
    and "forward_payment env c (payment_server penv) (Some (flt, True)) (ctx\<lparr>rc_merchantId := Some m\<rparr>) body db = (ans, db1)" "db1 \<noteq> db"
  shows "\<exists>e e2. ans = Inl e \<and>
    forward_payment env c2 (payment_server penv2) None (ctx2\<lparr>rc_merchantId := Some m\<rparr>) body db1 = (Inl e2, db1) \<and> exn_status e2 = 409"
proof -
  let ?rq = "payment_request env c (ctx\<lparr>rc_merchantId := Some m\<rparr>) body"
  let ?rq2 = "payment_request env c2 (ctx2\<lparr>rc_merchantId := Some m\<rparr>) body"
  have lost: "\<exists>e. ans = Inl e" "db1 = snd (payment_server penv ?rq db)"
    using assms(3) by (auto simp: forward_payment_def HttpClient_post_def HttpClient_request_def no_config_def retry_post Let_def)
  obtain a where srv: "payment_server penv ?rq db = (a, db1)" using lost(2) by (metis prod.collapse)
  obtain m1 q ev where st: "received (hr_headers ?rq) ''x-merchant-id'' = Some m1" "m1 \<noteq> []" "CreatePaymentRequestDto_ok body"
    "db_payments db1 = db_payments db @ [q]" "p_merchantId q = m1" "p_reference q = js_trim (cp_reference (as_create_payment body))"
    using payment_server_stores [OF srv assms(4)] unfolding payment_request_body by blast
  then have "m1 = m" using payment_request_merchant [OF assms(1), of c m ctx body] by (simp split: if_splits)
  with st have q: "m \<noteq> []" "CreatePaymentRequestDto_ok body" "q \<in> set (db_payments db1)" "p_merchantId q = m"
    "p_reference q = js_trim (cp_reference (as_create_payment body))" by simp_all
  have mh: "received (hr_headers ?rq2) ''x-merchant-id'' = Some m" using payment_request_merchant [OF assms(1)] q(1) by simp
  have dup: "payment_server penv2 ?rq2 db1 = (respond (pe_srv penv2) (hr_url ?rq2) 202
      (Inl (DuplicatePaymentReferenceException m (js_trim (cp_reference (as_create_payment body))))), db1)"
    using payment_server_duplicate [OF mh q(1) assms(2) _ q(3,4)] q(2,5) by (simp add: payment_request_body)
  obtain b where b: "respond (pe_srv penv2) (hr_url ?rq2) 202
      (Inl (DuplicatePaymentReferenceException m (js_trim (cp_reference (as_create_payment body))))) = (409, b)"
    using respond_Inl [of "pe_srv penv2" "hr_url ?rq2" 202 "DuplicatePaymentReferenceException m (js_trim (cp_reference (as_create_payment body)))"]
    by (metis exn_status_simps(2) prod.collapse)
  show ?thesis using lost(1) by (simp add: forward_payment_sent dup b translated_response)
qed

theorem lost_answer_retry_witness:
  "\<exists>db1 e2. forward_payment sample_service_env sample_client (payment_server sample_payment_env) None
      (sample_ctx\<lparr>rc_merchantId := Some ''m1''\<rparr>) (payment_service_body sample_gateway_body) db1 = (Inl e2, db1) \<and> exn_status e2 = 409"
proof -
  let ?rq = "payment_request sample_service_env sample_client (sample_ctx\<lparr>rc_merchantId := Some ''m1''\<rparr>) (payment_service_body sample_gateway_body)"
  have keep: "keeps_merchant sample_service_env" by (simp add: keeps_merchant_def sample_service_env_def)
  obtain ps db1 where p: "payment_server sample_payment_env ?rq empty_db = ((202, ps), db1)" "db1 \<noteq> empty_db"
    using sample_payment_server [of ?rq] payment_request_merchant [OF keep] payment_request_body by auto
  obtain ans where f: "forward_payment sample_service_env sample_client (payment_server sample_payment_env) (Some (OtherError ''timeout'', True))
      (sample_ctx\<lparr>rc_merchantId := Some ''m1''\<rparr>) (payment_service_body sample_gateway_body) empty_db = (ans, db1)"
    using p(1) by (simp add: forward_payment_def)
  have "df_lookup (pe_faults sample_payment_env) = None" by (simp add: sample_payment_env_def no_faults_def)
  from lost_answer_retry [where ?c2.0 = sample_client and ?ctx2.0 = sample_ctx, OF keep this f p(2)] show ?thesis by blast
qed

end
