(* ===== verification/Config.thy ===== *)
theory Config
  imports Fraud Http Relay RateLimit Idempotency "HOL-Library.Monad_Syntax"
begin

text \<open>
  The configuration of the services (\<open>packages/config\<close>, the schema of the gateway, the settings of
  the fraud and idempotency services): the schemas that check the environment at start-up, the
  loaders that read it again into the settings the services use, and what the services build from
  the settings. An environment maps names to strings. A schema field is a function of the value of
  its variable that gives the parsed value, or \<open>None\<close> for an issue. \<open>is_url\<close> stands for the URL check of the
  schema library. Numbers are exact: the model agrees with JavaScript's up to \<open>2 ^ 53\<close>. The lines
  printed for each issue are left out.
\<close>

type_synonym process_env = "string \<Rightarrow> string option"

section \<open>Fields of a schema\<close>

definition z_optional :: "string option \<Rightarrow> string option option" where
  "z_optional v = Some v"

definition z_default :: "string \<Rightarrow> string option \<Rightarrow> string option" where
  "z_default d v = Some (case v of None \<Rightarrow> d | Some s \<Rightarrow> s)"

definition z_min1 :: "string option \<Rightarrow> string option" where
  "z_min1 v = (case v of None \<Rightarrow> None | Some s \<Rightarrow> if 1 \<le> length s then Some s else None)"

definition z_url :: "(string \<Rightarrow> bool) \<Rightarrow> string option \<Rightarrow> string option" where
  "z_url is_url v = (case v of None \<Rightarrow> None | Some s \<Rightarrow> if is_url s then Some s else None)"

definition z_url_default :: "(string \<Rightarrow> bool) \<Rightarrow> string \<Rightarrow> string option \<Rightarrow> string option" where
  "z_url_default is_url d v = z_url is_url (Some (case v of None \<Rightarrow> d | Some s \<Rightarrow> s))"

definition z_enum :: "string list \<Rightarrow> string \<Rightarrow> string option \<Rightarrow> string option" where
  "z_enum vs d v = (let s = (case v of None \<Rightarrow> d | Some s \<Rightarrow> s) in if s \<in> set vs then Some s else None)"

text \<open>\<open>val ? parseInt(String(val), 10) : undefined\<close>.\<close>

definition pre_int :: "string option \<Rightarrow> jsnum option" where
  "pre_int v = (case v of None \<Rightarrow> None | Some s \<Rightarrow> if s = [] then None else Some (js_parseInt s))"

text \<open>\<open>z.number().int()\<close> with \<open>positive()\<close> (\<open>low = 1\<close>) or \<open>nonnegative()\<close> (\<open>low = 0\<close>).\<close>

definition z_int :: "int \<Rightarrow> jsnum \<Rightarrow> int option" where
  "z_int low x = (case x of Fin q \<Rightarrow> if is_integer x \<and> of_int low \<le> q then Some \<lfloor>q\<rfloor> else None | _ \<Rightarrow> None)"

definition z_int_default :: "int \<Rightarrow> int \<Rightarrow> string option \<Rightarrow> int option" where
  "z_int_default low d v = z_int low (case pre_int v of None \<Rightarrow> Fin (of_int d) | Some x \<Rightarrow> x)"

definition z_int_optional :: "int \<Rightarrow> string option \<Rightarrow> int option option" where
  "z_int_optional low v = (case pre_int v of None \<Rightarrow> Some None | Some x \<Rightarrow> map_option Some (z_int low x))"

text \<open>\<open>z.number()\<close> alone refuses only \<open>NaN\<close>; the texts \<open>parseInt\<close> reads are integers.\<close>

definition z_number :: "jsnum \<Rightarrow> int option" where
  "z_number x = (case x of Fin q \<Rightarrow> Some \<lfloor>q\<rfloor> | _ \<Rightarrow> None)"

definition is_true :: "string option \<Rightarrow> bool" where
  "is_true v \<longleftrightarrow> v = Some ''true''"

section \<open>The schemas\<close>

record database_env =
  DATABASE_URL :: string
  DATABASE_HOST :: "string option"
  DATABASE_PORT :: "int option"
  DATABASE_USER :: "string option"
  DATABASE_PASSWORD :: "string option"
  DATABASE_NAME :: "string option"
  DATABASE_SCHEMA :: "string option"
  DATABASE_SSL :: bool
  DATABASE_POOL_SIZE :: int
  DATABASE_CONNECT_TIMEOUT :: int
  DATABASE_IDLE_TIMEOUT :: int

definition databaseSchema :: "(string \<Rightarrow> bool) \<Rightarrow> process_env \<Rightarrow> database_env option" where
  "databaseSchema is_url env = do {
     url \<leftarrow> z_url is_url (env ''DATABASE_URL'');
     host \<leftarrow> z_optional (env ''DATABASE_HOST'');
     port \<leftarrow> z_int_optional 1 (env ''DATABASE_PORT'');
     user \<leftarrow> z_optional (env ''DATABASE_USER'');
     password \<leftarrow> z_optional (env ''DATABASE_PASSWORD'');
     name \<leftarrow> z_optional (env ''DATABASE_NAME'');
     schema \<leftarrow> z_optional (env ''DATABASE_SCHEMA'');
     poolSize \<leftarrow> z_int_default 1 10 (env ''DATABASE_POOL_SIZE'');
     connectTimeout \<leftarrow> z_int_default 1 5000 (env ''DATABASE_CONNECT_TIMEOUT'');
     idleTimeout \<leftarrow> z_int_default 1 30000 (env ''DATABASE_IDLE_TIMEOUT'');
     Some \<lparr>DATABASE_URL = url, DATABASE_HOST = host, DATABASE_PORT = port, DATABASE_USER = user,
           DATABASE_PASSWORD = password, DATABASE_NAME = name, DATABASE_SCHEMA = schema,
           DATABASE_SSL = is_true (env ''DATABASE_SSL''), DATABASE_POOL_SIZE = poolSize,
           DATABASE_CONNECT_TIMEOUT = connectTimeout, DATABASE_IDLE_TIMEOUT = idleTimeout\<rparr>
   }"

record redis_env =
  REDIS_URL :: string
  REDIS_PASSWORD :: "string option"
  REDIS_TLS :: bool

definition redisSchema :: "(string \<Rightarrow> bool) \<Rightarrow> process_env \<Rightarrow> redis_env option" where
  "redisSchema is_url env = do {
     url \<leftarrow> z_url is_url (env ''REDIS_URL'');
     password \<leftarrow> z_optional (env ''REDIS_PASSWORD'');
     Some \<lparr>REDIS_URL = url, REDIS_PASSWORD = password, REDIS_TLS = is_true (env ''REDIS_TLS'')\<rparr>
   }"

record kafka_env =
  KAFKA_BROKERS :: string
  KAFKA_CLIENT_ID :: string
  KAFKA_SSL :: bool
  KAFKA_SASL :: bool
  KAFKA_CONSUMER_GROUP_ID :: string
  KAFKA_CONSUMER_RETRY_LIMIT :: int

definition kafkaSchema :: "process_env \<Rightarrow> kafka_env option" where
  "kafkaSchema env = do {
     brokers \<leftarrow> z_min1 (env ''KAFKA_BROKERS'');
     clientId \<leftarrow> z_default ''surgepay'' (env ''KAFKA_CLIENT_ID'');
     groupId \<leftarrow> z_default ''surgepay-consumer-group'' (env ''KAFKA_CONSUMER_GROUP_ID'');
     retryLimit \<leftarrow> z_number (case env ''KAFKA_CONSUMER_RETRY_LIMIT'' of None \<Rightarrow> Fin 3 | Some s \<Rightarrow> js_parseInt s);
     Some \<lparr>KAFKA_BROKERS = brokers, KAFKA_CLIENT_ID = clientId, KAFKA_SSL = is_true (env ''KAFKA_SSL''),
           KAFKA_SASL = is_true (env ''KAFKA_SASL''), KAFKA_CONSUMER_GROUP_ID = groupId,
           KAFKA_CONSUMER_RETRY_LIMIT = retryLimit\<rparr>
   }"

record http_env =
  PORT :: int
  HOST :: string
  API_PREFIX :: string
  HTTP_KEEP_ALIVE :: "bool option"
  HTTP_KEEP_ALIVE_MAX_SOCKETS :: "int option"

definition httpSchema :: "process_env \<Rightarrow> http_env option" where
  "httpSchema env = do {
     port \<leftarrow> z_int_default 1 3000 (env ''PORT'');
     host \<leftarrow> z_default ''localhost'' (env ''HOST'');
     prefix \<leftarrow> z_default ''api/v1'' (env ''API_PREFIX'');
     sockets \<leftarrow> z_int_optional 1 (env ''HTTP_KEEP_ALIVE_MAX_SOCKETS'');
     Some \<lparr>PORT = port, HOST = host, API_PREFIX = prefix,
           HTTP_KEEP_ALIVE = map_option (\<lambda>s. s = ''true'') (env ''HTTP_KEEP_ALIVE''),
           HTTP_KEEP_ALIVE_MAX_SOCKETS = sockets\<rparr>
   }"
definition LOG_LEVELS :: "string list" where
  "LOG_LEVELS = [''trace'', ''debug'', ''info'', ''warn'', ''error'', ''fatal'']"

record logging_env =
  LOG_LEVEL :: string
  LOG_PRETTY :: bool
  LOG_SERVICE_NAME :: string

definition loggingSchema :: "process_env \<Rightarrow> logging_env option" where
  "loggingSchema env = do {
     level \<leftarrow> z_enum LOG_LEVELS ''info'' (env ''LOG_LEVEL'');
     serviceName \<leftarrow> z_min1 (env ''LOG_SERVICE_NAME'');
     Some \<lparr>LOG_LEVEL = level, LOG_PRETTY = is_true (env ''LOG_PRETTY''), LOG_SERVICE_NAME = serviceName\<rparr>
   }"

record telemetry_env =
  OTEL_EXPORTER_OTLP_ENDPOINT :: string
  OTEL_SERVICE_NAME :: "string option"

definition telemetrySchema :: "(string \<Rightarrow> bool) \<Rightarrow> process_env \<Rightarrow> telemetry_env option" where
  "telemetrySchema is_url env = do {
     endpoint \<leftarrow> z_url_default is_url ''http://localhost:4318'' (env ''OTEL_EXPORTER_OTLP_ENDPOINT'');
     serviceName \<leftarrow> z_optional (env ''OTEL_SERVICE_NAME'');
     Some \<lparr>OTEL_EXPORTER_OTLP_ENDPOINT = endpoint, OTEL_SERVICE_NAME = serviceName\<rparr>
   }"

record security_env =
  JWT_SECRET :: string
  API_KEY_HEADER :: string
  CORS_ENABLED :: bool

definition securitySchema :: "process_env \<Rightarrow> security_env option" where
  "securitySchema env = do {
     secret \<leftarrow> z_min1 (env ''JWT_SECRET'');
     header \<leftarrow> z_default ''x-api-key'' (env ''API_KEY_HEADER'');
     Some \<lparr>JWT_SECRET = secret, API_KEY_HEADER = header, CORS_ENABLED = (env ''CORS_ENABLED'' \<noteq> Some ''false'')\<rparr>
   }"

record services_env =
  GATEWAY_URL :: string
  MERCHANT_SERVICE_URL :: string
  PAYMENT_SERVICE_URL :: string
  ORDER_SERVICE_URL :: string
  LEDGER_SERVICE_URL :: string
  BALANCE_SERVICE_URL :: string
  NOTIFICATION_SERVICE_URL :: string
  INTERNAL_REQUEST_TIMEOUT :: int
  INTERNAL_REQUEST_RETRIES :: int
  INTERNAL_REQUEST_RETRY_DELAY :: int

definition servicesSchema :: "(string \<Rightarrow> bool) \<Rightarrow> process_env \<Rightarrow> services_env option" where
  "servicesSchema is_url env = do {
     gateway \<leftarrow> z_url_default is_url ''http://localhost:3000'' (env ''GATEWAY_URL'');
     merchant \<leftarrow> z_url_default is_url ''http://localhost:3001'' (env ''MERCHANT_SERVICE_URL'');
     payment \<leftarrow> z_url_default is_url ''http://localhost:3003'' (env ''PAYMENT_SERVICE_URL'');
     order \<leftarrow> z_url_default is_url ''http://localhost:3004'' (env ''ORDER_SERVICE_URL'');
     ledger \<leftarrow> z_url_default is_url ''http://localhost:3005'' (env ''LEDGER_SERVICE_URL'');
     balance \<leftarrow> z_url_default is_url ''http://localhost:3006'' (env ''BALANCE_SERVICE_URL'');
     notification \<leftarrow> z_url_default is_url ''http://localhost:3007'' (env ''NOTIFICATION_SERVICE_URL'');
     timeout \<leftarrow> z_int_default 1 2000 (env ''INTERNAL_REQUEST_TIMEOUT'');
     retries \<leftarrow> z_int_default 0 3 (env ''INTERNAL_REQUEST_RETRIES'');
     retryDelay \<leftarrow> z_int_default 0 100 (env ''INTERNAL_REQUEST_RETRY_DELAY'');
     Some \<lparr>GATEWAY_URL = gateway, MERCHANT_SERVICE_URL = merchant, PAYMENT_SERVICE_URL = payment,
           ORDER_SERVICE_URL = order, LEDGER_SERVICE_URL = ledger, BALANCE_SERVICE_URL = balance,
           NOTIFICATION_SERVICE_URL = notification, INTERNAL_REQUEST_TIMEOUT = timeout,
           INTERNAL_REQUEST_RETRIES = retries, INTERNAL_REQUEST_RETRY_DELAY = retryDelay\<rparr>
   }"

record outbox_env =
  OUTBOX_POLLING_INTERVAL :: int
  OUTBOX_BATCH_SIZE :: int
  OUTBOX_RETRY_LIMIT :: int
  OUTBOX_PUBLISH_TIMEOUT :: int
  OUTBOX_RETENTION_DAYS :: int
  OUTBOX_STALE_TIMEOUT :: int
  OUTBOX_MAX_IN_FLIGHT_MESSAGES :: int
  OUTBOX_FLUSH_INTERVAL :: int

definition outboxSchema :: "process_env \<Rightarrow> outbox_env option" where
  "outboxSchema env = do {
     pollingInterval \<leftarrow> z_int_default 1 500 (env ''OUTBOX_POLLING_INTERVAL'');
     batchSize \<leftarrow> z_int_default 1 100 (env ''OUTBOX_BATCH_SIZE'');
     retryLimit \<leftarrow> z_int_default 1 3 (env ''OUTBOX_RETRY_LIMIT'');
     publishTimeout \<leftarrow> z_int_default 1 5000 (env ''OUTBOX_PUBLISH_TIMEOUT'');
     retentionDays \<leftarrow> z_int_default 1 7 (env ''OUTBOX_RETENTION_DAYS'');
     staleTimeout \<leftarrow> z_int_default 1 300000 (env ''OUTBOX_STALE_TIMEOUT'');
     maxInFlight \<leftarrow> z_int_default 1 1000 (env ''OUTBOX_MAX_IN_FLIGHT_MESSAGES'');
     flushInterval \<leftarrow> z_int_default 1 100 (env ''OUTBOX_FLUSH_INTERVAL'');
     Some \<lparr>OUTBOX_POLLING_INTERVAL = pollingInterval, OUTBOX_BATCH_SIZE = batchSize, OUTBOX_RETRY_LIMIT = retryLimit,
           OUTBOX_PUBLISH_TIMEOUT = publishTimeout, OUTBOX_RETENTION_DAYS = retentionDays,
           OUTBOX_STALE_TIMEOUT = staleTimeout, OUTBOX_MAX_IN_FLIGHT_MESSAGES = maxInFlight,
           OUTBOX_FLUSH_INTERVAL = flushInterval\<rparr>
   }"

section \<open>The environment file\<close>

text \<open>
  \<open>getEnvFilePath\<close> looks in the working directory and up to three directories above it. Paths are
  Node's: \<open>resolve\<close>, \<open>dirname\<close> and whether a file exists are arguments.
\<close>

fun search_up :: "(string \<Rightarrow> string \<Rightarrow> string) \<Rightarrow> (string \<Rightarrow> string) \<Rightarrow> (string \<Rightarrow> bool) \<Rightarrow> string \<Rightarrow> nat \<Rightarrow> string \<Rightarrow> string" where
  "search_up resolve dirname file_exists filename 0 dir = filename"
| "search_up resolve dirname file_exists filename (Suc n) dir =
     (let currentPath = resolve (dirname dir) filename
      in if file_exists currentPath then currentPath
         else search_up resolve dirname file_exists filename n (dirname dir))"

definition getEnvFilePath ::
  "(string \<Rightarrow> string \<Rightarrow> string) \<Rightarrow> (string \<Rightarrow> string) \<Rightarrow> (string \<Rightarrow> bool) \<Rightarrow> process_env \<Rightarrow> string \<Rightarrow> string" where
  "getEnvFilePath resolve dirname file_exists env cwd =
     (let filename = ''.env.'' @ str_or (env ''NODE_ENV'') ''development'';
          currentPath = resolve cwd filename
      in if file_exists currentPath then currentPath
         else search_up resolve dirname file_exists filename 3 cwd)"

text \<open>The nearest directory wins; without any file the bare name is returned.\<close>

lemma search_up_nearest:
  "search_up resolve dirname file_exists filename n dir =
     (case find (\<lambda>k. file_exists (resolve ((dirname ^^ k) dir) filename)) [1..<Suc n] of
        Some k \<Rightarrow> resolve ((dirname ^^ k) dir) filename | None \<Rightarrow> filename)"
proof (induction n arbitrary: dir)
  case 0
  then show ?case by simp
next
  case (Suc n)
  have shift: "find P [Suc 1..<Suc (Suc n)] = map_option Suc (find (\<lambda>k. P (Suc k)) [1..<Suc n])" for P
  proof -
    have "find P (map Suc xs) = map_option Suc (find (\<lambda>k. P (Suc k)) xs)" for xs by (induction xs) auto
    then show ?thesis by (metis map_Suc_upt)
  qed
  have up: "[1..<Suc (Suc n)] = 1 # [Suc 1..<Suc (Suc n)]" by (simp add: upt_conv_Cons)
  show ?case
    unfolding up find.simps search_up.simps Let_def shift
    by (simp add: Suc.IH [of "dirname dir"] funpow_swap1 split: option.split)
qed

section \<open>Validation of the environment\<close>

record environment =
  NODE_ENV :: string
  e_database :: database_env
  e_redis :: redis_env
  e_kafka :: kafka_env
  e_http :: http_env
  e_logging :: logging_env
  e_telemetry :: telemetry_env
  e_security :: security_env
  e_services :: services_env
  e_outbox :: outbox_env

definition environmentSchema :: "(string \<Rightarrow> bool) \<Rightarrow> process_env \<Rightarrow> environment option" where
  "environmentSchema is_url env = do {
     node_env \<leftarrow> z_enum [''development'', ''production'', ''test''] ''development'' (env ''NODE_ENV'');
     d \<leftarrow> databaseSchema is_url env;
     r \<leftarrow> redisSchema is_url env;
     k \<leftarrow> kafkaSchema env;
     h \<leftarrow> httpSchema env;
     l \<leftarrow> loggingSchema env;
     t \<leftarrow> telemetrySchema is_url env;
     s \<leftarrow> securitySchema env;
     v \<leftarrow> servicesSchema is_url env;
     ob \<leftarrow> outboxSchema env;
     Some \<lparr>NODE_ENV = node_env, e_database = d, e_redis = r, e_kafka = k, e_http = h, e_logging = l,
           e_telemetry = t, e_security = s, e_services = v, e_outbox = ob\<rparr>
   }"

definition validate :: "(string \<Rightarrow> bool) \<Rightarrow> process_env \<Rightarrow> exn + environment" where
  "validate is_url env =
     (case environmentSchema is_url env of
        None \<Rightarrow> Inl (JsError ''Error'' [Lit ''Environment validation failed''])
      | Some v \<Rightarrow> Inr v)"

record gateway_env =
  gw_MERCHANT_SERVICE_URL :: string
  gw_MERCHANT_SERVICE_TIMEOUT :: int
  gw_IDEMPOTENCY_SERVICE_URL :: string
  gw_IDEMPOTENCY_SERVICE_TIMEOUT :: int
  gw_PAYMENT_SERVICE_URL :: string
  gw_PAYMENT_SERVICE_TIMEOUT :: int
  gw_RATE_LIMIT_WINDOW_SECONDS :: int
  gw_RATE_LIMIT_DEFAULT_LIMIT :: int

definition gatewayConfigSchema :: "(string \<Rightarrow> bool) \<Rightarrow> process_env \<Rightarrow> gateway_env option" where
  "gatewayConfigSchema is_url env = do {
     merchant \<leftarrow> z_url is_url (env ''MERCHANT_SERVICE_URL'');
     merchantTimeout \<leftarrow> z_int_default 1 5000 (env ''MERCHANT_SERVICE_TIMEOUT'');
     idempotency \<leftarrow> z_url is_url (env ''IDEMPOTENCY_SERVICE_URL'');
     idempotencyTimeout \<leftarrow> z_int_default 1 5000 (env ''IDEMPOTENCY_SERVICE_TIMEOUT'');
     payment \<leftarrow> z_url is_url (env ''PAYMENT_SERVICE_URL'');
     paymentTimeout \<leftarrow> z_int_default 1 5000 (env ''PAYMENT_SERVICE_TIMEOUT'');
     window \<leftarrow> z_int_default 1 60 (env ''RATE_LIMIT_WINDOW_SECONDS'');
     limit \<leftarrow> z_int_default 1 100 (env ''RATE_LIMIT_DEFAULT_LIMIT'');
     Some \<lparr>gw_MERCHANT_SERVICE_URL = merchant, gw_MERCHANT_SERVICE_TIMEOUT = merchantTimeout,
           gw_IDEMPOTENCY_SERVICE_URL = idempotency, gw_IDEMPOTENCY_SERVICE_TIMEOUT = idempotencyTimeout,
           gw_PAYMENT_SERVICE_URL = payment, gw_PAYMENT_SERVICE_TIMEOUT = paymentTimeout,
           gw_RATE_LIMIT_WINDOW_SECONDS = window, gw_RATE_LIMIT_DEFAULT_LIMIT = limit\<rparr>
   }"

definition getGatewayConfig :: "(string \<Rightarrow> bool) \<Rightarrow> process_env \<Rightarrow> exn + gateway_env" where
  "getGatewayConfig is_url env =
     (case gatewayConfigSchema is_url env of
        None \<Rightarrow> Inl (JsError ''Error'' [Lit ''Gateway environment validation failed''])
      | Some v \<Rightarrow> Inr v)"

section \<open>The loaders\<close>

text \<open>\<open>process.env.X ? parseInt(process.env.X, 10) : d\<close>.\<close>

definition load_int :: "string option \<Rightarrow> jsnum \<Rightarrow> jsnum" where
  "load_int v d = (case pre_int v of None \<Rightarrow> d | Some x \<Rightarrow> x)"

record database_config =
  db_url :: "string option"
  db_host :: "string option"
  db_port :: "jsnum option"
  db_username :: "string option"
  db_password :: "string option"
  db_database :: "string option"
  db_schema :: "string option"
  db_ssl :: bool
  db_poolSize :: jsnum
  db_connectTimeout :: jsnum
  db_idleTimeout :: jsnum

definition databaseConfig :: "process_env \<Rightarrow> database_config" where
  "databaseConfig env =
     \<lparr>db_url = env ''DATABASE_URL'', db_host = env ''DATABASE_HOST'', db_port = pre_int (env ''DATABASE_PORT''),
      db_username = env ''DATABASE_USER'', db_password = env ''DATABASE_PASSWORD'',
      db_database = env ''DATABASE_NAME'', db_schema = env ''DATABASE_SCHEMA'',
      db_ssl = is_true (env ''DATABASE_SSL''),
      db_poolSize = load_int (env ''DATABASE_POOL_SIZE'') (Fin 10),
      db_connectTimeout = load_int (env ''DATABASE_CONNECT_TIMEOUT'') (Fin 5000),
      db_idleTimeout = load_int (env ''DATABASE_IDLE_TIMEOUT'') (Fin 30000)\<rparr>"

record redis_config =
  rd_url :: "string option"
  rd_password :: "string option"
  rd_tls :: bool

definition redisConfig :: "process_env \<Rightarrow> redis_config" where
  "redisConfig env =
     \<lparr>rd_url = env ''REDIS_URL'', rd_password = env ''REDIS_PASSWORD'', rd_tls = is_true (env ''REDIS_TLS'')\<rparr>"

record kafka_config =
  kf_brokers :: "string list"
  kf_clientId :: string
  kf_ssl :: bool
  kf_sasl :: bool
  kf_consumerGroupId :: string
  kf_consumerRetryLimit :: jsnum

definition kafkaConfig :: "process_env \<Rightarrow> kafka_config" where
  "kafkaConfig env =
     \<lparr>kf_brokers = (if str_or (env ''KAFKA_BROKERS'') [] \<noteq> []
                    then map js_trim (js_split (CHR '','') (str_or (env ''KAFKA_BROKERS'') []))
                    else [''localhost:29092'']),
      kf_clientId = str_or (env ''KAFKA_CLIENT_ID'') ''surgepay'',
      kf_ssl = is_true (env ''KAFKA_SSL''), kf_sasl = is_true (env ''KAFKA_SASL''),
      kf_consumerGroupId = str_or (env ''KAFKA_CONSUMER_GROUP_ID'') ''surgepay-consumer-group'',
      kf_consumerRetryLimit = load_int (env ''KAFKA_CONSUMER_RETRY_LIMIT'') (Fin 3)\<rparr>"

record http_config =
  ht_port :: jsnum
  ht_host :: string
  ht_apiPrefix :: string
  ht_keepAlive :: bool
  ht_maxSockets :: jsnum

definition httpConfig :: "process_env \<Rightarrow> http_config" where
  "httpConfig env =
     \<lparr>ht_port = load_int (env ''PORT'') (Fin 3000),
      ht_host = str_or (env ''HOST'') ''localhost'',
      ht_apiPrefix = str_or (env ''API_PREFIX'') ''api/v1'',
      ht_keepAlive = (is_true (env ''HTTP_KEEP_ALIVE'') \<or> env ''HTTP_KEEP_ALIVE'' = None),
      ht_maxSockets = load_int (env ''HTTP_KEEP_ALIVE_MAX_SOCKETS'') (Fin 100)\<rparr>"

record logging_config =
  lg_level :: string
  lg_pretty :: bool
  lg_serviceName :: string

definition loggingConfig :: "process_env \<Rightarrow> logging_config" where
  "loggingConfig env =
     \<lparr>lg_level = str_or (env ''LOG_LEVEL'') ''info'', lg_pretty = is_true (env ''LOG_PRETTY''),
      lg_serviceName = str_or (env ''LOG_SERVICE_NAME'') ''surgepay-service''\<rparr>"

record telemetry_config =
  tm_endpoint :: string
  tm_serviceName :: string

definition telemetryConfig :: "process_env \<Rightarrow> telemetry_config" where
  "telemetryConfig env =
     \<lparr>tm_endpoint = str_or (env ''OTEL_EXPORTER_OTLP_ENDPOINT'') ''http://localhost:4318'',
      tm_serviceName = str_or (str_or_opt (env ''OTEL_SERVICE_NAME'') (env ''LOG_SERVICE_NAME'')) ''surgepay-service''\<rparr>"

record security_config =
  sy_jwtSecret :: string
  sy_apiKeyHeader :: string
  sy_corsEnabled :: bool

definition securityConfig :: "process_env \<Rightarrow> security_config" where
  "securityConfig env =
     \<lparr>sy_jwtSecret = str_or (env ''JWT_SECRET'') [], sy_apiKeyHeader = str_or (env ''API_KEY_HEADER'') ''x-api-key'',
      sy_corsEnabled = (env ''CORS_ENABLED'' \<noteq> Some ''false'')\<rparr>"

record services_settings = services_config +
  sc_internalRequestTimeout :: jsnum
  sc_internalRequestRetries :: jsnum
  sc_internalRequestRetryDelay :: jsnum

definition servicesConfig :: "process_env \<Rightarrow> services_settings" where
  "servicesConfig env =
     \<lparr>sc_gatewayUrl = str_or (env ''GATEWAY_URL'') ''http://localhost:3000'',
      sc_merchantServiceUrl = str_or (env ''MERCHANT_SERVICE_URL'') ''http://localhost:3001'',
      sc_paymentServiceUrl = str_or (env ''PAYMENT_SERVICE_URL'') ''http://localhost:3003'',
      sc_orderServiceUrl = str_or (env ''ORDER_SERVICE_URL'') ''http://localhost:3004'',
      sc_ledgerServiceUrl = str_or (env ''LEDGER_SERVICE_URL'') ''http://localhost:3005'',
      sc_balanceServiceUrl = str_or (env ''BALANCE_SERVICE_URL'') ''http://localhost:3006'',
      sc_notificationServiceUrl = str_or (env ''NOTIFICATION_SERVICE_URL'') ''http://localhost:3007'',
      sc_fraudServiceUrl = str_or (env ''FRAUD_SERVICE_URL'') ''http://localhost:3008'',
      sc_internalRequestTimeout = load_int (env ''INTERNAL_REQUEST_TIMEOUT'') (Fin 2000),
      sc_internalRequestRetries = load_int (env ''INTERNAL_REQUEST_RETRIES'') (Fin 3),
      sc_internalRequestRetryDelay = load_int (env ''INTERNAL_REQUEST_RETRY_DELAY'') (Fin 100)\<rparr>"

record outbox_config =
  oc_pollingInterval :: jsnum
  oc_batchSize :: jsnum
  oc_retryLimit :: jsnum
  oc_publishTimeout :: jsnum
  oc_retentionDays :: jsnum
  oc_staleTimeoutMs :: jsnum
  oc_maxInFlightMessages :: jsnum
  oc_flushInterval :: jsnum

definition outboxConfig :: "process_env \<Rightarrow> outbox_config" where
  "outboxConfig env =
     \<lparr>oc_pollingInterval = load_int (env ''OUTBOX_POLLING_INTERVAL'') (Fin 500),
      oc_batchSize = load_int (env ''OUTBOX_BATCH_SIZE'') (Fin 100),
      oc_retryLimit = load_int (env ''OUTBOX_RETRY_LIMIT'') (Fin 3),
      oc_publishTimeout = load_int (env ''OUTBOX_PUBLISH_TIMEOUT'') (Fin 5000),
      oc_retentionDays = load_int (env ''OUTBOX_RETENTION_DAYS'') (Fin 7),
      oc_staleTimeoutMs = load_int (env ''OUTBOX_STALE_TIMEOUT'') (Fin 300000),
      oc_maxInFlightMessages = load_int (env ''OUTBOX_MAX_IN_FLIGHT_MESSAGES'') (Fin 1000),
      oc_flushInterval = load_int (env ''OUTBOX_FLUSH_INTERVAL'') (Fin 100)\<rparr>"

record idempotency_config =
  ic_ttlHours :: jsnum
  ic_redisPrefix :: string
  ic_conflictMode :: jsnum

definition idempotencyConfig :: "process_env \<Rightarrow> idempotency_config" where
  "idempotencyConfig env =
     \<lparr>ic_ttlHours = js_parseInt (str_or (env ''IDEMPOTENCY_TTL_HOURS'') ''24''),
      ic_redisPrefix = str_or (env ''IDEMPOTENCY_REDIS_PREFIX'') ''idem'',
      ic_conflictMode = js_parseInt (str_or (env ''IDEMPOTENCY_CONFLICT_MODE'') ''409'')\<rparr>"

text \<open>The clients that \<open>ServiceClient\<close> builds, and the relay's settings. Both take numbers that are integers.\<close>

definition jsnum_nat :: "jsnum \<Rightarrow> nat" where
  "jsnum_nat x = (case x of Fin q \<Rightarrow> nat \<lfloor>q\<rfloor> | _ \<Rightarrow> 0)"

definition build_client :: "services_settings \<Rightarrow> InternalService \<Rightarrow> exn + http_client" where
  "build_client c service =
     rbind (registry_resolve (services_config.truncate c) service) (\<lambda>baseURL.
       Inr \<lparr>hc_serviceName = service_name service, hc_baseURL = baseURL,
            hc_timeout = jsnum_nat (sc_internalRequestTimeout c),
            hc_retries = jsnum_nat (sc_internalRequestRetries c),
            hc_retryDelay = jsnum_nat (sc_internalRequestRetryDelay c)\<rparr>)"

definition relay_settings :: "outbox_config \<Rightarrow> relay_config" where
  "relay_settings c =
     \<lparr>rl_staleTimeoutMs = jsnum_nat (oc_staleTimeoutMs c), rl_retryLimit = jsnum_nat (oc_retryLimit c),
      rl_batchSize = jsnum_nat (oc_batchSize c), rl_maxInFlight = jsnum_nat (oc_maxInFlightMessages c)\<rparr>"

section \<open>What the loaders find\<close>

text \<open>
  After validation NestJS starts the loaders on a process environment where a variable of the schema
  holds either the text that was validated or the validated value written back as text
  (\<open>assignVarsToProcess\<close>; an undefined value is not written). \<open>env_entries\<close> lists the variables of the schema
  with their values as text; \<open>process_holds\<close> is the named hypothesis. Variables outside the schema are
  not constrained.
\<close>

definition show_bool :: "bool \<Rightarrow> string" where
  "show_bool b = (if b then ''true'' else ''false'')"

type_synonym entries = "(string \<times> string option) list"

definition database_entries :: "database_env \<Rightarrow> entries" where
  "database_entries d =
     [(''DATABASE_URL'', Some (DATABASE_URL d)), (''DATABASE_HOST'', DATABASE_HOST d),
      (''DATABASE_PORT'', map_option show_int (DATABASE_PORT d)), (''DATABASE_USER'', DATABASE_USER d),
      (''DATABASE_PASSWORD'', DATABASE_PASSWORD d), (''DATABASE_NAME'', DATABASE_NAME d),
      (''DATABASE_SCHEMA'', DATABASE_SCHEMA d), (''DATABASE_SSL'', Some (show_bool (DATABASE_SSL d))),
      (''DATABASE_POOL_SIZE'', Some (show_int (DATABASE_POOL_SIZE d))),
      (''DATABASE_CONNECT_TIMEOUT'', Some (show_int (DATABASE_CONNECT_TIMEOUT d))),
      (''DATABASE_IDLE_TIMEOUT'', Some (show_int (DATABASE_IDLE_TIMEOUT d)))]"

definition redis_entries :: "redis_env \<Rightarrow> entries" where
  "redis_entries r =
     [(''REDIS_URL'', Some (REDIS_URL r)), (''REDIS_PASSWORD'', REDIS_PASSWORD r),
      (''REDIS_TLS'', Some (show_bool (REDIS_TLS r)))]"

definition kafka_entries :: "kafka_env \<Rightarrow> entries" where
  "kafka_entries k =
     [(''KAFKA_BROKERS'', Some (KAFKA_BROKERS k)), (''KAFKA_CLIENT_ID'', Some (KAFKA_CLIENT_ID k)),
      (''KAFKA_SSL'', Some (show_bool (KAFKA_SSL k))), (''KAFKA_SASL'', Some (show_bool (KAFKA_SASL k))),
      (''KAFKA_CONSUMER_GROUP_ID'', Some (KAFKA_CONSUMER_GROUP_ID k)),
      (''KAFKA_CONSUMER_RETRY_LIMIT'', Some (show_int (KAFKA_CONSUMER_RETRY_LIMIT k)))]"

definition http_entries :: "http_env \<Rightarrow> entries" where
  "http_entries h =
     [(''PORT'', Some (show_int (PORT h))), (''HOST'', Some (HOST h)), (''API_PREFIX'', Some (API_PREFIX h)),
      (''HTTP_KEEP_ALIVE'', map_option show_bool (HTTP_KEEP_ALIVE h)),
      (''HTTP_KEEP_ALIVE_MAX_SOCKETS'', map_option show_int (HTTP_KEEP_ALIVE_MAX_SOCKETS h))]"

definition logging_entries :: "logging_env \<Rightarrow> entries" where
  "logging_entries l =
     [(''LOG_LEVEL'', Some (LOG_LEVEL l)), (''LOG_PRETTY'', Some (show_bool (LOG_PRETTY l))),
      (''LOG_SERVICE_NAME'', Some (LOG_SERVICE_NAME l))]"

definition telemetry_entries :: "telemetry_env \<Rightarrow> entries" where
  "telemetry_entries t =
     [(''OTEL_EXPORTER_OTLP_ENDPOINT'', Some (OTEL_EXPORTER_OTLP_ENDPOINT t)),
      (''OTEL_SERVICE_NAME'', OTEL_SERVICE_NAME t)]"

definition security_entries :: "security_env \<Rightarrow> entries" where
  "security_entries s =
     [(''JWT_SECRET'', Some (JWT_SECRET s)), (''API_KEY_HEADER'', Some (API_KEY_HEADER s)),
      (''CORS_ENABLED'', Some (show_bool (CORS_ENABLED s)))]"

definition services_entries :: "services_env \<Rightarrow> entries" where
  "services_entries s =
     [(''GATEWAY_URL'', Some (GATEWAY_URL s)), (''MERCHANT_SERVICE_URL'', Some (MERCHANT_SERVICE_URL s)),
      (''PAYMENT_SERVICE_URL'', Some (PAYMENT_SERVICE_URL s)), (''ORDER_SERVICE_URL'', Some (ORDER_SERVICE_URL s)),
      (''LEDGER_SERVICE_URL'', Some (LEDGER_SERVICE_URL s)), (''BALANCE_SERVICE_URL'', Some (BALANCE_SERVICE_URL s)),
      (''NOTIFICATION_SERVICE_URL'', Some (NOTIFICATION_SERVICE_URL s)),
      (''INTERNAL_REQUEST_TIMEOUT'', Some (show_int (INTERNAL_REQUEST_TIMEOUT s))),
      (''INTERNAL_REQUEST_RETRIES'', Some (show_int (INTERNAL_REQUEST_RETRIES s))),
      (''INTERNAL_REQUEST_RETRY_DELAY'', Some (show_int (INTERNAL_REQUEST_RETRY_DELAY s)))]"

definition outbox_entries :: "outbox_env \<Rightarrow> entries" where
  "outbox_entries x =
     [(''OUTBOX_POLLING_INTERVAL'', Some (show_int (OUTBOX_POLLING_INTERVAL x))),
      (''OUTBOX_BATCH_SIZE'', Some (show_int (OUTBOX_BATCH_SIZE x))),
      (''OUTBOX_RETRY_LIMIT'', Some (show_int (OUTBOX_RETRY_LIMIT x))),
      (''OUTBOX_PUBLISH_TIMEOUT'', Some (show_int (OUTBOX_PUBLISH_TIMEOUT x))),
      (''OUTBOX_RETENTION_DAYS'', Some (show_int (OUTBOX_RETENTION_DAYS x))),
      (''OUTBOX_STALE_TIMEOUT'', Some (show_int (OUTBOX_STALE_TIMEOUT x))),
      (''OUTBOX_MAX_IN_FLIGHT_MESSAGES'', Some (show_int (OUTBOX_MAX_IN_FLIGHT_MESSAGES x))),
      (''OUTBOX_FLUSH_INTERVAL'', Some (show_int (OUTBOX_FLUSH_INTERVAL x)))]"

definition env_entries :: "environment \<Rightarrow> entries" where
  "env_entries v =
     (''NODE_ENV'', Some (NODE_ENV v)) # database_entries (e_database v) @ redis_entries (e_redis v) @
     kafka_entries (e_kafka v) @ http_entries (e_http v) @ logging_entries (e_logging v) @
     telemetry_entries (e_telemetry v) @ security_entries (e_security v) @ services_entries (e_services v) @
     outbox_entries (e_outbox v)"

definition holds :: "process_env \<Rightarrow> process_env \<Rightarrow> entries \<Rightarrow> bool" where
  "holds env env' es \<longleftrightarrow> list_all (\<lambda>(k, x). env' k = env k \<or> env' k = x) es"

definition process_holds :: "process_env \<Rightarrow> environment \<Rightarrow> process_env \<Rightarrow> bool" where
  "process_holds env v env' \<longleftrightarrow> holds env env' (env_entries v)"

text \<open>The settings that belong to the validated values.\<close>

definition js_int :: "int \<Rightarrow> jsnum" where
  "js_int n = Fin (of_int n)"

definition database_settings :: "database_env \<Rightarrow> database_config" where
  "database_settings d =
     \<lparr>db_url = Some (DATABASE_URL d), db_host = DATABASE_HOST d, db_port = map_option js_int (DATABASE_PORT d),
      db_username = DATABASE_USER d, db_password = DATABASE_PASSWORD d, db_database = DATABASE_NAME d,
      db_schema = DATABASE_SCHEMA d, db_ssl = DATABASE_SSL d, db_poolSize = js_int (DATABASE_POOL_SIZE d),
      db_connectTimeout = js_int (DATABASE_CONNECT_TIMEOUT d), db_idleTimeout = js_int (DATABASE_IDLE_TIMEOUT d)\<rparr>"

definition redis_settings :: "redis_env \<Rightarrow> redis_config" where
  "redis_settings r = \<lparr>rd_url = Some (REDIS_URL r), rd_password = REDIS_PASSWORD r, rd_tls = REDIS_TLS r\<rparr>"

definition kafka_settings :: "kafka_env \<Rightarrow> kafka_config" where
  "kafka_settings k =
     \<lparr>kf_brokers = map js_trim (js_split (CHR '','') (KAFKA_BROKERS k)),
      kf_clientId = str_or (Some (KAFKA_CLIENT_ID k)) ''surgepay'', kf_ssl = KAFKA_SSL k, kf_sasl = KAFKA_SASL k,
      kf_consumerGroupId = str_or (Some (KAFKA_CONSUMER_GROUP_ID k)) ''surgepay-consumer-group'',
      kf_consumerRetryLimit = js_int (KAFKA_CONSUMER_RETRY_LIMIT k)\<rparr>"

definition http_settings :: "http_env \<Rightarrow> http_config" where
  "http_settings h =
     \<lparr>ht_port = js_int (PORT h), ht_host = str_or (Some (HOST h)) ''localhost'',
      ht_apiPrefix = str_or (Some (API_PREFIX h)) ''api/v1'',
      ht_keepAlive = (case HTTP_KEEP_ALIVE h of None \<Rightarrow> True | Some b \<Rightarrow> b),
      ht_maxSockets = (case HTTP_KEEP_ALIVE_MAX_SOCKETS h of None \<Rightarrow> Fin 100 | Some n \<Rightarrow> js_int n)\<rparr>"

definition logging_settings :: "logging_env \<Rightarrow> logging_config" where
  "logging_settings l =
     \<lparr>lg_level = LOG_LEVEL l, lg_pretty = LOG_PRETTY l, lg_serviceName = LOG_SERVICE_NAME l\<rparr>"

definition telemetry_settings :: "string \<Rightarrow> telemetry_env \<Rightarrow> telemetry_config" where
  "telemetry_settings service t =
     \<lparr>tm_endpoint = str_or (Some (OTEL_EXPORTER_OTLP_ENDPOINT t)) ''http://localhost:4318'',
      tm_serviceName = str_or (OTEL_SERVICE_NAME t) service\<rparr>"

definition security_settings :: "security_env \<Rightarrow> security_config" where
  "security_settings s =
     \<lparr>sy_jwtSecret = JWT_SECRET s, sy_apiKeyHeader = str_or (Some (API_KEY_HEADER s)) ''x-api-key'',
      sy_corsEnabled = CORS_ENABLED s\<rparr>"

definition services_settings_of :: "string \<Rightarrow> services_env \<Rightarrow> services_settings" where
  "services_settings_of fraudUrl s =
     \<lparr>sc_gatewayUrl = str_or (Some (GATEWAY_URL s)) ''http://localhost:3000'',
      sc_merchantServiceUrl = str_or (Some (MERCHANT_SERVICE_URL s)) ''http://localhost:3001'',
      sc_paymentServiceUrl = str_or (Some (PAYMENT_SERVICE_URL s)) ''http://localhost:3003'',
      sc_orderServiceUrl = str_or (Some (ORDER_SERVICE_URL s)) ''http://localhost:3004'',
      sc_ledgerServiceUrl = str_or (Some (LEDGER_SERVICE_URL s)) ''http://localhost:3005'',
      sc_balanceServiceUrl = str_or (Some (BALANCE_SERVICE_URL s)) ''http://localhost:3006'',
      sc_notificationServiceUrl = str_or (Some (NOTIFICATION_SERVICE_URL s)) ''http://localhost:3007'',
      sc_fraudServiceUrl = fraudUrl,
      sc_internalRequestTimeout = js_int (INTERNAL_REQUEST_TIMEOUT s),
      sc_internalRequestRetries = js_int (INTERNAL_REQUEST_RETRIES s),
      sc_internalRequestRetryDelay = js_int (INTERNAL_REQUEST_RETRY_DELAY s)\<rparr>"

definition outbox_settings :: "outbox_env \<Rightarrow> outbox_config" where
  "outbox_settings x =
     \<lparr>oc_pollingInterval = js_int (OUTBOX_POLLING_INTERVAL x), oc_batchSize = js_int (OUTBOX_BATCH_SIZE x),
      oc_retryLimit = js_int (OUTBOX_RETRY_LIMIT x), oc_publishTimeout = js_int (OUTBOX_PUBLISH_TIMEOUT x),
      oc_retentionDays = js_int (OUTBOX_RETENTION_DAYS x), oc_staleTimeoutMs = js_int (OUTBOX_STALE_TIMEOUT x),
      oc_maxInFlightMessages = js_int (OUTBOX_MAX_IN_FLIGHT_MESSAGES x),
      oc_flushInterval = js_int (OUTBOX_FLUSH_INTERVAL x)\<rparr>"

section \<open>The loaders agree with the schemas\<close>

lemma is_integer_ex: "is_integer (Fin q) \<Longrightarrow> \<exists>n. q = of_int n"
  by (cases "quotient_of q") (auto simp: is_integer_def dest: quotient_of_div)

lemma is_integer_floor: "is_integer (Fin q) \<Longrightarrow> of_int \<lfloor>q\<rfloor> = q"
  by (auto dest: is_integer_ex)

lemma is_integer_of_int [simp]: "is_integer (Fin (of_int n))"
  by (simp add: is_integer_def)

lemma z_int_iff: "z_int low x = Some n \<longleftrightarrow> x = js_int n \<and> low \<le> n"
proof
  assume h: "z_int low x = Some n"
  then obtain q where q: "x = Fin q" "is_integer (Fin q)" "of_int low \<le> q" "n = \<lfloor>q\<rfloor>"
    by (auto simp: z_int_def split: jsnum.splits if_splits)
  then show "x = js_int n \<and> low \<le> n" by (simp add: js_int_def le_floor_iff is_integer_floor del: of_int_floor_cancel)
qed (simp add: z_int_def js_int_def)

lemma parseInt_integer: "js_parseInt s = NaN \<or> (\<exists>n. js_parseInt s = js_int n)"
proof (cases "js_parseInt s")
  case (Fin q)
  have "\<exists>n. q = of_int n"
    using Fin by (auto simp: js_parseInt_def Let_def split: if_splits) (metis of_int_minus of_int_of_nat_eq, metis of_int_of_nat_eq)+
  then show ?thesis using Fin by (auto simp: js_int_def)
qed (auto simp: js_parseInt_def Let_def split: if_splits)

lemma pre_int_show [simp]: "pre_int (Some (show_int n)) = Some (js_int n)"
  by (simp add: pre_int_def js_int_def parseInt_show_int)

text \<open>
  The contract between a schema and the loader of the same variable: a field is parsed by \<open>parse\<close>, NestJS may
  write its value back as \<open>render\<close>, and the loader reads it by \<open>load\<close>. Both texts have to give the setting that
  belongs to the value.
\<close>

locale schema_field =
  fixes parse :: "string option \<Rightarrow> 'a option"
    and render :: "'a \<Rightarrow> string option"
    and load :: "string option \<Rightarrow> 'b"
    and setting :: "'a \<Rightarrow> 'b"
  assumes load_raw: "parse v = Some x \<Longrightarrow> load v = setting x"
    and load_rendered: "parse v = Some x \<Longrightarrow> load (render x) = setting x"
begin

lemma loads: "parse v = Some x \<Longrightarrow> w = v \<or> w = render x \<Longrightarrow> load w = setting x"
  using load_raw load_rendered by auto

end

interpretation int_field:
  schema_field "z_int_default low d" "\<lambda>n. Some (show_int n)" "\<lambda>v. load_int v (Fin (of_int d))" js_int for low d
  by unfold_locales (auto simp: load_int_def z_int_default_def z_int_iff)

interpretation optional_int_field:
  schema_field "z_int_optional low" "map_option show_int" pre_int "map_option js_int" for low
proof unfold_locales
  fix v n
  assume n: "z_int_optional low v = Some n"
  then show "pre_int v = map_option js_int n"
    by (cases "pre_int v") (auto simp: z_int_optional_def z_int_iff)
  from n show "pre_int (map_option show_int n) = map_option js_int n" by (cases n) (simp_all add: pre_int_def [of None])
qed

lemma is_true_show [simp]: "is_true (Some (show_bool b)) = b"
  by (simp add: is_true_def show_bool_def)

interpretation flag_field:
  schema_field "\<lambda>v. Some (is_true v)" "\<lambda>b. Some (show_bool b)" is_true "\<lambda>b. b"
  by unfold_locales auto

interpretation text_field:
  schema_field "z_default d" Some "\<lambda>v. str_or v d" "\<lambda>s. str_or (Some s) d" for d
  by unfold_locales (auto simp: z_default_def str_or_def split: option.splits)

interpretation given_field:
  schema_field z_optional "\<lambda>v. v" "\<lambda>v. v" "\<lambda>v. v"
  by unfold_locales (auto simp: z_optional_def)

lemma load_int_default:
  "z_int_default low d v = Some n \<Longrightarrow> w = v \<or> w = Some (show_int n) \<Longrightarrow> e = Fin (of_int d) \<Longrightarrow> load_int w e = js_int n"
  by (simp add: int_field.loads)

lemma load_int_bound: "z_int_default low d v = Some n \<Longrightarrow> low \<le> n"
  by (simp add: z_int_default_def z_int_iff)

lemmas load_int_optional = optional_int_field.loads

lemma load_bool: "is_true v = b \<Longrightarrow> w = v \<or> w = Some (show_bool b) \<Longrightarrow> is_true w = b"
  by (rule flag_field.loads) simp_all

lemmas load_str = text_field.loads

lemma load_raw: "v = x \<Longrightarrow> w = v \<or> w = x \<Longrightarrow> w = (x :: string option)"
  by (rule given_field.loads) (simp_all add: z_optional_def)

lemma z_url_default_str: "z_url_default is_url d v = Some s \<Longrightarrow> z_default d v = Some s"
  by (auto simp: z_url_default_def z_url_def z_default_def split: if_splits)

lemma z_enum_str: "z_enum vs d v = Some s \<Longrightarrow> z_default d v = Some s \<and> s \<in> set vs"
  by (auto simp: z_enum_def z_default_def Let_def split: if_splits)

lemma z_min1_iff: "z_min1 v = Some s \<longleftrightarrow> v = Some s \<and> s \<noteq> []"
  by (cases v) (auto simp: z_min1_def Suc_le_eq)

lemma z_url_iff: "z_url is_url v = Some s \<longleftrightarrow> v = Some s \<and> is_url s"
  by (auto simp: z_url_def split: option.splits)

lemmas schema_simps = bind_eq_Some_conv z_optional_def z_min1_iff z_url_iff

lemma holdsD: "holds env env' es \<Longrightarrow> (k, x) \<in> set es \<Longrightarrow> env' k = env k \<or> env' k = x"
  by (auto simp: holds_def list_all_iff)

text \<open>The fields of an accepted environment, schema by schema.\<close>

lemma databaseSchemaD:
  assumes "databaseSchema is_url env = Some d"
  shows "env ''DATABASE_URL'' = Some (DATABASE_URL d)" "env ''DATABASE_HOST'' = DATABASE_HOST d"
    "z_int_optional 1 (env ''DATABASE_PORT'') = Some (DATABASE_PORT d)" "env ''DATABASE_USER'' = DATABASE_USER d"
    "env ''DATABASE_PASSWORD'' = DATABASE_PASSWORD d" "env ''DATABASE_NAME'' = DATABASE_NAME d"
    "env ''DATABASE_SCHEMA'' = DATABASE_SCHEMA d" "is_true (env ''DATABASE_SSL'') = DATABASE_SSL d"
    "z_int_default 1 10 (env ''DATABASE_POOL_SIZE'') = Some (DATABASE_POOL_SIZE d)"
    "z_int_default 1 5000 (env ''DATABASE_CONNECT_TIMEOUT'') = Some (DATABASE_CONNECT_TIMEOUT d)"
    "z_int_default 1 30000 (env ''DATABASE_IDLE_TIMEOUT'') = Some (DATABASE_IDLE_TIMEOUT d)"
  using assms by (auto simp: databaseSchema_def schema_simps)

lemma database_loads:
  assumes "databaseSchema is_url env = Some d" "holds env env' (database_entries d)"
  shows "databaseConfig env' = database_settings d"
proof -
  note d = databaseSchemaD [OF assms(1)] and h = holdsD [OF assms(2)]
  show ?thesis
    by (simp add: databaseConfig_def database_settings_def database_entries_def load_raw [OF d(1) h] load_raw [OF d(2) h]
        load_int_optional [OF d(3) h] load_raw [OF d(4) h] load_raw [OF d(5) h] load_raw [OF d(6) h] load_raw [OF d(7) h]
        load_bool [OF d(8) h] load_int_default [OF d(9) h] load_int_default [OF d(10) h] load_int_default [OF d(11) h])
qed

lemma redis_loads:
  assumes "redisSchema is_url env = Some r" "holds env env' (redis_entries r)"
  shows "redisConfig env' = redis_settings r"
proof -
  have d: "env ''REDIS_URL'' = Some (REDIS_URL r)" "env ''REDIS_PASSWORD'' = REDIS_PASSWORD r" "is_true (env ''REDIS_TLS'') = REDIS_TLS r"
    using assms(1) by (auto simp: redisSchema_def schema_simps)
  note h = holdsD [OF assms(2)]
  show ?thesis
    by (simp add: redisConfig_def redis_settings_def redis_entries_def load_raw [OF d(1) h] load_raw [OF d(2) h] load_bool [OF d(3) h])
qed

text \<open>\<open>KAFKA_CONSUMER_RETRY_LIMIT\<close> has no \<open>int()\<close>, and its schema refuses the empty text.\<close>

lemma z_number_iff: "z_number x = Some n \<longleftrightarrow> (\<exists>q. x = Fin q \<and> n = \<lfloor>q\<rfloor>)"
  by (auto simp: z_number_def split: jsnum.splits)

abbreviation retry_limit_parse :: "string option \<Rightarrow> int option" where
  "retry_limit_parse v \<equiv> z_number (case v of None \<Rightarrow> Fin 3 | Some s \<Rightarrow> js_parseInt s)"

lemma retry_limit_text:
  assumes "retry_limit_parse (Some s) = Some n"
  shows "js_parseInt s = js_int n" "s \<noteq> []"
proof -
  show "js_parseInt s = js_int n" using assms parseInt_integer [of s] by (auto simp: z_number_iff js_int_def)
  then show "s \<noteq> []" by (auto simp: js_parseInt_def js_int_def)
qed

interpretation number_field:
  schema_field retry_limit_parse "\<lambda>n. Some (show_int n)" "\<lambda>v. load_int v (Fin 3)" js_int
proof unfold_locales
  fix v n
  assume n: "retry_limit_parse v = Some n"
  show "load_int v (Fin 3) = js_int n"
  proof (cases v)
    case None
    with n show ?thesis by (auto simp: load_int_def pre_int_def z_number_iff js_int_def)
  next
    case (Some s)
    with n retry_limit_text [of s n] show ?thesis by (simp add: load_int_def pre_int_def)
  qed
  show "load_int (Some (show_int n)) (Fin 3) = js_int n" by (simp add: load_int_def)
qed

lemma kafkaSchemaD:
  assumes "kafkaSchema env = Some k"
  shows "env ''KAFKA_BROKERS'' = Some (KAFKA_BROKERS k)" "KAFKA_BROKERS k \<noteq> []"
    "z_default ''surgepay'' (env ''KAFKA_CLIENT_ID'') = Some (KAFKA_CLIENT_ID k)"
    "is_true (env ''KAFKA_SSL'') = KAFKA_SSL k" "is_true (env ''KAFKA_SASL'') = KAFKA_SASL k"
    "z_default ''surgepay-consumer-group'' (env ''KAFKA_CONSUMER_GROUP_ID'') = Some (KAFKA_CONSUMER_GROUP_ID k)"
    "z_number (case env ''KAFKA_CONSUMER_RETRY_LIMIT'' of None \<Rightarrow> Fin 3 | Some s \<Rightarrow> js_parseInt s) =
       Some (KAFKA_CONSUMER_RETRY_LIMIT k)"
  using assms by (auto simp: kafkaSchema_def schema_simps)

lemma kafka_loads:
  assumes "kafkaSchema env = Some k" "holds env env' (kafka_entries k)"
  shows "kafkaConfig env' = kafka_settings k"
proof -
  note d = kafkaSchemaD [OF assms(1)] and h = holdsD [OF assms(2)]
  show ?thesis
    by (simp add: kafkaConfig_def kafka_settings_def kafka_entries_def load_raw [OF d(1) h] d(2) load_str [OF d(3) h]
        load_bool [OF d(4) h] load_bool [OF d(5) h] load_str [OF d(6) h] number_field.loads [OF d(7) h])
qed

lemma httpSchemaD:
  assumes "httpSchema env = Some x"
  shows "z_int_default 1 3000 (env ''PORT'') = Some (PORT x)"
    "z_default ''localhost'' (env ''HOST'') = Some (HOST x)"
    "z_default ''api/v1'' (env ''API_PREFIX'') = Some (API_PREFIX x)"
    "Some (map_option (\<lambda>s. s = ''true'') (env ''HTTP_KEEP_ALIVE'')) = Some (HTTP_KEEP_ALIVE x)"
    "z_int_optional 1 (env ''HTTP_KEEP_ALIVE_MAX_SOCKETS'') = Some (HTTP_KEEP_ALIVE_MAX_SOCKETS x)"
  using assms by (auto simp: httpSchema_def schema_simps)

lemma show_bool_true [simp]: "show_bool b = ''true'' \<longleftrightarrow> b"
  by (simp add: show_bool_def)

interpretation keep_alive_field:
  schema_field "\<lambda>v. Some (map_option (\<lambda>s. s = ''true'') v)" "map_option show_bool" "\<lambda>v. is_true v \<or> v = None"
    "\<lambda>b. case b of None \<Rightarrow> True | Some c \<Rightarrow> c"
proof unfold_locales
  fix v b
  assume "Some (map_option (\<lambda>s. s = ''true'') v) = Some b"
  then show "(is_true v \<or> v = None) = (case b of None \<Rightarrow> True | Some c \<Rightarrow> c)"
    by (cases v) (auto simp: is_true_def)
  show "(is_true (map_option show_bool b) \<or> map_option show_bool b = None) = (case b of None \<Rightarrow> True | Some c \<Rightarrow> c)"
    by (cases b) (simp_all add: is_true_def)
qed

lemma http_loads:
  assumes "httpSchema env = Some x" "holds env env' (http_entries x)"
  shows "httpConfig env' = http_settings x"
proof -
  note d = httpSchemaD [OF assms(1)] and h = holdsD [OF assms(2)]
  have s: "load_int (env' ''HTTP_KEEP_ALIVE_MAX_SOCKETS'') (Fin 100) =
      (case HTTP_KEEP_ALIVE_MAX_SOCKETS x of None \<Rightarrow> Fin 100 | Some n \<Rightarrow> js_int n)"
    by (simp add: load_int_def load_int_optional [OF d(5) h] http_entries_def split: option.splits)
  have k: "(is_true (env' ''HTTP_KEEP_ALIVE'') \<or> env' ''HTTP_KEEP_ALIVE'' = None) =
      (case HTTP_KEEP_ALIVE x of None \<Rightarrow> True | Some c \<Rightarrow> c)"
    by (rule keep_alive_field.loads [OF d(4) h]) (simp add: http_entries_def)
  show ?thesis
    by (simp add: httpConfig_def http_settings_def http_entries_def load_int_default [OF d(1) h] load_str [OF d(2) h]
        load_str [OF d(3) h] k s)
qed

lemma loggingSchemaD:
  assumes "loggingSchema env = Some l"
  shows "z_default ''info'' (env ''LOG_LEVEL'') = Some (LOG_LEVEL l)" "LOG_LEVEL l \<in> set LOG_LEVELS"
    "is_true (env ''LOG_PRETTY'') = LOG_PRETTY l" "env ''LOG_SERVICE_NAME'' = Some (LOG_SERVICE_NAME l)" "LOG_SERVICE_NAME l \<noteq> []"
  using assms by (auto simp: loggingSchema_def schema_simps dest: z_enum_str)

lemma logging_loads:
  assumes "loggingSchema env = Some l" "holds env env' (logging_entries l)"
  shows "loggingConfig env' = logging_settings l"
proof -
  note d = loggingSchemaD [OF assms(1)] and h = holdsD [OF assms(2)]
  have "LOG_LEVEL l \<noteq> []" using d(2) by (auto simp: LOG_LEVELS_def)
  then show ?thesis
    by (simp add: loggingConfig_def logging_settings_def logging_entries_def load_str [OF d(1) h] load_bool [OF d(3) h]
        load_raw [OF d(4) h] d(5))
qed

lemma telemetry_loads:
  assumes "telemetrySchema is_url env = Some t" "holds env env' (telemetry_entries t)"
    and "env' ''LOG_SERVICE_NAME'' = Some service" "service \<noteq> []"
  shows "telemetryConfig env' = telemetry_settings service t"
proof -
  have d: "z_url_default is_url ''http://localhost:4318'' (env ''OTEL_EXPORTER_OTLP_ENDPOINT'') = Some (OTEL_EXPORTER_OTLP_ENDPOINT t)"
    "env ''OTEL_SERVICE_NAME'' = OTEL_SERVICE_NAME t"
    using assms(1) by (auto simp: telemetrySchema_def schema_simps)
  note h = holdsD [OF assms(2)]
  have s: "str_or (str_or_opt (OTEL_SERVICE_NAME t) (Some service)) ''surgepay-service'' = str_or (OTEL_SERVICE_NAME t) service"
    using assms(4) by (auto simp: str_or_def str_or_opt_def split: option.split)
  show ?thesis
    by (simp add: telemetryConfig_def telemetry_settings_def telemetry_entries_def assms(3) s
        load_str [OF z_url_default_str [OF d(1)] h] load_raw [OF d(2) h])
qed

interpretation cors_field:
  schema_field "\<lambda>v. Some (v \<noteq> Some ''false'')" "\<lambda>b. Some (show_bool b)" "\<lambda>v. v \<noteq> Some ''false''" "\<lambda>b. b"
  by unfold_locales (simp_all add: show_bool_def)

lemma security_loads:
  assumes "securitySchema env = Some s" "holds env env' (security_entries s)"
  shows "securityConfig env' = security_settings s"
proof -
  have d: "env ''JWT_SECRET'' = Some (JWT_SECRET s)" "JWT_SECRET s \<noteq> []"
    "z_default ''x-api-key'' (env ''API_KEY_HEADER'') = Some (API_KEY_HEADER s)"
    "Some (env ''CORS_ENABLED'' \<noteq> Some ''false'') = Some (CORS_ENABLED s)"
    using assms(1) by (auto simp: securitySchema_def schema_simps)
  note h = holdsD [OF assms(2)]
  have c: "(env' ''CORS_ENABLED'' \<noteq> Some ''false'') = CORS_ENABLED s"
    by (rule cors_field.loads [OF d(4) h]) (simp add: security_entries_def)
  show ?thesis
    unfolding securityConfig_def c
    by (simp add: security_settings_def security_entries_def load_raw [OF d(1) h] d(2) load_str [OF d(3) h])
qed

lemma servicesSchemaD:
  assumes "servicesSchema is_url env = Some s"
  shows "z_default ''http://localhost:3000'' (env ''GATEWAY_URL'') = Some (GATEWAY_URL s)"
    "z_default ''http://localhost:3001'' (env ''MERCHANT_SERVICE_URL'') = Some (MERCHANT_SERVICE_URL s)"
    "z_default ''http://localhost:3003'' (env ''PAYMENT_SERVICE_URL'') = Some (PAYMENT_SERVICE_URL s)"
    "z_default ''http://localhost:3004'' (env ''ORDER_SERVICE_URL'') = Some (ORDER_SERVICE_URL s)"
    "z_default ''http://localhost:3005'' (env ''LEDGER_SERVICE_URL'') = Some (LEDGER_SERVICE_URL s)"
    "z_default ''http://localhost:3006'' (env ''BALANCE_SERVICE_URL'') = Some (BALANCE_SERVICE_URL s)"
    "z_default ''http://localhost:3007'' (env ''NOTIFICATION_SERVICE_URL'') = Some (NOTIFICATION_SERVICE_URL s)"
    "z_int_default 1 2000 (env ''INTERNAL_REQUEST_TIMEOUT'') = Some (INTERNAL_REQUEST_TIMEOUT s)"
    "z_int_default 0 3 (env ''INTERNAL_REQUEST_RETRIES'') = Some (INTERNAL_REQUEST_RETRIES s)"
    "z_int_default 0 100 (env ''INTERNAL_REQUEST_RETRY_DELAY'') = Some (INTERNAL_REQUEST_RETRY_DELAY s)"
  using assms by (auto simp: servicesSchema_def schema_simps dest!: z_url_default_str)

lemma services_loads:
  assumes "servicesSchema is_url env = Some s" "holds env env' (services_entries s)"
  shows "servicesConfig env' = services_settings_of (str_or (env' ''FRAUD_SERVICE_URL'') ''http://localhost:3008'') s"
proof -
  note d = servicesSchemaD [OF assms(1)] and h = holdsD [OF assms(2)]
  show ?thesis
    by (simp add: servicesConfig_def services_settings_of_def services_entries_def load_str [OF d(1) h] load_str [OF d(2) h]
        load_str [OF d(3) h] load_str [OF d(4) h] load_str [OF d(5) h] load_str [OF d(6) h] load_str [OF d(7) h]
        load_int_default [OF d(8) h] load_int_default [OF d(9) h] load_int_default [OF d(10) h])
qed

lemma outboxSchemaD:
  assumes "outboxSchema env = Some x"
  shows "z_int_default 1 500 (env ''OUTBOX_POLLING_INTERVAL'') = Some (OUTBOX_POLLING_INTERVAL x)"
    "z_int_default 1 100 (env ''OUTBOX_BATCH_SIZE'') = Some (OUTBOX_BATCH_SIZE x)"
    "z_int_default 1 3 (env ''OUTBOX_RETRY_LIMIT'') = Some (OUTBOX_RETRY_LIMIT x)"
    "z_int_default 1 5000 (env ''OUTBOX_PUBLISH_TIMEOUT'') = Some (OUTBOX_PUBLISH_TIMEOUT x)"
    "z_int_default 1 7 (env ''OUTBOX_RETENTION_DAYS'') = Some (OUTBOX_RETENTION_DAYS x)"
    "z_int_default 1 300000 (env ''OUTBOX_STALE_TIMEOUT'') = Some (OUTBOX_STALE_TIMEOUT x)"
    "z_int_default 1 1000 (env ''OUTBOX_MAX_IN_FLIGHT_MESSAGES'') = Some (OUTBOX_MAX_IN_FLIGHT_MESSAGES x)"
    "z_int_default 1 100 (env ''OUTBOX_FLUSH_INTERVAL'') = Some (OUTBOX_FLUSH_INTERVAL x)"
  using assms by (auto simp: outboxSchema_def schema_simps)

lemma outbox_loads:
  assumes "outboxSchema env = Some x" "holds env env' (outbox_entries x)"
  shows "outboxConfig env' = outbox_settings x"
proof -
  note d = outboxSchemaD [OF assms(1)] and h = holdsD [OF assms(2)]
  show ?thesis
    by (simp add: outboxConfig_def outbox_settings_def outbox_entries_def load_int_default [OF d(1) h]
        load_int_default [OF d(2) h] load_int_default [OF d(3) h] load_int_default [OF d(4) h] load_int_default [OF d(5) h]
        load_int_default [OF d(6) h] load_int_default [OF d(7) h] load_int_default [OF d(8) h])
qed

section \<open>The whole configuration\<close>

lemma environmentSchemaD:
  assumes "environmentSchema is_url env = Some v"
  shows "databaseSchema is_url env = Some (e_database v)" "redisSchema is_url env = Some (e_redis v)"
    "kafkaSchema env = Some (e_kafka v)" "httpSchema env = Some (e_http v)" "loggingSchema env = Some (e_logging v)"
    "telemetrySchema is_url env = Some (e_telemetry v)" "securitySchema env = Some (e_security v)"
    "servicesSchema is_url env = Some (e_services v)" "outboxSchema env = Some (e_outbox v)"
  using assms by (auto simp: environmentSchema_def bind_eq_Some_conv)

lemma validateD: "validate is_url env = Inr v \<Longrightarrow> environmentSchema is_url env = Some v"
  by (simp add: validate_def split: option.splits)

lemma process_holdsD:
  assumes "process_holds env v env'"
  shows "holds env env' (database_entries (e_database v))" "holds env env' (redis_entries (e_redis v))"
    "holds env env' (kafka_entries (e_kafka v))" "holds env env' (http_entries (e_http v))"
    "holds env env' (logging_entries (e_logging v))" "holds env env' (telemetry_entries (e_telemetry v))"
    "holds env env' (security_entries (e_security v))" "holds env env' (services_entries (e_services v))"
    "holds env env' (outbox_entries (e_outbox v))"
  using assms by (simp_all add: process_holds_def env_entries_def holds_def)

lemma loaded:
  assumes "validate is_url env = Inr v" "process_holds env v env'"
  shows "databaseConfig env' = database_settings (e_database v)" "redisConfig env' = redis_settings (e_redis v)"
    "kafkaConfig env' = kafka_settings (e_kafka v)" "httpConfig env' = http_settings (e_http v)"
    "loggingConfig env' = logging_settings (e_logging v)"
    "telemetryConfig env' = telemetry_settings (LOG_SERVICE_NAME (e_logging v)) (e_telemetry v)"
    "securityConfig env' = security_settings (e_security v)"
    "servicesConfig env' = services_settings_of (str_or (env' ''FRAUD_SERVICE_URL'') ''http://localhost:3008'') (e_services v)"
    "outboxConfig env' = outbox_settings (e_outbox v)"
proof -
  note s = environmentSchemaD [OF validateD [OF assms(1)]] and h = process_holdsD [OF assms(2)]
  have service: "env' ''LOG_SERVICE_NAME'' = Some (LOG_SERVICE_NAME (e_logging v))"
    by (rule load_raw [OF loggingSchemaD(4) [OF s(5)] holdsD [OF h(5)]]) (simp add: logging_entries_def)
  show "databaseConfig env' = database_settings (e_database v)" by (rule database_loads [OF s(1) h(1)])
  show "redisConfig env' = redis_settings (e_redis v)" by (rule redis_loads [OF s(2) h(2)])
  show "kafkaConfig env' = kafka_settings (e_kafka v)" by (rule kafka_loads [OF s(3) h(3)])
  show "httpConfig env' = http_settings (e_http v)" by (rule http_loads [OF s(4) h(4)])
  show "loggingConfig env' = logging_settings (e_logging v)" by (rule logging_loads [OF s(5) h(5)])
  show "telemetryConfig env' = telemetry_settings (LOG_SERVICE_NAME (e_logging v)) (e_telemetry v)"
    by (rule telemetry_loads [OF s(6) h(6) service loggingSchemaD(5) [OF s(5)]])
  show "securityConfig env' = security_settings (e_security v)" by (rule security_loads [OF s(7) h(7)])
  show "servicesConfig env' = services_settings_of (str_or (env' ''FRAUD_SERVICE_URL'') ''http://localhost:3008'') (e_services v)"
    by (rule services_loads [OF s(8) h(8)])
  show "outboxConfig env' = outbox_settings (e_outbox v)" by (rule outbox_loads [OF s(9) h(9)])
qed

text \<open>Numbers within their bounds.\<close>

lemma jsnum_nat_int [simp]: "jsnum_nat (js_int n) = nat n"
  by (simp add: jsnum_nat_def js_int_def)

lemma str_or_Some_ne: "d \<noteq> [] \<Longrightarrow> str_or (Some s) d \<noteq> []"
  by (simp add: str_or_nonempty)

lemma registry_ne:
  assumes "fraudUrl \<noteq> []"
  shows "registry (services_config.truncate (services_settings_of fraudUrl s)) service \<noteq> []"
  using assms by (cases service) (simp_all add: services_settings_of_def services_config.truncate_def str_or_Some_ne)

lemma build_client_ok:
  assumes "fraudUrl \<noteq> []"
  shows "\<exists>url. url \<noteq> [] \<and> build_client (services_settings_of fraudUrl s) service =
     Inr \<lparr>hc_serviceName = service_name service, hc_baseURL = url,
          hc_timeout = nat (INTERNAL_REQUEST_TIMEOUT s), hc_retries = nat (INTERNAL_REQUEST_RETRIES s),
          hc_retryDelay = nat (INTERNAL_REQUEST_RETRY_DELAY s)\<rparr>"
proof -
  note r = registry_ne [OF assms, of s service]
  have "registry_resolve (services_config.truncate (services_settings_of fraudUrl s)) service =
      Inr (registry (services_config.truncate (services_settings_of fraudUrl s)) service)"
    using r by (simp add: registry_resolve_def)
  with r show ?thesis by (auto simp: build_client_def) (simp add: services_settings_of_def)+
qed

lemma outbox_positive:
  assumes "outboxSchema env = Some x"
  shows "0 < OUTBOX_POLLING_INTERVAL x" "0 < OUTBOX_BATCH_SIZE x" "0 < OUTBOX_RETRY_LIMIT x" "0 < OUTBOX_PUBLISH_TIMEOUT x"
    "0 < OUTBOX_RETENTION_DAYS x" "0 < OUTBOX_STALE_TIMEOUT x" "0 < OUTBOX_MAX_IN_FLIGHT_MESSAGES x" "0 < OUTBOX_FLUSH_INTERVAL x"
  using outboxSchemaD [OF assms, THEN load_int_bound] by simp_all

lemma services_bounds:
  assumes "servicesSchema is_url env = Some s"
  shows "0 < INTERNAL_REQUEST_TIMEOUT s" "0 \<le> INTERNAL_REQUEST_RETRIES s" "0 \<le> INTERNAL_REQUEST_RETRY_DELAY s"
  using servicesSchemaD(8-10) [OF assms, THEN load_int_bound] by simp_all

definition gateway_rate_limit :: "gateway_env \<Rightarrow> rate_config" where
  "gateway_rate_limit g = \<lparr>rl_limit = gw_RATE_LIMIT_DEFAULT_LIMIT g, rl_windowSeconds = gw_RATE_LIMIT_WINDOW_SECONDS g\<rparr>"

lemma gateway_rate_limit_ok:
  assumes "getGatewayConfig is_url env = Inr g"
  shows "rl_config_ok (gateway_rate_limit g)"
proof -
  have "gatewayConfigSchema is_url env = Some g" using assms by (simp add: getGatewayConfig_def split: option.splits)
  then have "z_int_default 1 60 (env ''RATE_LIMIT_WINDOW_SECONDS'') = Some (gw_RATE_LIMIT_WINDOW_SECONDS g)"
    "z_int_default 1 100 (env ''RATE_LIMIT_DEFAULT_LIMIT'') = Some (gw_RATE_LIMIT_DEFAULT_LIMIT g)"
    by (auto simp: gatewayConfigSchema_def schema_simps)
  from this [THEN load_int_bound] show ?thesis by (simp add: rl_config_ok_def gateway_rate_limit_def)
qed

section \<open>What the schemas accept\<close>

text \<open>A text that stands for an integer from \<open>low\<close> on, or for the default.\<close>

definition int_text :: "int \<Rightarrow> string option \<Rightarrow> bool" where
  "int_text low v = (case v of None \<Rightarrow> True | Some s \<Rightarrow> s = [] \<or> (case js_parseInt s of Fin q \<Rightarrow> of_int low \<le> q | _ \<Rightarrow> False))"

definition required_text :: "string option \<Rightarrow> bool" where
  "required_text v = (case v of None \<Rightarrow> False | Some s \<Rightarrow> s \<noteq> [])"

definition outbox_vars :: "string list" where
  "outbox_vars =
     [''OUTBOX_POLLING_INTERVAL'', ''OUTBOX_BATCH_SIZE'', ''OUTBOX_RETRY_LIMIT'', ''OUTBOX_PUBLISH_TIMEOUT'',
      ''OUTBOX_RETENTION_DAYS'', ''OUTBOX_STALE_TIMEOUT'', ''OUTBOX_MAX_IN_FLIGHT_MESSAGES'', ''OUTBOX_FLUSH_INTERVAL'']"

definition positive_vars :: "string list" where
  "positive_vars =
     [''DATABASE_PORT'', ''DATABASE_POOL_SIZE'', ''DATABASE_CONNECT_TIMEOUT'', ''DATABASE_IDLE_TIMEOUT'', ''PORT'',
      ''HTTP_KEEP_ALIVE_MAX_SOCKETS'', ''INTERNAL_REQUEST_TIMEOUT''] @ outbox_vars"

definition service_urls :: "(string \<times> string) list" where
  "service_urls =
     [(''GATEWAY_URL'', ''http://localhost:3000''),
      (''MERCHANT_SERVICE_URL'', ''http://localhost:3001''), (''PAYMENT_SERVICE_URL'', ''http://localhost:3003''),
      (''ORDER_SERVICE_URL'', ''http://localhost:3004''), (''LEDGER_SERVICE_URL'', ''http://localhost:3005''),
      (''BALANCE_SERVICE_URL'', ''http://localhost:3006''), (''NOTIFICATION_SERVICE_URL'', ''http://localhost:3007'')]"

definition url_vars :: "(string \<times> string) list" where
  "url_vars = (''OTEL_EXPORTER_OTLP_ENDPOINT'', ''http://localhost:4318'') # service_urls"

text \<open>The specification: what an operator has to get right.\<close>

definition acceptable :: "(string \<Rightarrow> bool) \<Rightarrow> process_env \<Rightarrow> bool" where
  "acceptable is_url env \<longleftrightarrow>
     list_all (\<lambda>k. z_url is_url (env k) \<noteq> None) [''DATABASE_URL'', ''REDIS_URL''] \<and>
     list_all (\<lambda>k. required_text (env k)) [''KAFKA_BROKERS'', ''LOG_SERVICE_NAME'', ''JWT_SECRET''] \<and>
     list_all (\<lambda>(k, d). is_url (case env k of None \<Rightarrow> d | Some s \<Rightarrow> s)) url_vars \<and>
     list_all (\<lambda>k. int_text 1 (env k)) positive_vars \<and>
     list_all (\<lambda>k. int_text 0 (env k)) [''INTERNAL_REQUEST_RETRIES'', ''INTERNAL_REQUEST_RETRY_DELAY''] \<and>
     (case env ''KAFKA_CONSUMER_RETRY_LIMIT'' of None \<Rightarrow> True | Some s \<Rightarrow> js_parseInt s \<noteq> NaN) \<and>
     (case env ''LOG_LEVEL'' of None \<Rightarrow> True | Some s \<Rightarrow> s \<in> set LOG_LEVELS) \<and>
     (case env ''NODE_ENV'' of None \<Rightarrow> True | Some s \<Rightarrow> s \<in> set [''development'', ''production'', ''test''])"

lemma ex_bind: "(\<exists>y. Option.bind m f = Some y) \<longleftrightarrow> (\<exists>x. m = Some x \<and> (\<exists>y. f x = Some y))"
  by (auto simp: bind_eq_Some_conv)

lemma z_int_ex: "(\<exists>n. z_int low (js_parseInt s) = Some n) \<longleftrightarrow> (case js_parseInt s of Fin q \<Rightarrow> of_int low \<le> q | _ \<Rightarrow> False)"
  using parseInt_integer [of s] by (auto simp: z_int_iff js_int_def)

lemma z_int_default_ex: "low \<le> d \<Longrightarrow> (\<exists>n. z_int_default low d v = Some n) \<longleftrightarrow> int_text low v"
  using z_int_ex [of low] by (cases v) (auto simp: z_int_default_def int_text_def pre_int_def z_int_iff js_int_def)

lemma z_int_optional_ex: "(\<exists>n. z_int_optional low v = Some n) \<longleftrightarrow> int_text low v"
  using z_int_ex [of low] by (cases v) (auto simp: z_int_optional_def int_text_def pre_int_def)

lemma z_enum_ex: "d \<in> set vs \<Longrightarrow> (\<exists>s. z_enum vs d v = Some s) \<longleftrightarrow> (case v of None \<Rightarrow> True | Some s \<Rightarrow> s \<in> set vs)"
  by (auto simp: z_enum_def Let_def split: option.splits)

lemma z_number_ex:
  "(\<exists>n. z_number (case v of None \<Rightarrow> Fin 3 | Some s \<Rightarrow> js_parseInt s) = Some n) \<longleftrightarrow>
   (case v of None \<Rightarrow> True | Some s \<Rightarrow> js_parseInt s \<noteq> NaN)"
proof (cases v)
  case (Some s)
  then show ?thesis using parseInt_integer [of s] by (auto simp: z_number_iff js_int_def)
qed (simp add: z_number_iff)

lemma z_url_default_ex:
  "(\<exists>s. z_url_default is_url d v = Some s) \<longleftrightarrow> is_url (case v of None \<Rightarrow> d | Some s \<Rightarrow> s)"
  by (simp add: z_url_default_def z_url_iff)

lemma z_min1_ex: "(\<exists>s. z_min1 v = Some s) \<longleftrightarrow> required_text v"
  by (cases v) (auto simp: z_min1_iff required_text_def)

lemmas field_ex = z_optional_def z_default_def z_int_default_ex z_int_optional_ex z_enum_ex z_number_ex z_url_default_ex z_min1_ex

lemma database_ex: "(\<exists>d. databaseSchema is_url env = Some d) \<longleftrightarrow>
    z_url is_url (env ''DATABASE_URL'') \<noteq> None \<and> int_text 1 (env ''DATABASE_PORT'') \<and> int_text 1 (env ''DATABASE_POOL_SIZE'') \<and>
    int_text 1 (env ''DATABASE_CONNECT_TIMEOUT'') \<and> int_text 1 (env ''DATABASE_IDLE_TIMEOUT'')"
  unfolding databaseSchema_def ex_bind by (simp add: field_ex)

lemma redis_ex: "(\<exists>d. redisSchema is_url env = Some d) \<longleftrightarrow> z_url is_url (env ''REDIS_URL'') \<noteq> None"
  unfolding redisSchema_def ex_bind by (simp add: field_ex)

lemma kafka_ex: "(\<exists>d. kafkaSchema env = Some d) \<longleftrightarrow> required_text (env ''KAFKA_BROKERS'') \<and>
    (case env ''KAFKA_CONSUMER_RETRY_LIMIT'' of None \<Rightarrow> True | Some s \<Rightarrow> js_parseInt s \<noteq> NaN)"
  unfolding kafkaSchema_def ex_bind by (simp add: field_ex)

lemma http_ex: "(\<exists>d. httpSchema env = Some d) \<longleftrightarrow> int_text 1 (env ''PORT'') \<and> int_text 1 (env ''HTTP_KEEP_ALIVE_MAX_SOCKETS'')"
  unfolding httpSchema_def ex_bind by (simp add: field_ex)

lemma info_level [simp]: "''info'' \<in> set LOG_LEVELS"
  by (simp add: LOG_LEVELS_def)

lemma logging_ex: "(\<exists>d. loggingSchema env = Some d) \<longleftrightarrow> required_text (env ''LOG_SERVICE_NAME'') \<and>
    (case env ''LOG_LEVEL'' of None \<Rightarrow> True | Some s \<Rightarrow> s \<in> set LOG_LEVELS)"
  unfolding loggingSchema_def ex_bind by (auto simp: field_ex)

lemma telemetry_ex: "(\<exists>d. telemetrySchema is_url env = Some d) \<longleftrightarrow>
    is_url (case env ''OTEL_EXPORTER_OTLP_ENDPOINT'' of None \<Rightarrow> ''http://localhost:4318'' | Some s \<Rightarrow> s)"
  unfolding telemetrySchema_def ex_bind by (simp add: field_ex)

lemma security_ex: "(\<exists>d. securitySchema env = Some d) \<longleftrightarrow> required_text (env ''JWT_SECRET'')"
  unfolding securitySchema_def ex_bind by (simp add: field_ex)

lemma services_ex: "(\<exists>d. servicesSchema is_url env = Some d) \<longleftrightarrow>
    list_all (\<lambda>(k, d). is_url (case env k of None \<Rightarrow> d | Some s \<Rightarrow> s)) service_urls \<and>
    int_text 1 (env ''INTERNAL_REQUEST_TIMEOUT'') \<and>
    list_all (\<lambda>k. int_text 0 (env k)) [''INTERNAL_REQUEST_RETRIES'', ''INTERNAL_REQUEST_RETRY_DELAY'']"
  unfolding servicesSchema_def ex_bind by (simp add: field_ex service_urls_def)

lemma outbox_ex: "(\<exists>d. outboxSchema env = Some d) \<longleftrightarrow>
    list_all (\<lambda>k. int_text 1 (env k)) outbox_vars"
  unfolding outboxSchema_def ex_bind by (simp add: field_ex outbox_vars_def)

lemma list_all_Nil_eq: "list_all P [] = True"
  by simp

lemma environment_ex: "(\<exists>v. environmentSchema is_url env = Some v) \<longleftrightarrow> acceptable is_url env"
proof -
  have node: "(\<exists>s. z_enum [''development'', ''production'', ''test''] ''development'' (env ''NODE_ENV'') = Some s) \<longleftrightarrow>
      (case env ''NODE_ENV'' of None \<Rightarrow> True | Some s \<Rightarrow> s \<in> set [''development'', ''production'', ''test''])"
    by (rule z_enum_ex) simp
  have "(\<exists>v. environmentSchema is_url env = Some v) \<longleftrightarrow>
      (\<exists>s. z_enum [''development'', ''production'', ''test''] ''development'' (env ''NODE_ENV'') = Some s) \<and>
      (\<exists>d. databaseSchema is_url env = Some d) \<and> (\<exists>d. redisSchema is_url env = Some d) \<and> (\<exists>d. kafkaSchema env = Some d) \<and>
      (\<exists>d. httpSchema env = Some d) \<and> (\<exists>d. loggingSchema env = Some d) \<and> (\<exists>d. telemetrySchema is_url env = Some d) \<and>
      (\<exists>d. securitySchema env = Some d) \<and> (\<exists>d. servicesSchema is_url env = Some d) \<and> (\<exists>d. outboxSchema env = Some d)"
    unfolding environmentSchema_def ex_bind by simp
  also have "\<dots> \<longleftrightarrow> acceptable is_url env"
    unfolding node database_ex redis_ex kafka_ex http_ex logging_ex telemetry_ex security_ex services_ex outbox_ex
    unfolding acceptable_def url_vars_def positive_vars_def list_all_append list.pred_inject prod.case
    by (simp only: list_all_Nil_eq simp_thms conj_assoc) satx
  finally show ?thesis .
qed

text \<open>A small environment on which the properties are exercised.\<close>

definition example_env :: process_env where
  "example_env = map_of
     [(''DATABASE_URL'', ''postgresql://db/pay''), (''REDIS_URL'', ''redis://cache''), (''KAFKA_BROKERS'', ''k1:9092, k2:9092''),
      (''LOG_SERVICE_NAME'', ''outbox-relay''), (''JWT_SECRET'', ''s''), (''OUTBOX_BATCH_SIZE'', ''50 rows''), (''PORT'', []),
      (''MERCHANT_SERVICE_URL'', ''http://merchant''), (''IDEMPOTENCY_SERVICE_URL'', ''http://idem''),
      (''PAYMENT_SERVICE_URL'', ''http://pay'')]"

lemma process_holds_refl: "process_holds env v env"
  by (auto simp: process_holds_def holds_def list_all_iff)

lemma example_valid:
  obtains v where "validate (\<lambda>s. s \<noteq> []) example_env = Inr v" "OUTBOX_BATCH_SIZE (e_outbox v) = 50"
    "kf_brokers (kafka_settings (e_kafka v)) = [''k1:9092'', ''k2:9092'']"
proof -
  have "acceptable (\<lambda>s. s \<noteq> []) example_env" by code_simp
  then obtain v where v: "environmentSchema (\<lambda>s. s \<noteq> []) example_env = Some v" using environment_ex by blast
  note d = environmentSchemaD [OF v]
  have "z_int_default 1 100 (example_env ''OUTBOX_BATCH_SIZE'') = Some 50" by code_simp
  then have b: "OUTBOX_BATCH_SIZE (e_outbox v) = 50" using outboxSchemaD(2) [OF d(9)] by simp
  have "map js_trim (js_split (CHR '','') (the (example_env ''KAFKA_BROKERS''))) = [''k1:9092'', ''k2:9092'']" by code_simp
  then have k: "kf_brokers (kafka_settings (e_kafka v)) = [''k1:9092'', ''k2:9092'']"
    using kafkaSchemaD(1) [OF d(3)] by (simp add: kafka_settings_def)
  show thesis by (rule that [OF _ b k]) (simp add: validate_def v)
qed

section \<open>Properties\<close>

text \<open>
  C25. What start-up accepts: exactly the environments with valid URLs, non-empty values for the three
  required texts, known \<open>NODE_ENV\<close> and \<open>LOG_LEVEL\<close>, and numbers whose leading digits are in range;
  any other environment stops the service with one error. An empty or missing number is its default.
\<close>

theorem validate_accepts:
  "validate is_url env = Inl (JsError ''Error'' [Lit ''Environment validation failed'']) \<longleftrightarrow> \<not> acceptable is_url env"
  unfolding validate_def using environment_ex [of is_url env] by (auto split: option.split)

text \<open>
  C23. The loaders read the same environment a second time, with code of their own. For every accepted
  environment they find exactly the validated values, no number is \<open>NaN\<close>, and an empty text is replaced
  by its default; the URL of the fraud service alone is read without validation.
\<close>

theorem loaders_match_schemas:
  assumes "validate is_url env = Inr v" "process_holds env v env'"
  shows "databaseConfig env' = database_settings (e_database v) \<and> redisConfig env' = redis_settings (e_redis v) \<and>
    kafkaConfig env' = kafka_settings (e_kafka v) \<and> httpConfig env' = http_settings (e_http v) \<and>
    loggingConfig env' = logging_settings (e_logging v) \<and>
    telemetryConfig env' = telemetry_settings (LOG_SERVICE_NAME (e_logging v)) (e_telemetry v) \<and>
    securityConfig env' = security_settings (e_security v) \<and>
    servicesConfig env' = services_settings_of (str_or (env' ''FRAUD_SERVICE_URL'') ''http://localhost:3008'') (e_services v) \<and>
    outboxConfig env' = outbox_settings (e_outbox v)"
  using loaded [OF assms] by simp

theorem loaders_match_schemas_witness:
  "\<exists>v. validate (\<lambda>s. s \<noteq> []) example_env = Inr v \<and> process_holds example_env v example_env \<and>
     kf_brokers (kafkaConfig example_env) = [''k1:9092'', ''k2:9092''] \<and> oc_batchSize (outboxConfig example_env) = js_int 50"
proof -
  obtain v where v: "validate (\<lambda>s. s \<noteq> []) example_env = Inr v" "OUTBOX_BATCH_SIZE (e_outbox v) = 50"
    "kf_brokers (kafka_settings (e_kafka v)) = [''k1:9092'', ''k2:9092'']"
    by (rule example_valid)
  from loaders_match_schemas [OF v(1) process_holds_refl] v process_holds_refl show ?thesis
    by (auto simp: outbox_settings_def)
qed

text \<open>
  C24. Every service that starts runs within its bounds: the internal clients exist for all services, with a URL and a
  positive timeout; the relay's limits are positive, so whatever relays do its invariant holds; the
  gateway's rate limiter has a positive limit and window.
\<close>

theorem settings_in_bounds:
  assumes "validate is_url env = Inr v" "process_holds env v env'" "getGatewayConfig is_url env' = Inr g"
    and "(relay_step (relay_settings (outboxConfig env')))\<^sup>*\<^sup>* relay_init st"
  shows "(\<exists>c. build_client (servicesConfig env') service = Inr c \<and> hc_baseURL c \<noteq> [] \<and> 0 < hc_timeout c) \<and>
    0 < rl_batchSize (relay_settings (outboxConfig env')) \<and> 0 < rl_maxInFlight (relay_settings (outboxConfig env')) \<and>
    0 < rl_staleTimeoutMs (relay_settings (outboxConfig env')) \<and> relay_ok (relay_settings (outboxConfig env')) st \<and>
    rl_config_ok (gateway_rate_limit g)"
proof -
  note e = environmentSchemaD [OF validateD [OF assms(1)]] and l = loaded [OF assms(1,2)]
  let ?r = "relay_settings (outboxConfig env')"
  have r: "0 < rl_batchSize ?r" "0 < rl_maxInFlight ?r" "0 < rl_staleTimeoutMs ?r" "0 < rl_retryLimit ?r"
    using outbox_positive [OF e(9)] by (simp_all add: l(9) relay_settings_def outbox_settings_def)
  have "relay_ok ?r st" by (rule relay_ok_reachable [OF assms(4) relay_ok_init r(4)])
  moreover have "\<exists>c. build_client (servicesConfig env') service = Inr c \<and> hc_baseURL c \<noteq> [] \<and> 0 < hc_timeout c"
    using build_client_ok [of "str_or (env' ''FRAUD_SERVICE_URL'') ''http://localhost:3008''" "e_services v" service]
      services_bounds(1) [OF e(8)]
    by (auto simp: l(8) str_or_nonempty)
  ultimately show ?thesis using r gateway_rate_limit_ok [OF assms(3)] by simp
qed

theorem settings_in_bounds_witness:
  "\<exists>v g. validate (\<lambda>s. s \<noteq> []) example_env = Inr v \<and> process_holds example_env v example_env \<and>
     getGatewayConfig (\<lambda>s. s \<noteq> []) example_env = Inr g \<and> rl_config_ok (gateway_rate_limit g) \<and>
     relay_ok (relay_settings (outboxConfig example_env)) relay_init"
proof -
  obtain v where v: "validate (\<lambda>s. s \<noteq> []) example_env = Inr v"
    by (rule example_valid)
  have "gatewayConfigSchema (\<lambda>s. s \<noteq> []) example_env \<noteq> None" by code_simp
  then obtain g where g: "getGatewayConfig (\<lambda>s. s \<noteq> []) example_env = Inr g" by (auto simp: getGatewayConfig_def)
  from settings_in_bounds [OF v process_holds_refl g rtranclp.rtrancl_refl] v g process_holds_refl show ?thesis by blast
qed

text \<open>The lifetime of idempotency keys is not validated: a text that is no number makes every lock fail.\<close>

lemma bad_ttl_refuses_all:
  assumes "env ''IDEMPOTENCY_TTL_HOURS'' = Some s" "s \<noteq> []" "js_parseInt s = NaN"
  shows "Redis_createInProgress iso_of now m k h w (ic_ttlHours (idempotencyConfig env)) st = Inl invalid_time"
  using assms by (simp add: Redis_createInProgress_def idempotencyConfig_def record_times_def)

end
