(* ===== verification/Health.thy ===== *)
theory Health
  imports Config "HOL-Library.AList"
begin

text \<open>
  The health endpoints (\<open>packages/common/src/health\<close>) and the database ping of \<open>packages/database\<close>: the
  indicators for configuration, database, Redis and Kafka, the service that runs those the running
  service depends on, and the controller. What the outside answers is in \<open>health_ctx\<close>: the database
  client's check, the outcome of opening and pinging Redis, the brokers of the Kafka cluster, and
  \<open>getStatus\<close> of the health-check library. The Redis indicator keeps its client between checks; a
  failed check starts a clean-up that ends later, as a step of its own. Logging is left out, and so
  are services named like a member of every JavaScript object.
\<close>

section \<open>The database ping\<close>

text \<open>The two query functions a client may have, each with the outcome of \<open>SELECT 1\<close>.\<close>

definition db_ping :: "(exn + unit) option \<Rightarrow> (exn + unit) option \<Rightarrow> bool" where
  "db_ping queryRawUnsafe queryRaw =
     (case queryRawUnsafe of
        Some r \<Rightarrow> (case r of Inl e \<Rightarrow> False | Inr u \<Rightarrow> True)
      | None \<Rightarrow> (case queryRaw of Some r \<Rightarrow> (case r of Inl e \<Rightarrow> False | Inr u \<Rightarrow> True) | None \<Rightarrow> False))"

definition isConnected :: "(exn + unit) option \<Rightarrow> (exn + unit) option \<Rightarrow> bool" where
  "isConnected queryRawUnsafe queryRaw = db_ping queryRawUnsafe queryRaw"

section \<open>Indicators\<close>

text \<open>The statuses an indicator reports, by key.\<close>

type_synonym indicator_result = "(string \<times> string) list"

definition health_error :: "string \<Rightarrow> exn" where
  "health_error msg = JsError ''HealthCheckError'' [Lit msg]"

record redis_options =
  ro_url :: string
  ro_password :: "string option"
  ro_tls :: bool

text \<open>The client the Redis indicator holds, and how many of its clean-ups have not ended.\<close>

record redis_health =
  rh_client :: "redis_options option"
  rh_cleanups :: nat

record health_ctx =
  hl_env :: process_env
  hl_getStatus :: "string \<Rightarrow> bool \<Rightarrow> indicator_result"
  hl_db :: "(exn + bool) option"
  hl_create :: "redis_options \<Rightarrow> exn option"
  hl_ping :: "redis_options \<Rightarrow> exn + string"
  hl_cluster :: "exn + nat"

definition config_isHealthy :: "health_ctx \<Rightarrow> string \<Rightarrow> exn + indicator_result" where
  "config_isHealthy ctx key =
     (let env = hl_env ctx;
          down = Inl (health_error ''Configuration check failed'');
          serviceName = str_or (env ''SERVICE_NAME'') (lg_serviceName (loggingConfig env))
      in if serviceName = [] then down
         else if str_or (env ''PORT'') [] = [] then down
         else if serviceName = ''merchant-service'' \<and> str_or (env ''DATABASE_URL'') [] = [] then down
         else if serviceName = ''idempotency-service'' \<and> str_or (env ''REDIS_URL'') [] = [] then down
         else Inr (hl_getStatus ctx key True))"

definition db_isConfigured :: "health_ctx \<Rightarrow> bool" where
  "db_isConfigured ctx \<longleftrightarrow> hl_db ctx \<noteq> None"

definition db_isHealthy :: "health_ctx \<Rightarrow> string \<Rightarrow> exn + indicator_result" where
  "db_isHealthy ctx key =
     (case hl_db ctx of
        None \<Rightarrow> Inl (JsError ''Error'' [Lit ''Database client is not configured''])
      | Some r \<Rightarrow> (case r of
            Inr active \<Rightarrow> if active then Inr (hl_getStatus ctx key True) else Inl (health_error ''Database health check failed'')
          | Inl e \<Rightarrow> Inl (health_error ''Database health check failed'')))"

text \<open>\<open>cleanupClient\<close> does nothing without a client; its end forgets whatever client is then held.\<close>

definition cleanup_starts :: "redis_health \<Rightarrow> redis_health" where
  "cleanup_starts st = (if rh_client st = None then st else st\<lparr>rh_cleanups := Suc (rh_cleanups st)\<rparr>)"

definition cleanup_ends :: "redis_health \<Rightarrow> redis_health" where
  "cleanup_ends st = (if rh_cleanups st = 0 then st else st\<lparr>rh_client := None, rh_cleanups := rh_cleanups st - 1\<rparr>)"

definition redis_options_of :: "redis_config \<Rightarrow> redis_options" where
  "redis_options_of c = \<lparr>ro_url = str_or (rd_url c) [], ro_password = str_or_opt (rd_password c) None, ro_tls = rd_tls c\<rparr>"

definition redis_connect :: "health_ctx \<Rightarrow> (redis_health, exn, redis_options) proc" where
  "redis_connect ctx = (\<lambda>st.
     let c = redisConfig (hl_env ctx)
     in if str_or (rd_url c) [] = [] then (Inl (JsError ''Error'' [Lit ''Redis configuration is missing URL'']), st)
        else case rh_client st of
            Some client \<Rightarrow> (Inr client, st)
          | None \<Rightarrow> (case hl_create ctx (redis_options_of c) of
                Some e \<Rightarrow> (Inl e, st)
              | None \<Rightarrow> (Inr (redis_options_of c), st\<lparr>rh_client := Some (redis_options_of c)\<rparr>)))"

definition redis_isHealthy :: "health_ctx \<Rightarrow> string \<Rightarrow> (redis_health, exn, indicator_result) proc" where
  "redis_isHealthy ctx key =
     pcatch
       (pbind (redis_connect ctx) (\<lambda>client st.
          case hl_ping ctx client of
            Inl e \<Rightarrow> (Inl e, st)
          | Inr pong \<Rightarrow>
              if pong = ''PONG'' then (Inr (hl_getStatus ctx key True), st)
              else (Inl (JsError ''Error'' [Lit (''Redis ping returned unexpected result: '' @ pong)]), st)))
       (\<lambda>e st. (Inl (health_error ''Redis health check failed''), cleanup_starts st))"

definition kafka_isHealthy :: "health_ctx \<Rightarrow> string \<Rightarrow> exn + indicator_result" where
  "kafka_isHealthy ctx key =
     (if kf_brokers (kafkaConfig (hl_env ctx)) = [] then Inl (health_error ''Kafka health check failed'')
      else case hl_cluster ctx of
          Inl e \<Rightarrow> Inl (health_error ''Kafka health check failed'')
        | Inr brokers \<Rightarrow> if brokers = 0 then Inl (health_error ''Kafka health check failed'') else Inr (hl_getStatus ctx key True))"

section \<open>The health service\<close>

datatype health_status = H_UP | H_DOWN | H_FAILED

fun health_str :: "health_status \<Rightarrow> string" where
  "health_str H_UP = ''UP''"
| "health_str H_DOWN = ''DOWN''"
| "health_str H_FAILED = ''FAILED''"

type_synonym checks = "(string \<times> health_status) list"

record readiness =
  rn_status :: health_status
  rn_checks :: checks

definition health_service_name :: "health_ctx \<Rightarrow> string" where
  "health_service_name ctx =
     str_or (str_or_opt (hl_env ctx ''SERVICE_NAME'') (Some (lg_serviceName (loggingConfig (hl_env ctx))))) ''unknown-service''"

definition service_dependencies :: "string \<Rightarrow> string list" where
  "service_dependencies name =
     (if name = ''merchant-service'' then [''database'', ''configuration'']
      else if name = ''idempotency-service'' then [''redis'', ''configuration'']
      else [''configuration''])"

type_synonym indicator = "string \<times> (redis_health, exn, indicator_result) proc"

definition stateless :: "exn + 'a \<Rightarrow> ('s, exn, 'a) proc" where
  "stateless r = (\<lambda>st. (r, st))"

definition indicators :: "health_ctx \<Rightarrow> string list \<Rightarrow> indicator list" where
  "indicators ctx deps =
     (if ''database'' \<in> set deps \<and> db_isConfigured ctx then [(''database'', stateless (db_isHealthy ctx ''database''))] else []) @
     (if ''redis'' \<in> set deps then [(''redis'', redis_isHealthy ctx ''redis'')] else []) @
     (if ''kafka'' \<in> set deps then [(''kafka'', stateless (kafka_isHealthy ctx ''kafka''))] else []) @
     (if ''configuration'' \<in> set deps then [(''configuration'', stateless (config_isHealthy ctx ''configuration''))] else [])"

fun run_indicators :: "indicator list \<Rightarrow> readiness \<Rightarrow> redis_health \<Rightarrow> readiness \<times> redis_health" where
  "run_indicators [] r st = (r, st)"
| "run_indicators ((key, check) # rest) r st =
     (case check st of
        (Inr res, st') \<Rightarrow>
          (let status = (if map_of res key = Some ''up'' then H_UP else H_DOWN)
           in run_indicators rest
                \<lparr>rn_status = (if status = H_DOWN then H_DOWN else rn_status r), rn_checks = AList.update key status (rn_checks r)\<rparr> st')
      | (Inl e, st') \<Rightarrow>
          run_indicators rest \<lparr>rn_status = H_DOWN, rn_checks = AList.update key H_DOWN (rn_checks r)\<rparr> st')"

definition checkReadiness :: "health_ctx \<Rightarrow> redis_health \<Rightarrow> readiness \<times> redis_health" where
  "checkReadiness ctx st =
     run_indicators (indicators ctx (service_dependencies (health_service_name ctx)))
       \<lparr>rn_status = H_UP, rn_checks = [(''application'', H_UP)]\<rparr> st"

section \<open>The controller\<close>

definition checks_json :: "checks \<Rightarrow> json" where
  "checks_json cs = JObj (map (\<lambda>(k, s). (k, JStr (health_str s))) cs)"

definition health_code :: "health_status \<Rightarrow> nat" where
  "health_code s = (if s = H_UP then 200 else 503)"

definition getLive :: "nat \<times> json" where
  "getLive = (200, JObj [(''status'', JStr (health_str H_UP))])"

definition getReady :: "health_ctx \<Rightarrow> redis_health \<Rightarrow> (nat \<times> json) \<times> redis_health" where
  "getReady ctx st =
     (let (r, st') = checkReadiness ctx st
      in ((health_code (rn_status r),
           JObj [(''status'', JStr (health_str (rn_status r))), (''checks'', checks_json (rn_checks r))]), st'))"

definition getOverall :: "health_ctx \<Rightarrow> string \<Rightarrow> redis_health \<Rightarrow> (nat \<times> json) \<times> redis_health" where
  "getOverall ctx timestamp st =
     (let (r, st') = checkReadiness ctx st
      in ((health_code (rn_status r),
           JObj [(''status'', JStr (health_str (rn_status r))), (''service'', JStr (health_service_name ctx)),
                 (''timestamp'', JStr timestamp), (''checks'', checks_json (rn_checks r))]), st'))"

section \<open>What an answer means\<close>

text \<open>The documented result of \<open>getStatus\<close>.\<close>

definition reports_status :: "(string \<Rightarrow> bool \<Rightarrow> indicator_result) \<Rightarrow> bool" where
  "reports_status f \<longleftrightarrow> (\<forall>key b. map_of (f key b) key = Some (if b then ''up'' else ''down''))"

definition env_set :: "process_env \<Rightarrow> string \<Rightarrow> bool" where
  "env_set env k \<longleftrightarrow> str_or (env k) [] \<noteq> []"

definition redis_answers :: "health_ctx \<Rightarrow> redis_health \<Rightarrow> bool" where
  "redis_answers ctx st \<longleftrightarrow>
     env_set (hl_env ctx) ''REDIS_URL'' \<and>
     (let new = redis_options_of (redisConfig (hl_env ctx))
      in case rh_client st of
           Some c \<Rightarrow> hl_ping ctx c = Inr ''PONG''
         | None \<Rightarrow> hl_create ctx new = None \<and> hl_ping ctx new = Inr ''PONG'')"

text \<open>The specification of readiness, by the service that runs.\<close>

definition ready :: "health_ctx \<Rightarrow> redis_health \<Rightarrow> bool" where
  "ready ctx st \<longleftrightarrow>
     env_set (hl_env ctx) ''PORT'' \<and>
     (if health_service_name ctx = ''merchant-service''
      then env_set (hl_env ctx) ''DATABASE_URL'' \<and> (case hl_db ctx of None \<Rightarrow> True | Some r \<Rightarrow> r = Inr True)
      else if health_service_name ctx = ''idempotency-service'' then redis_answers ctx st
      else True)"

lemma health_service_name_eq:
  "health_service_name ctx = str_or (hl_env ctx ''SERVICE_NAME'') (lg_serviceName (loggingConfig (hl_env ctx)))"
  "health_service_name ctx \<noteq> []"
proof -
  have "lg_serviceName (loggingConfig (hl_env ctx)) \<noteq> []" by (simp add: loggingConfig_def str_or_nonempty)
  then show "health_service_name ctx = str_or (hl_env ctx ''SERVICE_NAME'') (lg_serviceName (loggingConfig (hl_env ctx)))"
    by (auto simp: health_service_name_def str_or_opt_def str_or_def split: option.split)
  show "health_service_name ctx \<noteq> []" by (simp add: health_service_name_def str_or_nonempty)
qed

text \<open>Whether an indicator counts as up, and what it leaves of the Redis client.\<close>

definition is_up :: "indicator \<Rightarrow> redis_health \<Rightarrow> bool" where
  "is_up i st = (case fst (snd i st) of Inr res \<Rightarrow> map_of res (fst i) = Some ''up'' | Inl e \<Rightarrow> False)"

lemma run_indicators_Cons:
  "run_indicators (i # rest) r st =
     run_indicators rest
       \<lparr>rn_status = (if is_up i st then rn_status r else H_DOWN),
        rn_checks = AList.update (fst i) (if is_up i st then H_UP else H_DOWN) (rn_checks r)\<rparr> (snd (snd i st))"
  by (cases i; cases "snd i st") (auto simp: is_up_def Let_def split: sum.split)

lemma config_up:
  assumes "reports_status (hl_getStatus ctx)"
  shows "is_up (''configuration'', stateless (config_isHealthy ctx ''configuration'')) st \<longleftrightarrow>
    env_set (hl_env ctx) ''PORT'' \<and>
    (health_service_name ctx = ''merchant-service'' \<longrightarrow> env_set (hl_env ctx) ''DATABASE_URL'') \<and>
    (health_service_name ctx = ''idempotency-service'' \<longrightarrow> env_set (hl_env ctx) ''REDIS_URL'')"
  using assms health_service_name_eq [of ctx]
  by (auto simp: is_up_def stateless_def config_isHealthy_def env_set_def Let_def reports_status_def split: if_splits)

lemma db_up:
  assumes "reports_status (hl_getStatus ctx)"
  shows "is_up (''database'', stateless (db_isHealthy ctx ''database'')) st \<longleftrightarrow> hl_db ctx = Some (Inr True)"
  using assms by (auto simp: is_up_def stateless_def db_isHealthy_def reports_status_def split: option.split sum.split)

lemma redis_up:
  assumes "reports_status (hl_getStatus ctx)"
  shows "is_up (''redis'', redis_isHealthy ctx ''redis'') st \<longleftrightarrow> redis_answers ctx st"
proof (cases "env_set (hl_env ctx) ''REDIS_URL''")
  case False
  then show ?thesis
    by (simp add: is_up_def redis_isHealthy_def redis_connect_def redis_answers_def env_set_def redisConfig_def pbind_def pcatch_def)
next
  case True
  then show ?thesis
    using assms
    by (simp add: is_up_def redis_isHealthy_def redis_connect_def redis_answers_def env_set_def redisConfig_def pbind_def
        pcatch_def Let_def reports_status_def split: option.split sum.split)
qed

lemma readiness_status:
  assumes "reports_status (hl_getStatus ctx)"
  shows "rn_status (fst (checkReadiness ctx st)) = (if ready ctx st then H_UP else H_DOWN)"
proof -
  note up = config_up [OF assms] db_up [OF assms] redis_up [OF assms]
  show ?thesis
    by (auto simp: checkReadiness_def indicators_def service_dependencies_def db_isConfigured_def run_indicators_Cons up
        ready_def redis_answers_def split: option.split)
qed

text \<open>The overall status is that of the checks.\<close>

lemma update_new: "k \<notin> set (map fst cs) \<Longrightarrow> AList.update k v cs = cs @ [(k, v)]"
  by (induction cs) auto

definition all_up :: "checks \<Rightarrow> bool" where
  "all_up cs \<longleftrightarrow> list_all (\<lambda>(k, s). s = H_UP) cs"

definition consistent :: "readiness \<Rightarrow> bool" where
  "consistent r \<longleftrightarrow> rn_status r = (if all_up (rn_checks r) then H_UP else H_DOWN)"

lemma run_consistent:
  assumes "consistent r" "distinct (map fst (rn_checks r) @ map fst is)"
  shows "consistent (fst (run_indicators is r st)) \<and>
    map fst (rn_checks (fst (run_indicators is r st))) = map fst (rn_checks r) @ map fst is"
  using assms
proof (induction "is" arbitrary: r st)
  case Nil
  then show ?case by simp
next
  case (Cons i rest)
  let ?r = "\<lparr>rn_status = (if is_up i st then rn_status r else H_DOWN),
        rn_checks = rn_checks r @ [(fst i, if is_up i st then H_UP else H_DOWN)]\<rparr>"
  have new: "AList.update (fst i) v (rn_checks r) = rn_checks r @ [(fst i, v)]" for v
    using Cons.prems(2) by (intro update_new) auto
  have "consistent ?r" using Cons.prems(1) by (auto simp: consistent_def all_up_def split: if_splits)
  moreover have "distinct (map fst (rn_checks ?r) @ map fst rest)" using Cons.prems(2) by auto
  ultimately show ?case using Cons.IH [of ?r "snd (snd i st)"] by (simp add: run_indicators_Cons new)
qed

lemma readiness_consistent:
  "consistent (fst (checkReadiness ctx st)) \<and>
   map fst (rn_checks (fst (checkReadiness ctx st))) =
     ''application'' # map fst (indicators ctx (service_dependencies (health_service_name ctx)))"
proof -
  let ?is = "indicators ctx (service_dependencies (health_service_name ctx))"
  have "distinct (map fst [(''application'', H_UP)] @ map fst ?is)" by (auto simp: indicators_def)
  then show ?thesis
    using run_consistent [of "\<lparr>rn_status = H_UP, rn_checks = [(''application'', H_UP)]\<rparr>" ?is st]
    by (simp add: checkReadiness_def consistent_def all_up_def)
qed

section \<open>Properties\<close>

text \<open>
  C26. Readiness, exactly: 200 when \<open>PORT\<close> is set and, for the merchant service, \<open>DATABASE_URL\<close> is set and the database
  (if a client is configured) answers its ping, for the idempotency service, Redis answers \<open>PONG\<close>; else 503. The
  gateway, the payment and the order service are thus ready whatever state their database, Redis and
  Kafka are in. Both endpoints give the same code, the status is \<open>UP\<close> exactly when every check is, and the
  checks are those of the service's dependencies.
\<close>

theorem readiness_exact:
  assumes "reports_status (hl_getStatus ctx)"
  shows "fst (fst (getReady ctx st)) = (if ready ctx st then 200 else 503) \<and>
    fst (fst (getOverall ctx timestamp st)) = fst (fst (getReady ctx st)) \<and>
    snd (getReady ctx st) = snd (getOverall ctx timestamp st) \<and>
    (\<exists>cs. snd (fst (getReady ctx st)) =
       JObj [(''status'', JStr (if all_up cs then ''UP'' else ''DOWN'')), (''checks'', checks_json cs)] \<and>
       map fst cs = ''application'' # map fst (indicators ctx (service_dependencies (health_service_name ctx))))"
proof -
  obtain r st' where r: "checkReadiness ctx st = (r, st')" by (cases "checkReadiness ctx st")
  have s: "rn_status r = (if ready ctx st then H_UP else H_DOWN)" using readiness_status [OF assms, of st] r by simp
  have c: "rn_status r = (if all_up (rn_checks r) then H_UP else H_DOWN)"
    "map fst (rn_checks r) = ''application'' # map fst (indicators ctx (service_dependencies (health_service_name ctx)))"
    using readiness_consistent [of ctx st] r by (simp_all add: consistent_def)
  have "\<exists>cs. snd (fst (getReady ctx st)) =
       JObj [(''status'', JStr (if all_up cs then ''UP'' else ''DOWN'')), (''checks'', checks_json cs)] \<and>
       map fst cs = ''application'' # map fst (indicators ctx (service_dependencies (health_service_name ctx)))"
    by (rule exI [of _ "rn_checks r"]) (use c in \<open>simp add: getReady_def r\<close>)
  then show ?thesis using s by (simp add: getReady_def getOverall_def health_code_def r)
qed

text \<open>A payment service whose database, Redis and Kafka are all unreachable.\<close>

definition example_health :: health_ctx where
  "example_health =
     \<lparr>hl_env = map_of [(''SERVICE_NAME'', ''payment-service''), (''PORT'', ''3003'')],
      hl_getStatus = (\<lambda>key b. [(key, if b then ''up'' else ''down'')]),
      hl_db = Some (Inr (isConnected (Some (Inl (PrismaError ''P1001'' []))) None)),
      hl_create = (\<lambda>c. None), hl_ping = (\<lambda>c. Inl (JsError ''Error'' [])), hl_cluster = Inl (JsError ''Error'' [])\<rparr>"

theorem readiness_exact_witness:
  "fst (fst (getReady example_health \<lparr>rh_client = None, rh_cleanups = 0\<rparr>)) = (200 :: nat) \<and>
   hl_db example_health = Some (Inr False)"
proof -
  have "reports_status (hl_getStatus example_health)" by (simp add: reports_status_def example_health_def)
  moreover have "ready example_health \<lparr>rh_client = None, rh_cleanups = 0\<rparr>"
    by (simp add: ready_def env_set_def health_service_name_eq example_health_def)
  moreover have "hl_db example_health = Some (Inr False)" by (simp add: example_health_def isConnected_def db_ping_def)
  ultimately show ?thesis using readiness_exact [of example_health "\<lparr>rh_client = None, rh_cleanups = 0\<rparr>" "[]"] by simp
qed

text \<open>
  Clean-ups end late. When two checks fail before the first clean-up ends, the clean-up of the second
  forgets the client that a later, successful check has opened: that connection is never closed.
\<close>

lemma late_cleanup_forgets_client:
  assumes "rh_client st = Some c" "rh_cleanups st = 0" "env_set (hl_env down) ''REDIS_URL''" "hl_env back = hl_env down"
    and "\<forall>c. hl_ping down c = Inl e" "\<forall>c. hl_create back c = None \<and> hl_ping back c = Inr ''PONG''"
  shows "let st2 = snd (redis_isHealthy down k (snd (redis_isHealthy down k st)));
             (r, st3) = redis_isHealthy back k (cleanup_ends st2)
         in r = Inr (hl_getStatus back k True) \<and> rh_client st3 \<noteq> None \<and> rh_client (cleanup_ends st3) = None"
  using assms
  by (simp add: redis_isHealthy_def redis_connect_def env_set_def redisConfig_def pbind_def pcatch_def cleanup_starts_def
      cleanup_ends_def Let_def)

end
