(* ===== verification/Database.thy ===== *)
theory Database
  imports Config
begin

text \<open>
  The database package (\<open>packages/database\<close>): the connection URL with its pool parameters, the factory
  that hands out one client per service, and the shutdown that disconnects them. Parsing and printing
  a URL and a number are JavaScript's, given by \<open>url_api\<close>: a parsed URL is its base and its list of query
  parameters. A client is a number, new for every constructor call, and the options it was built with. The registry holds the
  module's three stores and, as a ghost, the clients that were disconnected.
\<close>

section \<open>The connection URL\<close>

type_synonym url = "string \<times> (string \<times> string) list"

record url_api =
  ua_parse :: "string \<Rightarrow> url option"
  ua_print :: "url \<Rightarrow> string"
  ua_number :: "jsnum \<Rightarrow> string"

record pool_config =
  pc_connectionLimit :: "jsnum option"
  pc_poolTimeout :: "jsnum option"
  pc_socketTimeout :: "jsnum option"
  pc_schema :: "string option"

definition has_param :: "string \<Rightarrow> url \<Rightarrow> bool" where
  "has_param k u \<longleftrightarrow> k \<in> set (map fst (snd u))"

text \<open>\<open>searchParams.set\<close>: the first parameter of the name gets the value and the others are removed.\<close>

fun set_first :: "string \<Rightarrow> string \<Rightarrow> (string \<times> string) list \<Rightarrow> (string \<times> string) list" where
  "set_first k v [] = [(k, v)]"
| "set_first k v ((k', v') # ps) = (if k' = k then (k, v) # filter (\<lambda>p. fst p \<noteq> k) ps else (k', v') # set_first k v ps)"

definition set_param :: "string \<Rightarrow> string \<Rightarrow> url \<Rightarrow> url" where
  "set_param k v u = (fst u, set_first k v (snd u))"

definition add_param :: "string \<Rightarrow> string option \<Rightarrow> url \<Rightarrow> url" where
  "add_param k v u = (case v of None \<Rightarrow> u | Some x \<Rightarrow> if has_param k u then u else set_param k x u)"

definition buildDatabaseUrl :: "url_api \<Rightarrow> string \<Rightarrow> pool_config \<Rightarrow> string" where
  "buildDatabaseUrl api baseUrl config =
     (case ua_parse api baseUrl of
        None \<Rightarrow> baseUrl
      | Some u \<Rightarrow>
          ua_print api
            (add_param ''schema'' (pc_schema config)
               (add_param ''socket_timeout'' (map_option (ua_number api) (pc_socketTimeout config))
                  (add_param ''pool_timeout'' (map_option (ua_number api) (pc_poolTimeout config))
                     (add_param ''connection_limit'' (map_option (ua_number api) (pc_connectionLimit config)) u)))))"

section \<open>The factory\<close>

record factory_options =
  fo_connectionLimit :: "jsnum option"
  fo_poolTimeout :: "jsnum option"
  fo_socketTimeout :: "jsnum option"
  fo_logQueries :: "bool option"

record prisma_options =
  po_url :: string
  po_log :: "string list"

record db_client =
  cl_id :: nat
  cl_options :: prisma_options

record registry_state =
  pr_global :: "string \<Rightarrow> db_client option"
  pr_cache :: "string \<Rightarrow> db_client option"
  pr_active :: "db_client list"
  pr_next :: nat
  pr_disconnected :: "db_client set"

text \<open>\<open>a ?? b\<close> on values that may be undefined, and division of a parsed number by 1000.\<close>

definition nullish :: "'a option \<Rightarrow> 'a option \<Rightarrow> 'a option" where
  "nullish a b = (case a of None \<Rightarrow> b | Some x \<Rightarrow> Some x)"

definition per_1000 :: "jsnum \<Rightarrow> jsnum" where
  "per_1000 x = (case x of Fin q \<Rightarrow> Fin (q / 1000) | y \<Rightarrow> y)"

definition pool_of :: "process_env \<Rightarrow> string \<Rightarrow> factory_options \<Rightarrow> pool_config" where
  "pool_of env name opts =
     \<lparr>pc_connectionLimit = nullish (fo_connectionLimit opts)
        (nullish (pre_int (env ''DATABASE_CONNECTION_LIMIT'')) (pre_int (env ''DATABASE_POOL_SIZE''))),
      pc_poolTimeout = nullish (fo_poolTimeout opts)
        (nullish (pre_int (env ''DATABASE_POOL_TIMEOUT'')) (map_option per_1000 (pre_int (env ''DATABASE_CONNECT_TIMEOUT'')))),
      pc_socketTimeout = nullish (fo_socketTimeout opts) (map_option per_1000 (pre_int (env ''DATABASE_IDLE_TIMEOUT''))),
      pc_schema = Some name\<rparr>"

definition prisma_options_of :: "process_env \<Rightarrow> string \<Rightarrow> factory_options \<Rightarrow> prisma_options" where
  "prisma_options_of env finalUrl opts =
     \<lparr>po_url = finalUrl,
      po_log = (if (case fo_logQueries opts of None \<Rightarrow> env ''NODE_ENV'' = Some ''development'' | Some b \<Rightarrow> b)
                then [''query'', ''info'', ''warn'', ''error''] else [''error''])\<rparr>"

text \<open>\<open>new ClientConstructor(prismaOptions)\<close>, with the push to the list of active clients.\<close>

definition new_client :: "prisma_options \<Rightarrow> registry_state \<Rightarrow> db_client \<times> registry_state" where
  "new_client opts st =
     (let c = \<lparr>cl_id = pr_next st, cl_options = opts\<rparr>
      in (c, st\<lparr>pr_next := Suc (pr_next st), pr_active := pr_active st @ [c]\<rparr>))"

definition getOrCreatePrismaClient ::
  "url_api \<Rightarrow> process_env \<Rightarrow> string \<Rightarrow> factory_options \<Rightarrow> (registry_state, exn, db_client) proc" where
  "getOrCreatePrismaClient api env name opts = (\<lambda>st.
     let databaseUrl = str_or (env ''DATABASE_URL'') []
     in if databaseUrl = [] then (Inl (JsError ''Error'' [Lit ''DATABASE_URL environment variable is not defined'']), st)
        else let finalUrl = buildDatabaseUrl api databaseUrl (pool_of env name opts);
                 prismaOptions = prisma_options_of env finalUrl opts;
                 cacheKey = name @ ''_'' @ finalUrl;
                 globalKey = ''__prisma_client_'' @ name @ ''__''
             in if env ''NODE_ENV'' = Some ''production''
                then case pr_cache st cacheKey of
                    Some c \<Rightarrow> (Inr c, st)
                  | None \<Rightarrow> (let (c, st') = new_client prismaOptions st
                             in (Inr c, st'\<lparr>pr_cache := (pr_cache st')(cacheKey \<mapsto> c)\<rparr>))
                else case pr_global st globalKey of
                    Some c \<Rightarrow> (Inr c, st)
                  | None \<Rightarrow> (let (c, st') = new_client prismaOptions st
                             in (Inr c, st'\<lparr>pr_global := (pr_global st')(globalKey \<mapsto> c)\<rparr>)))"

text \<open>
  \<open>disconnectAll\<close>: the clients active at the call are disconnected, errors of single clients suppressed; when
  all these promises are done, list and cache are emptied, whatever was added meanwhile. The global store is
  not touched. \<open>disconnectAll\<close> is both steps with nothing in between.
\<close>

definition disconnect_begin :: "registry_state \<Rightarrow> registry_state" where
  "disconnect_begin st = st\<lparr>pr_disconnected := pr_disconnected st \<union> set (pr_active st)\<rparr>"

definition disconnect_end :: "registry_state \<Rightarrow> registry_state" where
  "disconnect_end st = st\<lparr>pr_active := [], pr_cache := Map.empty\<rparr>"

definition disconnectAll :: "registry_state \<Rightarrow> registry_state" where
  "disconnectAll st = disconnect_end (disconnect_begin st)"

lemma disconnectAll_state:
  "disconnectAll st = st\<lparr>pr_disconnected := pr_disconnected st \<union> set (pr_active st), pr_active := [], pr_cache := Map.empty\<rparr>"
  by (simp add: disconnectAll_def disconnect_begin_def disconnect_end_def)

text \<open>\<open>isPrismaError\<close>.\<close>

definition isPrismaError :: "json option \<Rightarrow> bool" where
  "isPrismaError error =
     (case error of
        None \<Rightarrow> False
      | Some e \<Rightarrow> e \<noteq> JNull \<and> typeof_object e \<and>
          (case jget e ''code'' of Some (JStr c) \<Rightarrow> True | _ \<Rightarrow> False) \<and>
          (case jget e ''clientVersion'' of Some (JStr c) \<Rightarrow> True | _ \<Rightarrow> False))"

section \<open>Runs of the registry\<close>

datatype db_op = Get process_env string factory_options | Disconnect_all

fun db_step :: "url_api \<Rightarrow> registry_state \<Rightarrow> db_op \<Rightarrow> registry_state" where
  "db_step api st (Get env name opts) = snd (getOrCreatePrismaClient api env name opts st)"
| "db_step api st Disconnect_all = disconnectAll st"

definition db_run :: "url_api \<Rightarrow> db_op list \<Rightarrow> registry_state \<Rightarrow> registry_state" where
  "db_run api ops st = foldl (db_step api) st ops"

definition registry_init :: registry_state where
  "registry_init = \<lparr>pr_global = Map.empty, pr_cache = Map.empty, pr_active = [], pr_next = 0, pr_disconnected = {}\<rparr>"

text \<open>
  Every client was made here; the cached clients are active, an active client is not disconnected, and a
  global client is one or the other.
\<close>

definition registry_ok :: "registry_state \<Rightarrow> bool" where
  "registry_ok st \<longleftrightarrow>
     (\<forall>c \<in> set (pr_active st) \<union> pr_disconnected st. cl_id c < pr_next st) \<and>
     ran (pr_cache st) \<subseteq> set (pr_active st) \<and> set (pr_active st) \<inter> pr_disconnected st = {} \<and>
     ran (pr_global st) \<subseteq> set (pr_active st) \<union> pr_disconnected st"

lemma registry_ok_init: "registry_ok registry_init"
  by (simp add: registry_ok_def registry_init_def)

lemma registry_okD:
  assumes "registry_ok st"
  shows "pr_cache st k = Some c \<Longrightarrow> c \<in> set (pr_active st)" "c \<in> set (pr_active st) \<Longrightarrow> c \<notin> pr_disconnected st"
    "pr_global st k = Some c \<Longrightarrow> c \<in> set (pr_active st) \<union> pr_disconnected st"
    "c \<in> set (pr_active st) \<union> pr_disconnected st \<Longrightarrow> cl_id c < pr_next st"
  using assms by (auto simp: registry_ok_def intro: ranI)

lemma new_client_ok:
  assumes "registry_ok st" "new_client p st = (c, st')"
  shows "registry_ok st'" "c \<in> set (pr_active st')" "cl_id c = pr_next st" "pr_cache st' = pr_cache st" "pr_global st' = pr_global st"
proof -
  let ?c = "\<lparr>cl_id = pr_next st, cl_options = p\<rparr>"
  have fresh: "?c \<notin> set (pr_active st) \<union> pr_disconnected st" using registry_okD(4) [OF assms(1), of ?c] by auto
  have st': "c = ?c" "st' = st\<lparr>pr_next := Suc (pr_next st), pr_active := pr_active st @ [?c]\<rparr>"
    using assms(2) by (auto simp: new_client_def Let_def)
  show "registry_ok st'" using assms(1) fresh by (auto simp: st' registry_ok_def less_Suc_eq)
  show "c \<in> set (pr_active st')" "cl_id c = pr_next st" "pr_cache st' = pr_cache st" "pr_global st' = pr_global st"
    by (simp_all add: st')
qed

lemma registry_ok_store:
  assumes "registry_ok st" "c \<in> set (pr_active st)"
  shows "registry_ok (st\<lparr>pr_cache := (pr_cache st)(k \<mapsto> c)\<rparr>)" "registry_ok (st\<lparr>pr_global := (pr_global st)(k \<mapsto> c)\<rparr>)"
  using assms by (auto simp: registry_ok_def ran_def split: if_splits)

abbreviation cache_key :: "url_api \<Rightarrow> process_env \<Rightarrow> string \<Rightarrow> factory_options \<Rightarrow> string" where
  "cache_key api env name opts \<equiv> name @ ''_'' @ buildDatabaseUrl api (str_or (env ''DATABASE_URL'') []) (pool_of env name opts)"

abbreviation global_key :: "string \<Rightarrow> string" where
  "global_key name \<equiv> ''__prisma_client_'' @ name @ ''__''"

text \<open>A returned client is stored where the next call looks for it.\<close>

lemma get_stores:
  assumes "registry_ok st" "getOrCreatePrismaClient api env name opts st = (Inr c, st')"
  shows "registry_ok st'" "str_or (env ''DATABASE_URL'') [] \<noteq> []"
    "env ''NODE_ENV'' = Some ''production'' \<Longrightarrow> pr_cache st' (cache_key api env name opts) = Some c"
    "env ''NODE_ENV'' \<noteq> Some ''production'' \<Longrightarrow> pr_global st' (global_key name) = Some c"
proof -
  let ?p = "prisma_options_of env (buildDatabaseUrl api (str_or (env ''DATABASE_URL'') []) (pool_of env name opts)) opts"
  obtain d st1 where n: "new_client ?p st = (d, st1)" by (cases "new_client ?p st")
  note new = new_client_ok [OF assms(1) n] and store = registry_ok_store [OF new_client_ok(1,2) [OF assms(1) n]]
  show url: "str_or (env ''DATABASE_URL'') [] \<noteq> []"
    using assms(2) by (auto simp: getOrCreatePrismaClient_def Let_def split: if_splits)
  show "registry_ok st'"
    using assms url n store
    by (auto simp: getOrCreatePrismaClient_def Let_def new split: if_splits option.splits)
  show "env ''NODE_ENV'' = Some ''production'' \<Longrightarrow> pr_cache st' (cache_key api env name opts) = Some c"
    using assms(2) url n by (auto simp: getOrCreatePrismaClient_def Let_def split: option.splits)
  show "env ''NODE_ENV'' \<noteq> Some ''production'' \<Longrightarrow> pr_global st' (global_key name) = Some c"
    using assms(2) url n by (auto simp: getOrCreatePrismaClient_def Let_def split: option.splits)
qed

lemma get_throws: "getOrCreatePrismaClient api env name opts st = (Inl e, st') \<Longrightarrow> st' = st"
  by (auto simp: getOrCreatePrismaClient_def Let_def split: if_splits option.splits prod.splits)

lemma disconnectAll_ok: "registry_ok st \<Longrightarrow> registry_ok (disconnectAll st)"
  by (auto simp: registry_ok_def disconnectAll_state)

lemma db_step_ok:
  assumes "registry_ok st"
  shows "registry_ok (db_step api st x)"
proof (cases x)
  case (Get env name opts)
  show ?thesis
  proof (cases "getOrCreatePrismaClient api env name opts st")
    case (Pair r st')
    then show ?thesis using assms get_stores(1) get_throws Get by (cases r) fastforce+
  qed
qed (simp add: assms disconnectAll_ok)

lemma db_run_ok: "registry_ok st \<Longrightarrow> registry_ok (db_run api ops st)"
  unfolding db_run_def by (induction ops arbitrary: st) (simp_all add: db_step_ok)

text \<open>
  A client made while \<open>disconnectAll\<close> waits is dropped from the list without being disconnected, and no later
  \<open>disconnectAll\<close> reaches it.
\<close>

lemma client_made_meanwhile_leaks:
  assumes "registry_ok st" "getOrCreatePrismaClient api env name opts (disconnect_begin st) = (Inr c, st1)" "c \<notin> pr_disconnected st1"
  shows "c \<notin> set (pr_active (disconnect_end st1)) \<and> c \<notin> pr_disconnected (disconnectAll (disconnect_end st1))"
  using assms(3) by (simp add: disconnectAll_state disconnect_end_def)

lemma client_made_meanwhile:
  assumes "registry_ok st" "str_or (env ''DATABASE_URL'') [] \<noteq> []"
    and "env ''NODE_ENV'' = Some ''production''" "pr_cache st (cache_key api env name opts) = None"
  shows "\<exists>c st1. getOrCreatePrismaClient api env name opts (disconnect_begin st) = (Inr c, st1) \<and>
    c \<notin> pr_disconnected (disconnectAll (disconnect_end st1)) \<and> c \<notin> set (pr_active (disconnect_end st1))"
proof -
  obtain c st1 where c: "getOrCreatePrismaClient api env name opts (disconnect_begin st) = (Inr c, st1)" "cl_id c = pr_next st"
      "pr_disconnected st1 = pr_disconnected st \<union> set (pr_active st)"
    using assms(2-4) by (auto simp: getOrCreatePrismaClient_def disconnect_begin_def new_client_def Let_def)
  then have "c \<notin> pr_disconnected st1" using registry_okD(4) [OF assms(1), of c] by auto
  with client_made_meanwhile_leaks [OF assms(1) c(1)] c(1) show ?thesis by blast
qed

section \<open>The parameters of the connection URL\<close>

lemma set_first_new: "k \<notin> set (map fst ps) \<Longrightarrow> set_first k v ps = ps @ [(k, v)]"
  by (induction ps) auto

lemma add_param_params:
  "snd (add_param k v u) = snd u @ (case v of None \<Rightarrow> [] | Some x \<Rightarrow> if k \<in> set (map fst (snd u)) then [] else [(k, x)])"
  "fst (add_param k v u) = fst u"
  by (auto simp: add_param_def has_param_def set_param_def set_first_new split: option.split)

text \<open>
  The base of the URL and the parameters it already has are kept, also a schema; the service's schema is
  set exactly when the URL names none.
\<close>

lemma buildDatabaseUrl_params:
  assumes "ua_parse api s = Some (b, ps)" "pc_schema config = Some name"
  shows "\<exists>qs. buildDatabaseUrl api s config = ua_print api (b, ps @ qs) \<and>
     map_of (ps @ qs) ''schema'' = (if ''schema'' \<in> set (map fst ps) then map_of ps ''schema'' else Some name)"
proof -
  define u where "u = add_param ''socket_timeout'' (map_option (ua_number api) (pc_socketTimeout config))
     (add_param ''pool_timeout'' (map_option (ua_number api) (pc_poolTimeout config))
       (add_param ''connection_limit'' (map_option (ua_number api) (pc_connectionLimit config)) (b, ps)))"
  obtain rs where u: "u = (b, ps @ rs)" "''schema'' \<notin> set (map fst rs)"
  proof -
    have "\<exists>rs. snd u = ps @ rs \<and> ''schema'' \<notin> set (map fst rs)"
      by (auto simp: u_def add_param_params split: option.split)
    moreover have "fst u = b" by (simp add: u_def add_param_params)
    ultimately show thesis using that by (cases u) auto
  qed
  let ?qs = "rs @ (if ''schema'' \<in> set (map fst ps) then [] else [(''schema'', name)])"
  have a: "add_param ''schema'' (Some name) u = (b, ps @ ?qs)"
    using add_param_params [of "''schema''" "Some name" "(b, ps @ rs)"] u by (simp add: u(1) prod_eq_iff)
  have "buildDatabaseUrl api s config = ua_print api (b, ps @ ?qs)"
    using assms a by (simp add: buildDatabaseUrl_def u_def)
  moreover have "map_of rs ''schema'' = None" using u(2) by (simp add: map_of_eq_None_iff)
  then have "map_of (ps @ ?qs) ''schema'' = (if ''schema'' \<in> set (map fst ps) then map_of ps ''schema'' else Some name)"
    using map_of_eq_None_iff [of ps "''schema''"] by (cases "map_of ps ''schema''") (simp_all add: map_add_def)
  ultimately show ?thesis by blast
qed

section \<open>Properties\<close>

text \<open>
  C27. The life of a client, after any calls of the factory and of \<open>disconnectAll\<close>. A client is handed out
  again by the next call. In production it is connected until \<open>disconnectAll\<close>, after which the factory makes a new
  one; outside production \<open>disconnectAll\<close> leaves the client in the global store, and the factory goes on handing out the
  disconnected client.
\<close>

theorem prisma_client_lifetime:
  assumes "st = db_run api ops registry_init" "getOrCreatePrismaClient api env name opts st = (Inr c, st')"
  shows "getOrCreatePrismaClient api env name opts st' = (Inr c, st') \<and> c \<in> pr_disconnected (disconnectAll st') \<and>
    (if env ''NODE_ENV'' = Some ''production''
     then c \<notin> pr_disconnected st' \<and>
       (\<exists>d st''. getOrCreatePrismaClient api env name opts (disconnectAll st') = (Inr d, st'') \<and> d \<notin> pr_disconnected st'')
     else getOrCreatePrismaClient api env name opts (disconnectAll st') = (Inr c, disconnectAll st'))"
proof -
  have ok: "registry_ok st" unfolding assms(1) by (rule db_run_ok [OF registry_ok_init])
  note g = get_stores [OF ok assms(2)]
  show ?thesis
  proof (cases "env ''NODE_ENV'' = Some ''production''")
    case True
    have c: "c \<in> set (pr_active st')" by (rule registry_okD(1) [OF g(1) g(3) [OF True]])
    obtain d st'' where d: "getOrCreatePrismaClient api env name opts (disconnectAll st') = (Inr d, st'')"
      using g(2) True by (auto simp: getOrCreatePrismaClient_def disconnectAll_state new_client_def Let_def)
    note g2 = get_stores [OF disconnectAll_ok [OF g(1)] d]
    have "d \<notin> pr_disconnected st''"
      by (rule registry_okD(2) [OF g2(1) registry_okD(1) [OF g2(1) g2(3) [OF True]]])
    with True c d show ?thesis
      using g(2,3) registry_okD(2) [OF g(1) c] by (simp add: getOrCreatePrismaClient_def disconnectAll_state Let_def)
  next
    case False
    have "c \<in> set (pr_active st') \<union> pr_disconnected st'" by (rule registry_okD(3) [OF g(1) g(4) [OF False]])
    with False g(2,4) show ?thesis by (auto simp: getOrCreatePrismaClient_def disconnectAll_state Let_def)
  qed
qed

definition example_api :: url_api where
  "example_api = \<lparr>ua_parse = (\<lambda>s. None), ua_print = fst, ua_number = (\<lambda>x. [])\<rparr>"

theorem prisma_client_lifetime_witness:
  "\<exists>c st'. getOrCreatePrismaClient example_api (map_of [(''DATABASE_URL'', ''u'')]) ''payment''
       \<lparr>fo_connectionLimit = None, fo_poolTimeout = None, fo_socketTimeout = None, fo_logQueries = None\<rparr> registry_init = (Inr c, st') \<and>
     getOrCreatePrismaClient example_api (map_of [(''DATABASE_URL'', ''u'')]) ''payment''
       \<lparr>fo_connectionLimit = None, fo_poolTimeout = None, fo_socketTimeout = None, fo_logQueries = None\<rparr> (disconnectAll st') =
       (Inr c, disconnectAll st') \<and> c \<in> pr_disconnected (disconnectAll st')"
proof -
  let ?env = "map_of [(''DATABASE_URL'', ''u'')]"
  let ?o = "\<lparr>fo_connectionLimit = None, fo_poolTimeout = None, fo_socketTimeout = None, fo_logQueries = None\<rparr>"
  obtain c st' where g: "getOrCreatePrismaClient example_api ?env ''payment'' ?o registry_init = (Inr c, st')"
    by (auto simp: getOrCreatePrismaClient_def registry_init_def new_client_def Let_def)
  have run: "registry_init = db_run example_api [] registry_init" by (simp add: db_run_def)
  from prisma_client_lifetime [OF run g] g show ?thesis by auto
qed

end
