(* ===== verification/Logger.thy ===== *)
theory Logger
  imports Errors "HOL-Library.AList"
begin

text \<open>
  The logger service (\<open>packages/common/src/logger\<close>): how a call with its loosely typed arguments becomes one
  line of level, context and message, and the lines the logging interceptor writes. A context is the
  list of its properties in the order JavaScript keeps them. The context of the current request and
  that of the active span are arguments, and so is \<open>String(v)\<close>. What the log library then does with a line
  (redaction, formatting) is not modelled.
\<close>

section \<open>Arguments and lines\<close>

type_synonym log_context = "(string \<times> json) list"

text \<open>An \<open>Error\<close> has its three texts and possibly enumerable properties of its own.\<close>

record err_obj =
  eo_name :: string
  eo_message :: string
  eo_stack :: string
  eo_props :: log_context

datatype log_arg =
    ArgError err_obj
  | ArgStr string
  | ArgObj log_context
  | ArgOther json
  | ArgUndefined

datatype log_level = L_trace | L_debug | L_info | L_warn | L_error | L_fatal

record log_line =
  ll_level :: log_level
  ll_context :: log_context
  ll_message :: string

record log_env =
  le_store :: "log_context option"
  le_span :: "(string \<times> string) option"
  le_string :: "log_arg \<Rightarrow> string"

text \<open>Object spread: \<open>{...a, ...b}\<close>.\<close>

definition spread :: "log_context \<Rightarrow> log_context \<Rightarrow> log_context" where
  "spread a b = foldl (\<lambda>acc (k, v). AList.update k v acc) a b"

definition otel_context :: "log_env \<Rightarrow> log_context" where
  "otel_context env =
     (case le_span env of None \<Rightarrow> [] | Some (t, s) \<Rightarrow> [(''traceId'', JStr t), (''spanId'', JStr s)])"

definition enrichContext :: "log_env \<Rightarrow> log_context \<Rightarrow> log_context" where
  "enrichContext env ctx =
     spread (spread (spread [] (case le_store env of None \<Rightarrow> [] | Some s \<Rightarrow> s)) (otel_context env)) ctx"

definition log_message :: "log_env \<Rightarrow> log_arg \<Rightarrow> string" where
  "log_message env message = (case message of ArgStr s \<Rightarrow> s | m \<Rightarrow> le_string env m)"

text \<open>The properties a value spreads, when \<open>typeof v === 'object' && v !== null\<close>; an array is an object too.\<close>

fun obj_props :: "log_arg \<Rightarrow> log_context option" where
  "obj_props (ArgError e) = Some (eo_props e)"
| "obj_props (ArgObj c) = Some c"
| "obj_props (ArgOther (JObj ps)) = Some ps"
| "obj_props (ArgOther (JArr xs)) = Some (map (\<lambda>i. (show_nat i, xs ! i)) [0..<length xs])"
| "obj_props v = None"

definition name_context :: "string \<Rightarrow> log_context" where
  "name_context s = [(''context'', JStr s)]"

text \<open>The second argument of \<open>debug\<close> and \<open>warn\<close>.\<close>

definition context_arg :: "log_arg list \<Rightarrow> log_context" where
  "context_arg args =
     (case args of
        [] \<Rightarrow> []
      | a # rest \<Rightarrow> (case obj_props a of Some c \<Rightarrow> c | None \<Rightarrow> (case a of ArgStr s \<Rightarrow> name_context s | _ \<Rightarrow> [])))"

definition plain_log :: "log_level \<Rightarrow> log_env \<Rightarrow> string \<Rightarrow> log_context \<Rightarrow> log_line" where
  "plain_log level env message ctx = \<lparr>ll_level = level, ll_context = enrichContext env ctx, ll_message = message\<rparr>"

definition Logger_trace :: "log_env \<Rightarrow> string \<Rightarrow> log_context \<Rightarrow> log_line" where
  "Logger_trace env message ctx = plain_log L_trace env message ctx"

definition Logger_info :: "log_env \<Rightarrow> string \<Rightarrow> log_context \<Rightarrow> log_line" where
  "Logger_info env message ctx = plain_log L_info env message ctx"

definition Logger_debug :: "log_env \<Rightarrow> log_arg \<Rightarrow> log_arg list \<Rightarrow> log_line" where
  "Logger_debug env message args = plain_log L_debug env (log_message env message) (context_arg args)"

definition Logger_warn :: "log_env \<Rightarrow> log_arg \<Rightarrow> log_arg list \<Rightarrow> log_line" where
  "Logger_warn env message args = plain_log L_warn env (log_message env message) (context_arg args)"

text \<open>The error and the context among the arguments of \<open>error\<close> and \<open>fatal\<close>; more than two are not read.\<close>

fun error_args :: "log_arg list \<Rightarrow> log_arg \<times> log_context" where
  "error_args [a] =
     (case a of
        ArgError e \<Rightarrow> (a, [])
      | ArgStr s \<Rightarrow> (a, [])
      | _ \<Rightarrow> (ArgUndefined, case obj_props a of Some c \<Rightarrow> c | None \<Rightarrow> []))"
| "error_args [a, b] =
     (a, case obj_props b of Some c \<Rightarrow> c | None \<Rightarrow> (case b of ArgStr s \<Rightarrow> name_context s | _ \<Rightarrow> []))"
| "error_args args = (ArgUndefined, [])"

definition err_json :: "err_obj \<Rightarrow> json" where
  "err_json e = JObj [(''message'', JStr (eo_message e)), (''stack'', JStr (eo_stack e)), (''name'', JStr (eo_name e))]"

text \<open>\<open>if (err)\<close>: an \<open>Error\<close> goes to \<open>err\<close>, another truthy value to \<open>error\<close>.\<close>

definition with_error :: "log_arg \<Rightarrow> log_context \<Rightarrow> log_context" where
  "with_error err ctx =
     (case err of
        ArgError e \<Rightarrow> AList.update ''err'' (err_json e) ctx
      | ArgStr s \<Rightarrow> if s = [] then ctx else AList.update ''error'' (JStr s) ctx
      | ArgObj c \<Rightarrow> AList.update ''error'' (JObj c) ctx
      | ArgOther v \<Rightarrow> if truthy v then AList.update ''error'' v ctx else ctx
      | ArgUndefined \<Rightarrow> ctx)"

definition error_log :: "log_level \<Rightarrow> log_env \<Rightarrow> log_arg \<Rightarrow> log_arg list \<Rightarrow> log_line" where
  "error_log level env message args =
     (let (err, ctx) = error_args args
      in \<lparr>ll_level = level, ll_context = with_error err (enrichContext env ctx), ll_message = log_message env message\<rparr>)"

definition Logger_error :: "log_env \<Rightarrow> log_arg \<Rightarrow> log_arg list \<Rightarrow> log_line" where
  "Logger_error env message args = error_log L_error env message args"

definition Logger_fatal :: "log_env \<Rightarrow> log_arg \<Rightarrow> log_arg list \<Rightarrow> log_line" where
  "Logger_fatal env message args = error_log L_fatal env message args"

definition extractContext :: "log_arg list \<Rightarrow> log_context" where
  "extractContext optionalParams = (if optionalParams = [] then [] else context_arg [last optionalParams])"

definition Logger_log :: "log_env \<Rightarrow> log_arg \<Rightarrow> log_arg list \<Rightarrow> log_line" where
  "Logger_log env message optionalParams = Logger_info env (log_message env message) (extractContext optionalParams)"

definition Logger_verbose :: "log_env \<Rightarrow> log_arg \<Rightarrow> log_arg list \<Rightarrow> log_line" where
  "Logger_verbose env message optionalParams = Logger_trace env (log_message env message) (extractContext optionalParams)"

section \<open>The logging interceptor\<close>

text \<open>
  One line before the handler and one after it. \<open>status\<close> is read from the thrown value when it has a
  number there, else it is 500.
\<close>

definition thrown_status :: "log_arg \<Rightarrow> json" where
  "thrown_status err =
     (case obj_props err of
        Some ps \<Rightarrow> (case map_of ps ''status'' of Some (JNum n) \<Rightarrow> JNum n | _ \<Rightarrow> jnat 500)
      | None \<Rightarrow> jnat 500)"

definition request_line :: "string \<Rightarrow> string \<Rightarrow> string \<Rightarrow> string" where
  "request_line what meth url = what @ '': '' @ meth @ '' '' @ url"

definition outcome_context :: "string \<Rightarrow> string \<Rightarrow> json \<Rightarrow> nat \<Rightarrow> log_context" where
  "outcome_context meth url status durationMs =
     [(''method'', JStr meth), (''path'', JStr url), (''status'', status), (''durationMs'', jnat durationMs)]"

definition outcome_suffix :: "log_env \<Rightarrow> json \<Rightarrow> nat \<Rightarrow> string" where
  "outcome_suffix env status durationMs =
     '' - '' @ le_string env (ArgOther status) @ '' ('' @ show_nat durationMs @ ''ms)''"

definition LoggingInterceptor_lines ::
  "log_env \<Rightarrow> string \<Rightarrow> string \<Rightarrow> nat \<Rightarrow> nat \<Rightarrow> log_arg + json \<Rightarrow> log_line list" where
  "LoggingInterceptor_lines env meth url statusCode durationMs result =
     Logger_info env (request_line ''Incoming request'' meth url) [(''method'', JStr meth), (''path'', JStr url)] #
     (case result of
        Inr body \<Rightarrow>
          [Logger_info env (request_line ''Request completed'' meth url @ outcome_suffix env (jnat statusCode) durationMs)
             (outcome_context meth url (jnat statusCode) durationMs)]
      | Inl err \<Rightarrow>
          [Logger_error env (ArgStr (request_line ''Request failed'' meth url @ outcome_suffix env (thrown_status err) durationMs))
             [err, ArgObj (outcome_context meth url (thrown_status err) durationMs)]])"

section \<open>What a line holds\<close>

lemma map_of_spread: "distinct (map fst b) \<Longrightarrow> map_of (spread a b) = map_of a ++ map_of b"
proof (induction b arbitrary: a)
  case Nil
  then show ?case by (simp add: spread_def)
next
  case (Cons p b)
  obtain k v where p: "p = (k, v)" by (cases p)
  have "map_of (spread a (p # b)) = map_of (AList.update k v a) ++ map_of b"
    using Cons by (simp add: spread_def p)
  also have "\<dots> = map_of a ++ map_of (p # b)"
    using Cons.prems by (simp add: p update_conv' map_add_upd_left dom_map_of_conv_image_fst)
  finally show ?case .
qed

lemma map_of_enrich:
  assumes "distinct (map fst ctx)" "\<forall>s. le_store env = Some s \<longrightarrow> distinct (map fst s)"
  shows "map_of (enrichContext env ctx) =
    map_of (case le_store env of None \<Rightarrow> [] | Some s \<Rightarrow> s) ++ map_of (otel_context env) ++ map_of ctx"
proof -
  have "distinct (map fst (otel_context env))" by (simp add: otel_context_def split: option.split prod.split)
  moreover have "distinct (map fst (case le_store env of None \<Rightarrow> [] | Some s \<Rightarrow> s))" using assms(2) by (simp split: option.split)
  ultimately show ?thesis using assms(1) by (simp add: enrichContext_def map_of_spread)
qed

text \<open>
  A call with an error and a context loses neither: the line has the message, the error under \<open>err\<close>, and every
  property of the context, which wins over the span's and the request's.
\<close>

lemma error_line_holds:
  assumes "distinct (map fst ctx)" "\<forall>s. le_store env = Some s \<longrightarrow> distinct (map fst s)"
  shows "ll_message (Logger_error env (ArgStr m) [ArgError e, ArgObj ctx]) = m \<and>
    map_of (ll_context (Logger_error env (ArgStr m) [ArgError e, ArgObj ctx])) =
      (map_of (case le_store env of None \<Rightarrow> [] | Some s \<Rightarrow> s) ++ map_of (otel_context env) ++ map_of ctx)(''err'' \<mapsto> err_json e)"
  using map_of_enrich [OF assms] by (simp add: Logger_error_def error_log_def log_message_def with_error_def update_conv')

text \<open>With a third argument the error and the context are both lost.\<close>

lemma error_line_three_args:
  "ll_context (Logger_error env m (a # b # c # rest)) = enrichContext env []"
  by (simp add: Logger_error_def error_log_def with_error_def)

text \<open>An \<open>Error\<close> given to \<open>warn\<close> leaves only its own enumerable properties: its message is lost.\<close>

lemma warn_line_error:
  "Logger_warn env m [ArgError e] = Logger_warn env m [ArgObj (eo_props e)]"
  by (simp add: Logger_warn_def context_arg_def)

text \<open>Every request leaves two lines, and the second names the status that was thrown.\<close>

lemma interceptor_lines:
  "map ll_level (LoggingInterceptor_lines env meth url code ms r) = [L_info, case r of Inl e \<Rightarrow> L_error | Inr b \<Rightarrow> L_info]"
  by (simp add: LoggingInterceptor_lines_def Logger_info_def plain_log_def Logger_error_def error_log_def split: sum.split)

end
