(* ===== verification/Metrics.thy ===== *)
theory Metrics
  imports Prelude
begin

text \<open>
  The metrics service (\<open>packages/common/src/observability\<close>): the nineteen metrics it declares, their
  registration in a registry that may hold them already, and the calls each method makes. The metric
  library is outside the model: a call is recorded with the metric, the labels and the value, and the
  library refuses a call whose labels are not those the metric was declared with.
\<close>

section \<open>Declarations and registration\<close>

datatype metric_kind = Counter | Gauge | Histogram "nat list"

record metric =
  md_name :: string
  md_help :: string
  md_kind :: metric_kind
  md_labels :: "string list"

text \<open>The fields of the service.\<close>

datatype metric_field =
    eventsPublished | publishFailures | publishDuration | retryTotal | eventsConsumed
  | duplicateEvents | consumerFailures | consumerDuration | outboxPending | outboxPublished
  | outboxFailed | outboxLag | outboxBatchSize | outboxInFlight | outboxCycleDuration
  | inboxReceived | inboxProcessed | inboxDlqEvents | inboxDlqDepth

fun declared :: "metric_field \<Rightarrow> metric" where
  "declared eventsPublished =
     \<lparr>md_name = ''events_published_total'', md_help = ''Count of successfully acknowledged Kafka events'',
      md_kind = Counter, md_labels = [''service'', ''eventType'', ''status'']\<rparr>"
| "declared publishFailures =
     \<lparr>md_name = ''publish_failures_total'', md_help = ''Count of failed Kafka publication attempts'',
      md_kind = Counter, md_labels = [''service'', ''eventType'', ''status'']\<rparr>"
| "declared publishDuration =
     \<lparr>md_name = ''publish_duration_ms'', md_help = ''Kafka publication latency in ms'',
      md_kind = Histogram [5, 10, 25, 50, 100, 250, 500, 1000, 2500, 5000], md_labels = [''service'', ''eventType'', ''status'']\<rparr>"
| "declared retryTotal =
     \<lparr>md_name = ''retry_total'', md_help = ''Cumulative count of application-visible event publication retry attempts'',
      md_kind = Counter, md_labels = [''service'', ''eventType'', ''status'']\<rparr>"
| "declared eventsConsumed =
     \<lparr>md_name = ''events_consumed_total'', md_help = ''Total events received by the consumer (including duplicates)'',
      md_kind = Counter, md_labels = [''service'', ''eventType'', ''consumer'', ''status'']\<rparr>"
| "declared duplicateEvents =
     \<lparr>md_name = ''duplicate_events_total'', md_help = ''Events identified as duplicates and skipped'',
      md_kind = Counter, md_labels = [''service'', ''eventType'', ''consumer'', ''status'']\<rparr>"
| "declared consumerFailures =
     \<lparr>md_name = ''consumer_failures_total'', md_help = ''Cumulative handler execution failures'',
      md_kind = Counter, md_labels = [''service'', ''eventType'', ''consumer'', ''status'']\<rparr>"
| "declared consumerDuration =
     \<lparr>md_name = ''consumer_duration_ms'', md_help = ''Business handler execution duration in ms'',
      md_kind = Histogram [10, 50, 100, 250, 500, 1000, 2500, 5000, 10000], md_labels = [''service'', ''eventType'', ''consumer'', ''status'']\<rparr>"
| "declared outboxPending =
     \<lparr>md_name = ''outbox_pending_events'', md_help = ''Count of outbox records awaiting publication'',
      md_kind = Gauge, md_labels = [''service'']\<rparr>"
| "declared outboxPublished =
     \<lparr>md_name = ''outbox_published_events'', md_help = ''Count of outbox records in PUBLISHED state'',
      md_kind = Gauge, md_labels = [''service'']\<rparr>"
| "declared outboxFailed =
     \<lparr>md_name = ''outbox_failed_events'', md_help = ''Count of outbox records in permanent FAILED state'',
      md_kind = Gauge, md_labels = [''service'']\<rparr>"
| "declared outboxLag =
     \<lparr>md_name = ''outbox_lag_ms'', md_help = ''Latency between outbox event database creation and successful Kafka publish'',
      md_kind = Histogram [100, 500, 1000, 2500, 5000, 10000, 30000, 60000], md_labels = [''service'', ''eventType'']\<rparr>"
| "declared outboxBatchSize =
     \<lparr>md_name = ''outbox_batch_size'', md_help = ''Distribution of outbox event batch sizes sent in a single publish operation'',
      md_kind = Histogram [1, 5, 10, 25, 50, 100, 250, 500, 1000], md_labels = [''service'']\<rparr>"
| "declared outboxInFlight =
     \<lparr>md_name = ''outbox_relay_in_flight_messages'', md_help = ''Current count of outbox events currently in-flight publishing to Kafka'',
      md_kind = Gauge, md_labels = [''service'']\<rparr>"
| "declared outboxCycleDuration =
     \<lparr>md_name = ''outbox_relay_cycle_duration_ms'', md_help = ''Duration of a single Outbox Relay poll/publish cycle in milliseconds'',
      md_kind = Histogram [5, 10, 25, 50, 100, 250, 500, 1000, 2500, 5000, 10000], md_labels = [''service'']\<rparr>"
| "declared inboxReceived =
     \<lparr>md_name = ''inbox_received_events_total'', md_help = ''Cumulative events recorded as RECEIVED'',
      md_kind = Counter, md_labels = [''service'', ''consumer'', ''eventType'']\<rparr>"
| "declared inboxProcessed =
     \<lparr>md_name = ''inbox_processed_events_total'', md_help = ''Cumulative events marked PROCESSED'',
      md_kind = Counter, md_labels = [''service'', ''consumer'', ''eventType'']\<rparr>"
| "declared inboxDlqEvents =
     \<lparr>md_name = ''inbox_dlq_events_total'', md_help = ''Cumulative events sent to DLQ'',
      md_kind = Counter, md_labels = [''service'', ''consumer'', ''eventType'']\<rparr>"
| "declared inboxDlqDepth =
     \<lparr>md_name = ''inbox_dlq_depth'', md_help = ''Number of unresolved dead-lettered events in the local database'',
      md_kind = Gauge, md_labels = [''service'', ''consumer'']\<rparr>"

definition metric_fields :: "metric_field list" where
  "metric_fields =
     [eventsPublished, publishFailures, publishDuration, retryTotal, eventsConsumed,
      duplicateEvents, consumerFailures, consumerDuration, outboxPending, outboxPublished,
      outboxFailed, outboxLag, outboxBatchSize, outboxInFlight, outboxCycleDuration,
      inboxReceived, inboxProcessed, inboxDlqEvents, inboxDlqDepth]"

type_synonym metric_registry = "metric list"

text \<open>\<open>getSingleMetric\<close> finds a metric by its name alone.\<close>

definition getOrRegister :: "metric \<Rightarrow> metric_registry \<Rightarrow> metric \<times> metric_registry" where
  "getOrRegister d reg = (case find (\<lambda>m. md_name m = md_name d) reg of Some m \<Rightarrow> (m, reg) | None \<Rightarrow> (d, reg @ [d]))"

text \<open>The constructor: each field refers to the metric found or registered for it, in the order of the code.\<close>

type_synonym metrics_service = "metric_field \<Rightarrow> metric option"

fun register_all :: "metric_field list \<Rightarrow> metrics_service \<Rightarrow> metric_registry \<Rightarrow> metrics_service \<times> metric_registry" where
  "register_all [] svc reg = (svc, reg)"
| "register_all (f # fs) svc reg =
     (let (m, reg') = getOrRegister (declared f) reg in register_all fs (svc(f \<mapsto> m)) reg')"

definition MetricsService_new :: "metric_registry \<Rightarrow> metrics_service \<times> metric_registry" where
  "MetricsService_new reg = register_all metric_fields Map.empty reg"

section \<open>The methods\<close>

type_synonym metric_labels = "(string \<times> string) list"

datatype metric_call =
    Inc metric_field metric_labels
  | Observe metric_field metric_labels jsnum
  | SetTo metric_field metric_labels jsnum

definition recordPublishSuccess :: "string \<Rightarrow> string \<Rightarrow> jsnum \<Rightarrow> metric_call list" where
  "recordPublishSuccess service eventType durationMs =
     [Inc eventsPublished [(''service'', service), (''eventType'', eventType), (''status'', ''success'')], Observe publishDuration [(''service'', service), (''eventType'', eventType), (''status'', ''success'')] durationMs]"

definition recordPublishFailure :: "string \<Rightarrow> string \<Rightarrow> jsnum \<Rightarrow> metric_call list" where
  "recordPublishFailure service eventType durationMs =
     [Inc publishFailures [(''service'', service), (''eventType'', eventType), (''status'', ''failure'')], Observe publishDuration [(''service'', service), (''eventType'', eventType), (''status'', ''failure'')] durationMs]"

definition recordPublicationRetry :: "string \<Rightarrow> string \<Rightarrow> metric_call list" where
  "recordPublicationRetry service eventType =
     [Inc retryTotal [(''service'', service), (''eventType'', eventType), (''status'', ''retry'')]]"

definition recordConsumeAttempt :: "string \<Rightarrow> string \<Rightarrow> string \<Rightarrow> metric_call list" where
  "recordConsumeAttempt service eventType consumer =
     [Inc eventsConsumed [(''service'', service), (''eventType'', eventType), (''consumer'', consumer), (''status'', ''received'')]]"

definition recordDuplicateSkip :: "string \<Rightarrow> string \<Rightarrow> string \<Rightarrow> metric_call list" where
  "recordDuplicateSkip service eventType consumer =
     [Inc duplicateEvents [(''service'', service), (''eventType'', eventType), (''consumer'', consumer), (''status'', ''skipped'')]]"

definition recordHandlerFailure :: "string \<Rightarrow> string \<Rightarrow> string \<Rightarrow> metric_call list" where
  "recordHandlerFailure service eventType consumer =
     [Inc consumerFailures [(''service'', service), (''eventType'', eventType), (''consumer'', consumer), (''status'', ''failure'')]]"

definition recordHandlerDuration :: "string \<Rightarrow> string \<Rightarrow> string \<Rightarrow> string \<Rightarrow> jsnum \<Rightarrow> metric_call list" where
  "recordHandlerDuration service eventType consumer status durationMs =
     [Observe consumerDuration [(''service'', service), (''eventType'', eventType), (''consumer'', consumer), (''status'', status)] durationMs]"

definition setOutboxPending :: "string \<Rightarrow> jsnum \<Rightarrow> metric_call list" where
  "setOutboxPending service amount =
     [SetTo outboxPending [(''service'', service)] amount]"

definition setOutboxPublished :: "string \<Rightarrow> jsnum \<Rightarrow> metric_call list" where
  "setOutboxPublished service amount =
     [SetTo outboxPublished [(''service'', service)] amount]"

definition setOutboxFailed :: "string \<Rightarrow> jsnum \<Rightarrow> metric_call list" where
  "setOutboxFailed service amount =
     [SetTo outboxFailed [(''service'', service)] amount]"

definition recordOutboxLag :: "string \<Rightarrow> string \<Rightarrow> jsnum \<Rightarrow> metric_call list" where
  "recordOutboxLag service eventType lagMs =
     [Observe outboxLag [(''service'', service), (''eventType'', eventType)] lagMs]"

definition recordOutboxBatchSize :: "string \<Rightarrow> jsnum \<Rightarrow> metric_call list" where
  "recordOutboxBatchSize service batchSize =
     [Observe outboxBatchSize [(''service'', service)] batchSize]"

definition setOutboxInFlight :: "string \<Rightarrow> jsnum \<Rightarrow> metric_call list" where
  "setOutboxInFlight service amount =
     [SetTo outboxInFlight [(''service'', service)] amount]"

definition recordOutboxCycleDuration :: "string \<Rightarrow> jsnum \<Rightarrow> metric_call list" where
  "recordOutboxCycleDuration service durationMs =
     [Observe outboxCycleDuration [(''service'', service)] durationMs]"

definition recordInboxReceived :: "string \<Rightarrow> string \<Rightarrow> string \<Rightarrow> metric_call list" where
  "recordInboxReceived service consumer eventType =
     [Inc inboxReceived [(''service'', service), (''consumer'', consumer), (''eventType'', eventType)]]"

definition recordInboxProcessed :: "string \<Rightarrow> string \<Rightarrow> string \<Rightarrow> metric_call list" where
  "recordInboxProcessed service consumer eventType =
     [Inc inboxProcessed [(''service'', service), (''consumer'', consumer), (''eventType'', eventType)]]"

definition recordInboxDlqEvent :: "string \<Rightarrow> string \<Rightarrow> string \<Rightarrow> metric_call list" where
  "recordInboxDlqEvent service consumer eventType =
     [Inc inboxDlqEvents [(''service'', service), (''consumer'', consumer), (''eventType'', eventType)]]"

definition setInboxDlqDepth :: "string \<Rightarrow> string \<Rightarrow> jsnum \<Rightarrow> metric_call list" where
  "setInboxDlqDepth service consumer depth =
     [SetTo inboxDlqDepth [(''service'', service), (''consumer'', consumer)] depth]"

section \<open>Registration and labels\<close>

text \<open>No other metric of the registry has one of our names.\<close>

definition no_clash :: "metric_registry \<Rightarrow> bool" where
  "no_clash reg \<longleftrightarrow> (\<forall>m \<in> set reg. \<forall>f. md_name m = md_name (declared f) \<longrightarrow> m = declared f)"

lemma declared_inj: "md_name (declared f) = md_name (declared g) \<longleftrightarrow> f = g"
  by (cases f; cases g) simp_all

lemma getOrRegister_declared:
  assumes "no_clash reg"
  shows "getOrRegister (declared f) reg = (declared f, if declared f \<in> set reg then reg else reg @ [declared f])"
proof (cases "find (\<lambda>m. md_name m = md_name (declared f)) reg")
  case None
  then have "declared f \<notin> set reg" by (auto simp: find_None_iff)
  with None show ?thesis by (simp add: getOrRegister_def)
next
  case (Some m)
  then have "m \<in> set reg" "md_name m = md_name (declared f)" by (auto dest: find_SomeD)
  with assms have "m = declared f" "declared f \<in> set reg" by (auto simp: no_clash_def)
  with Some show ?thesis by (simp add: getOrRegister_def)
qed

lemma no_clash_snoc: "no_clash reg \<Longrightarrow> no_clash (reg @ [declared f])"
  by (auto simp: no_clash_def declared_inj)

lemma register_all_svc:
  assumes "no_clash reg"
  shows "fst (register_all fs svc reg) f = (if f \<in> set fs then Some (declared f) else svc f)"
  using assms
proof (induction fs arbitrary: svc reg)
  case Nil
  then show ?case by simp
next
  case (Cons g fs)
  then show ?case by (simp add: getOrRegister_declared no_clash_snoc)
qed

lemma register_all_reg:
  assumes "no_clash reg"
  shows "no_clash (snd (register_all fs svc reg)) \<and> set (snd (register_all fs svc reg)) = set reg \<union> declared ` set fs \<and>
    (distinct (map md_name reg) \<longrightarrow> distinct (map md_name (snd (register_all fs svc reg))))"
  using assms
proof (induction fs arbitrary: svc reg)
  case Nil
  then show ?case by simp
next
  case (Cons g fs)
  let ?reg = "if declared g \<in> set reg then reg else reg @ [declared g]"
  have ok: "no_clash ?reg" using Cons.prems by (simp add: no_clash_snoc)
  have d: "distinct (map md_name reg) \<longrightarrow> distinct (map md_name ?reg)"
    using Cons.prems by (simp add: no_clash_def image_iff) metis
  let ?res = "snd (register_all fs (svc(g \<mapsto> declared g)) ?reg)"
  have "snd (register_all (g # fs) svc reg) = ?res" by (simp add: getOrRegister_declared [OF Cons.prems])
  moreover have "no_clash ?res \<and> set ?res = set ?reg \<union> declared ` set fs \<and>
      (distinct (map md_name ?reg) \<longrightarrow> distinct (map md_name ?res))"
    by (rule Cons.IH [OF ok])
  moreover have "set ?reg \<union> declared ` set fs = set reg \<union> declared ` set (g # fs)" by auto
  ultimately show ?case using d by metis
qed

lemma register_all_again:
  assumes "no_clash reg" "declared ` set fs \<subseteq> set reg"
  shows "snd (register_all fs svc reg) = reg"
  using assms by (induction fs arbitrary: svc) (simp_all add: getOrRegister_declared)

lemma all_fields: "f \<in> set metric_fields"
  by (cases f) (simp_all add: metric_fields_def)

text \<open>A call that the metric library accepts: the metric has the operation and exactly these labels.\<close>

fun call_ok :: "metrics_service \<Rightarrow> metric_call \<Rightarrow> bool" where
  "call_ok svc (Inc f ls) = (case svc f of None \<Rightarrow> False | Some m \<Rightarrow> md_kind m = Counter \<and> md_labels m = map fst ls)"
| "call_ok svc (Observe f ls v) = (case svc f of None \<Rightarrow> False | Some m \<Rightarrow> (\<exists>bs. md_kind m = Histogram bs) \<and> md_labels m = map fst ls)"
| "call_ok svc (SetTo f ls v) = (case svc f of None \<Rightarrow> False | Some m \<Rightarrow> md_kind m = Gauge \<and> md_labels m = map fst ls)"

lemmas method_defs =
  recordPublishSuccess_def recordPublishFailure_def recordPublicationRetry_def recordConsumeAttempt_def recordDuplicateSkip_def recordHandlerFailure_def
  recordHandlerDuration_def setOutboxPending_def setOutboxPublished_def setOutboxFailed_def recordOutboxLag_def recordOutboxBatchSize_def
  setOutboxInFlight_def recordOutboxCycleDuration_def recordInboxReceived_def recordInboxProcessed_def recordInboxDlqEvent_def setInboxDlqDepth_def

text \<open>Every method's calls, for any arguments.\<close>

inductive_set method_calls :: "metric_call list set" where

  "recordPublishSuccess service eventType durationMs \<in> method_calls"
| "recordPublishFailure service eventType durationMs \<in> method_calls"
| "recordPublicationRetry service eventType \<in> method_calls"
| "recordConsumeAttempt service eventType consumer \<in> method_calls"
| "recordDuplicateSkip service eventType consumer \<in> method_calls"
| "recordHandlerFailure service eventType consumer \<in> method_calls"
| "recordHandlerDuration service eventType consumer status durationMs \<in> method_calls"
| "setOutboxPending service amount \<in> method_calls"
| "setOutboxPublished service amount \<in> method_calls"
| "setOutboxFailed service amount \<in> method_calls"
| "recordOutboxLag service eventType lagMs \<in> method_calls"
| "recordOutboxBatchSize service batchSize \<in> method_calls"
| "setOutboxInFlight service amount \<in> method_calls"
| "recordOutboxCycleDuration service durationMs \<in> method_calls"
| "recordInboxReceived service consumer eventType \<in> method_calls"
| "recordInboxProcessed service consumer eventType \<in> method_calls"
| "recordInboxDlqEvent service consumer eventType \<in> method_calls"
| "setInboxDlqDepth service consumer depth \<in> method_calls"

text \<open>
  A metrics service built on any registry without a clash of names refers to its own nineteen metrics, a second one
  shares them and registers nothing again, and every method only makes calls that the metric library accepts.
\<close>

lemma metrics_well_labelled:
  assumes "no_clash reg" "distinct (map md_name reg)"
  shows "fst (MetricsService_new reg) f = Some (declared f)"
    and "distinct (map md_name (snd (MetricsService_new reg)))"
    and "MetricsService_new (snd (MetricsService_new reg)) = MetricsService_new reg"
    and "cs \<in> method_calls \<Longrightarrow> list_all (call_ok (fst (MetricsService_new reg))) cs"
proof -
  have svc: "fst (MetricsService_new r) g = Some (declared g)" if "no_clash r" for r g
    using register_all_svc [OF that] all_fields by (simp add: MetricsService_new_def)
  note r = register_all_reg [OF assms(1), of metric_fields Map.empty]
  show "fst (MetricsService_new reg) f = Some (declared f)" by (rule svc [OF assms(1)])
  show "distinct (map md_name (snd (MetricsService_new reg)))" using r assms(2) by (simp add: MetricsService_new_def)
  let ?r = "snd (MetricsService_new reg)"
  have ok: "no_clash ?r" "declared ` set metric_fields \<subseteq> set ?r" using r by (auto simp: MetricsService_new_def)
  have "fst (MetricsService_new ?r) = fst (MetricsService_new reg)" using svc [OF ok(1)] svc [OF assms(1)] by auto
  moreover have "snd (MetricsService_new ?r) = ?r" using register_all_again [OF ok] by (simp add: MetricsService_new_def)
  ultimately show "MetricsService_new ?r = MetricsService_new reg" by (simp add: prod_eq_iff)
  show "cs \<in> method_calls \<Longrightarrow> list_all (call_ok (fst (MetricsService_new reg))) cs"
    by (cases cs rule: method_calls.cases) (simp_all add: method_defs svc [OF assms(1)])
qed

end
