(* ===== verification/Delivery.thy ===== *)
theory Delivery
  imports Pipeline Consumer Relay Config
begin

text \<open>
  The way of an event, from the transaction that stores a payment to the consumer that acts on it:
  the outbox row of \<open>createPayment\<close>, the batch the relay's publisher sends, the message the consumer
  of \<open>apps/order-service/src/services/order-event.consumer.ts\<close> is handed, once or many times, and the
  dead letter and its replay. The broker is what connects the parts: it may deliver a message again
  at any offset, and the relay may publish a row again after a crash. Nothing is defined here that
  the components do not define; the lemmas say what their composition does.
\<close>

section \<open>The consumer of the order service\<close>

definition OrderEventConsumer_topic :: string where
  "OrderEventConsumer_topic =
     (case TOPIC_REGISTRY ''PaymentInitiated'' of Some t \<Rightarrow> t | None \<Rightarrow> ''payments.initiated'')"

text \<open>The limit is only ever compared with counts, so a negative one is zero and a fraction its floor.\<close>

definition retry_limit :: "jsnum \<Rightarrow> nat" where
  "retry_limit n = (case n of Fin q \<Rightarrow> nat \<lfloor>q\<rfloor> | _ \<Rightarrow> 0)"

text \<open>\<open>handleEvent\<close> only logs, so it never throws; group and limit come from the configuration.\<close>

definition OrderEventConsumer ::
  "kafka_config \<Rightarrow> ('buf \<Rightarrow> json option) \<Rightarrow> (string \<Rightarrow> bool) \<Rightarrow> upgrade_registry \<Rightarrow> 'buf consumer_env \<Rightarrow> 'buf consumer_env" where
  "OrderEventConsumer kf parse date_ok reg env =
     env\<lparr>cn_groupId := kf_consumerGroupId kf, cn_retryLimit := retry_limit (kf_consumerRetryLimit kf),
         cn_deserialize := (\<lambda>v. the (deserialize parse date_ok reg v)),
         cn_fault := (cn_fault env)(P_handle := None)\<rparr>"

section \<open>The envelope of an outbox row\<close>

definition event_envelope :: "string \<Rightarrow> string \<Rightarrow> outbox_params \<Rightarrow> envelope" where
  "event_envelope i ts ps =
     \<lparr>e_eventId = i, e_eventType = op_eventType ps, e_correlationId = op_correlationId ps,
      e_causationId = op_causationId ps, e_sagaId = op_correlationId ps, e_timestamp = ts, e_version = Fin 1,
      e_payload = op_payload ps, e_extra = []\<rparr>"

lemma canonical_outbox: "canonicalEnvelope (outbox_envelope i ts ps) = envelope_json (event_envelope i ts ps)"
  by (simp add: canonicalEnvelope_def as_envelope_def outbox_envelope_def event_envelope_def jstring_def jnumber_def)

lemma as_envelope_event: "as_envelope (envelope_json (event_envelope i ts ps)) = event_envelope i ts ps"
  using as_envelope_json [of "event_envelope i ts ps"] by (simp add: event_envelope_def)

lemma validate_outbox:
  "validateEnvelope date_ok (outbox_envelope i ts ps) = Inr () \<longleftrightarrow>
     js_trim i \<noteq> [] \<and> js_trim (op_eventType ps) \<noteq> [] \<and> js_trim (op_correlationId ps) \<noteq> [] \<and>
     js_trim (op_causationId ps) \<noteq> [] \<and> js_trim ts \<noteq> [] \<and> date_ok ts"
  by (auto simp: validate_Inr_iff outbox_envelope_def nonblank_def jstring_def)

lemma version_outbox: "e_version (as_envelope (outbox_envelope i ts ps)) = Fin 1"
  by (simp add: as_envelope_def outbox_envelope_def jnumber_def)

text \<open>What deserializing gives of a canonical envelope that validates.\<close>

lemma deserialize_canonical:
  assumes "parse v = Some (envelope_json (e\<lparr>e_extra := []\<rparr>))" "validateEnvelope date_ok (envelope_json (e\<lparr>e_extra := []\<rparr>)) = Inr ()"
    and "e_version e = Fin 1"
  shows "deserialize parse date_ok reg v = Some (Inr (e\<lparr>e_extra := []\<rparr>))"
proof -
  have "version_positive_integer (Fin 1)" by (simp add: version_positive_integer_def is_integer_Fin)
  then show ?thesis
    using assms validate_Inr_iff [of date_ok "envelope_json (e\<lparr>e_extra := []\<rparr>)"] as_envelope_json [of e]
    by (simp add: deserialize_def upgradeVersion_current)
qed

section \<open>The message of an outbox row\<close>

lemma outbox_item_Inr:
  "outbox_item e = Inr i \<longleftrightarrow> truthy (ob_payload e) \<and> typeof_object (ob_payload e) \<and>
     (\<exists>topic. event_topic e = Inr topic \<and>
        i = \<lparr>bi_topic = topic, bi_key = ob_aggregateId e, bi_event = ob_payload e, bi_headers = ob_traceHeaders e\<rparr>)"
  by (auto simp: outbox_item_def payload_envelope_def rbind_Inr_iff)

lemma prepare_message_Inr:
  "prepare_message env i = Inr tm \<longleftrightarrow>
     validateEnvelope (pe_date_ok env) (bi_event i) = Inr () \<and> e_version (as_envelope (bi_event i)) = Fin 1 \<and>
     tm = (bi_topic i, \<lparr>km_key = bi_key i, km_value = pe_stringify env (canonicalEnvelope (bi_event i)),
             km_headers = final_headers (pe_inject env) (bi_event i) (bi_headers i)\<rparr>)"
  by (auto simp: prepare_message_def rbind_Inr_iff serialize_Inr)

text \<open>A batch the broker acknowledged holds the message of each of its rows.\<close>

lemma published_message:
  assumes "KafkaOutboxPublisher_publishBatch env sendBatch events = Inr pubs" "e \<in> set events"
  obtains batch ack topic msg where "sendBatch batch = Inr ack" "event_topic e = Inr topic"
    "msg \<in> set (topic_messages batch topic)" "km_key msg = ob_aggregateId e"
    "km_value msg = pe_stringify env (canonicalEnvelope (ob_payload e))"
    "validateEnvelope (pe_date_ok env) (ob_payload e) = Inr ()"
proof -
  obtain items rs where it: "rmap outbox_item events = Inr items" "KafkaEventProducer_publishBatch env sendBatch items = Inr rs"
    using assms(1) by (auto simp: outbox_publishBatch_Inr)
  obtain prepared ack where pr: "rmap (prepare_message env) items = Inr prepared" "sendBatch (group_by_topic prepared) = Inr ack"
    using it(2) by (auto simp: publishBatch_Inr)
  have la: "list_all2 (\<lambda>e i. outbox_item e = Inr i) events items" "list_all2 (\<lambda>i m. prepare_message env i = Inr m) items prepared"
    using it(1) pr(1) by (simp_all add: rmap_Inr_iff)
  obtain i where i: "i \<in> set items" "outbox_item e = Inr i" using list_all2_ex1 [OF la(1) assms(2)] by blast
  obtain tm where tm: "tm \<in> set prepared" "prepare_message env i = Inr tm" using list_all2_ex1 [OF la(2) i(1)] by blast
  have "snd tm \<in> set (topic_messages (group_by_topic prepared) (fst tm))"
    using tm(1) group_by_topic_spec [of prepared "fst tm"] by auto
  with i(2) tm(2) pr(2) show thesis by (intro that [of "group_by_topic prepared" ack "fst tm" "snd tm"])
      (auto simp: outbox_item_Inr prepare_message_Inr)
qed

text \<open>A row whose envelope does not validate can never be published, alone or in a batch.\<close>

lemma invalid_row_unpublished:
  assumes "e \<in> set events" "validateEnvelope (pe_date_ok env) (ob_payload e) \<noteq> Inr ()"
  shows "\<exists>x. KafkaOutboxPublisher_publishBatch env sendBatch events = Inl x"
proof (cases "KafkaOutboxPublisher_publishBatch env sendBatch events")
  case (Inr pubs)
  from published_message [OF Inr assms(1)] assms(2) show ?thesis by metis
qed simp

section \<open>The row of a payment\<close>

text \<open>What \<open>createPayment\<close> puts into the outbox with a payment.\<close>

definition event_params :: "payment \<Rightarrow> json option \<Rightarrow> create_payment_body \<Rightarrow> outbox_params" where
  "event_params p orderId b =
     \<lparr>op_aggregateId = p_id p, op_aggregateType = ''Payment'', op_eventType = ''PaymentInitiated'',
      op_payload = event_payload p orderId b, op_requestId = p_requestId p,
      op_correlationId = p_correlationId p, op_causationId = p_causationId p\<rparr>"

definition event_timestamp :: "create_env \<Rightarrow> string" where
  "event_timestamp env = ce_iso_of env (ce_eventNow env)"

lemma created_row:
  assumes "createPayment env flt orders fraud ctx b m db = (Inr q, calls, db')"
  obtains r orderId where "db_outbox db' = db_outbox db @ [r]" "db_payments db' = db_payments db @ [q]"
    "order_stage orders m (js_trim (cp_reference b)) b = Inr orderId"
    "ob_id r = ce_eventId env" "ob_aggregateId r = p_id q"
    "ob_eventType r = ''PaymentInitiated''" "ob_payload r = outbox_envelope (ce_eventId env) (event_timestamp env) (event_params q orderId b)"
    "p_correlationId q = str_or (rc_correlationId ctx) ''N/A''" "p_causationId q = str_or (rc_requestId ctx) (p_correlationId q)"
proof -
  obtain o1 ps e es where os: "order_stage orders m (js_trim (cp_reference b)) b = Inr o1" and c:
    "PaymentRepository_create (ce_dbNow env) (new_payment env ctx b m) (db_payments db) = Inr (q, ps)"
    "OutboxRepository_save (new_outbox_event env (new_payment env ctx b m) o1 b) (db_outbox db) = Inr (e, es)"
    "db' = db\<lparr>db_payments := ps, db_outbox := es\<rparr>"
    using createPayment_InrD [OF assms] unfolding createPayment_rest_Inr persist_stage_Inr by blast
  have q: "q = (new_payment env ctx b m)\<lparr>p_createdAt := ce_dbNow env, p_updatedAt := ce_dbNow env\<rparr>" "ps = db_payments db @ [q]"
    using c(1) by (auto simp: PaymentRepository_create_Inr)
  have pl: "ob_payload e = outbox_envelope (ce_eventId env) (event_timestamp env) (event_params q o1 b)"
    using c(2) by (auto simp: OutboxRepository_save_Inr new_outbox_event_def OutboxEventEntity_create_def q(1) event_params_def
        event_timestamp_def event_payload_def)
  show thesis
  proof (rule that [of e o1])
    show "ob_payload e = outbox_envelope (ce_eventId env) (event_timestamp env) (event_params q o1 b)" by (rule pl)
    show "p_correlationId q = str_or (rc_correlationId ctx) ''N/A''" "p_causationId q = str_or (rc_requestId ctx) (p_correlationId q)"
      by (simp_all add: q(1) new_payment_def PaymentEntity_create_def Let_def)
  qed (use os c(2,3) q in \<open>auto simp: OutboxRepository_save_Inr\<close>)
qed

lemma row_validates:
  "validateEnvelope date_ok (outbox_envelope i ts (event_params q o1 b)) = Inr () \<longleftrightarrow>
     js_trim i \<noteq> [] \<and> js_trim (p_correlationId q) \<noteq> [] \<and> js_trim (p_causationId q) \<noteq> [] \<and> js_trim ts \<noteq> [] \<and> date_ok ts"
proof -
  have "js_trim ''PaymentInitiated'' \<noteq> []" by code_simp
  then show ?thesis by (simp add: validate_outbox event_params_def)
qed

text \<open>The same event as the row stored: what a claim, a failure or a recovery changes of a row is not sent.\<close>

definition same_event :: "outbox_event \<Rightarrow> outbox_event \<Rightarrow> bool" where
  "same_event e r \<longleftrightarrow> ob_id e = ob_id r \<and> ob_aggregateId e = ob_aggregateId r \<and> ob_eventType e = ob_eventType r \<and>
     ob_payload e = ob_payload r"

lemma same_event_updates:
  "same_event (claim_row now r) r" "same_event (recover_row limit r) r" "same_event (published_row now p r) r"
  by (simp_all add: same_event_def claim_row_def recover_row_def published_row_def Let_def)

lemma deserialize_returns: "deserialize parse date_ok reg v = Some (the (deserialize parse date_ok reg v))"
  by (auto simp: deserialize_def upgradeVersion_current split: option.split sum.split)

lemma order_consumer_deserialize:
  "deserialize parse date_ok reg v = Some (cn_deserialize (OrderEventConsumer kf parse date_ok reg env) v)"
  using deserialize_returns by (simp add: OrderEventConsumer_def)

section \<open>Properties\<close>

text \<open>
  C3. The way of a payment's event. Once the relay has published the row stored with a payment, the broker
  holds a message under the payment's id in the topic the order service's consumer subscribes to, and
  the consumer reads back from it an envelope with the row's id and the payment's data. Suppose the inbox
  has no entry of the event yet, no other worker touches the inbox meanwhile, no database call and no offset
  commit fails, and the handler fails at most \<open>consumerRetryLimit\<close> times. However often that message is then
  delivered, because handlers fail or because the row is published again after a crash of the relay, the
  handler runs once for each failure and once more to succeed, the event is \<open>PROCESSED\<close>, and every later
  delivery only commits its offset. The conditions are needed: after a commit that fails the handler runs
  a second time (\<open>Consumer.commit_failure_reruns\<close>), and after one failure more the event is a dead
  letter (C34).
\<close>

theorem payment_event_handled_once:
  assumes "createPayment ce flt orders fraud ctx b m db = (Inr q, calls, db')" "db_outbox db' = db_outbox db @ [r]"
    and "KafkaOutboxPublisher_publishBatch penv sendBatch events = Inr pubs" "e \<in> set events" "same_event e r"
    and "parse (pe_stringify penv (canonicalEnvelope (ob_payload r))) = Some (canonicalEnvelope (ob_payload r))"
    and "\<And>v. deserialize parse (pe_date_ok penv) reg v = Some (cn_deserialize env v)"
    and "undisturbed env" "inbox_ok t" "entry (ob_id r) (cn_groupId env) t = None"
    and "\<forall>d \<in> set fs. fst d \<noteq> None" "length fs \<le> cn_retryLimit env"
  shows "\<exists>batch ack msg ev t'. sendBatch batch = Inr ack \<and> msg \<in> set (topic_messages batch OrderEventConsumer_topic) \<and>
    km_key msg = p_id q \<and> cn_deserialize env (km_value msg) = Inr ev \<and> e_eventId ev = ob_id r \<and>
    jget (e_payload ev) ''paymentId'' = Some (JStr (p_id q)) \<and> jget (e_payload ev) ''merchantId'' = Some (JStr (p_merchantId q)) \<and>
    jget (e_payload ev) ''amount'' = Some (JNum (Fin (p_amount q))) \<and>
    deliver_all env (km_value msg) (fs @ (None, off) # rest) (t, []) =
      (t', replicate (length fs) (HandlerRun (ob_id r)) @ [HandlerRun (ob_id r), Committed (off + 1)]
           @ map (\<lambda>d. Committed (snd d + 1)) rest) \<and>
    entry (ob_id r) (cn_groupId env) t' = Some (I_PROCESSED, length fs)"
proof -
  obtain o1 where r: "ob_id r = ce_eventId ce" "ob_aggregateId r = p_id q" "ob_eventType r = ''PaymentInitiated''"
    "ob_payload r = outbox_envelope (ob_id r) (event_timestamp ce) (event_params q o1 b)"
    using created_row [OF assms(1)] assms(2) by (metis append1_eq_conv)
  let ?ev = "event_envelope (ob_id r) (event_timestamp ce) (event_params q o1 b)"
  obtain batch ack topic msg where msg: "sendBatch batch = Inr ack" "event_topic e = Inr topic"
    "msg \<in> set (topic_messages batch topic)" "km_key msg = ob_aggregateId e"
    "km_value msg = pe_stringify penv (canonicalEnvelope (ob_payload e))" "validateEnvelope (pe_date_ok penv) (ob_payload e) = Inr ()"
    by (rule published_message [OF assms(3,4)])
  have same: "ob_payload e = ob_payload r" "ob_eventType e = ''PaymentInitiated''" "ob_aggregateId e = p_id q"
    using assms(5) r by (simp_all add: same_event_def)
  have topic: "topic = OrderEventConsumer_topic" using msg(2) same(2) by (simp add: event_topic_def OrderEventConsumer_topic_def TOPIC_REGISTRY_def)
  have canon: "canonicalEnvelope (ob_payload r) = envelope_json ?ev" by (simp add: r(4) canonical_outbox)
  have ev: "?ev\<lparr>e_extra := []\<rparr> = ?ev" "e_version ?ev = Fin 1" "e_eventId ?ev = ob_id r" by (simp_all add: event_envelope_def)
  have "validateEnvelope (pe_date_ok penv) (envelope_json ?ev) = Inr ()" using validate_canonical [OF msg(6)] same(1) canon by simp
  then have "deserialize parse (pe_date_ok penv) reg (km_value msg) = Some (Inr ?ev)"
    using deserialize_canonical [where e = ?ev and v = "km_value msg" and parse = parse] assms(6) ev msg(5) same(1) canon by simp
  then have des: "cn_deserialize env (km_value msg) = Inr ?ev" using assms(7) by simp
  have spec: "deliver_spec (cn_retryLimit env) None (dlq_result (attempt env None) ?ev (0 + length fs + 1)) (Some (I_RETRYING, 0 + length fs))
      = ((I_PROCESSED, length fs), Done)" by (simp add: deliver_spec_def)
  obtain t' where "deliver_all env (km_value msg) (fs @ (None, off) # rest) (t, []) =
      (t', replicate (length fs) (HandlerRun (ob_id r)) @ [HandlerRun (ob_id r), Committed (off + 1)]
           @ map (\<lambda>d. Committed (snd d + 1)) rest)" "entry (ob_id r) (cn_groupId env) t' = Some (I_PROCESSED, length fs)"
    using deliver_ending [OF assms(8) des assms(11,9) _ _ spec, of off rest] assms(10,12) ev(3)
    by (auto simp: claimable_at_def)
  moreover have "jget (e_payload ?ev) ''paymentId'' = Some (JStr (p_id q))" "jget (e_payload ?ev) ''merchantId'' = Some (JStr (p_merchantId q))"
    "jget (e_payload ?ev) ''amount'' = Some (JNum (Fin (p_amount q)))"
    by (simp_all add: event_envelope_def event_params_def event_payload_def)
  ultimately show ?thesis using msg(1,3,4) same(3) des ev(3) topic by metis
qed

lemma row_published:
  assumes "validateEnvelope (pe_date_ok env) (ob_payload e) = Inr ()" "e_version (as_envelope (ob_payload e)) = Fin 1"
    and "TOPIC_REGISTRY (ob_eventType e) = Some topic" "\<And>g. \<exists>ack. sendBatch g = Inr ack"
  shows "\<exists>pubs. KafkaOutboxPublisher_publishBatch env sendBatch [e] = Inr pubs"
proof -
  let ?i = "\<lparr>bi_topic = topic, bi_key = ob_aggregateId e, bi_event = ob_payload e, bi_headers = ob_traceHeaders e\<rparr>"
  have "truthy (ob_payload e)" "typeof_object (ob_payload e)" using assms(1) by (simp_all add: validate_Inr_iff)
  then have i: "outbox_item e = Inr ?i" using assms(3) by (simp add: outbox_item_Inr event_topic_def)
  obtain tm where "prepare_message env ?i = Inr tm" using assms(1,2) by (simp add: prepare_message_Inr)
  moreover obtain ack where "sendBatch (group_by_topic [tm]) = Inr ack" using assms(4) by blast
  ultimately show ?thesis using i by (simp add: KafkaOutboxPublisher_publishBatch_def KafkaEventProducer_publishBatch_def)
qed

lemma ack_all_acks: "\<exists>ack. ack_all g = Inr ack"
  by (simp add: ack_all_def)

definition sample_orders_consumer :: "json consumer_env" where
  "sample_orders_consumer = OrderEventConsumer (kafkaConfig (\<lambda>k. None)) Some (\<lambda>s. True) registry_clear calm_env"

lemma sample_orders_simps:
  "undisturbed sample_orders_consumer" "cn_groupId sample_orders_consumer = ''surgepay-consumer-group''"
  "cn_retryLimit sample_orders_consumer = 3"
  using calm_undisturbed
  by (auto simp: sample_orders_consumer_def OrderEventConsumer_def undisturbed_def kafkaConfig_def load_int_def pre_int_def retry_limit_def)

text \<open>A payment whose event is fit to be published.\<close>

lemma sample_created:
  obtains q calls db' r where
    "createPayment sample_env no_faults (\<lambda>rq. Inr sample_order_answer) (\<lambda>rq. Inr sample_fraud_answer) sample_ctx sample_body ''m1'' empty_db
       = (Inr q, calls, db')"
    "db_outbox db' = db_outbox empty_db @ [r]" "p_id q = ''p1''" "ob_id r = ''e1''" "ob_eventType r = ''PaymentInitiated''"
    "validateEnvelope (\<lambda>s. True) (ob_payload r) = Inr ()" "e_version (as_envelope (ob_payload r)) = Fin 1"
proof -
  have "\<exists>q calls db'. createPayment sample_env no_faults (\<lambda>rq. Inr sample_order_answer) (\<lambda>rq. Inr sample_fraud_answer) sample_ctx
      sample_body ''m1'' empty_db = (Inr q, calls, db')"
    unfolding createPayment_stages by (simp add: order_stage_sample fraud_stage_sample sample_body_def empty_db_def)
  then obtain q calls db' where c: "createPayment sample_env no_faults (\<lambda>rq. Inr sample_order_answer) (\<lambda>rq. Inr sample_fraud_answer)
      sample_ctx sample_body ''m1'' empty_db = (Inr q, calls, db')" by blast
  obtain r o1 where r: "db_outbox db' = db_outbox empty_db @ [r]" "ob_id r = ce_eventId sample_env" "ob_eventType r = ''PaymentInitiated''"
    "ob_payload r = outbox_envelope (ce_eventId sample_env) (event_timestamp sample_env) (event_params q o1 sample_body)"
    "p_correlationId q = str_or (rc_correlationId sample_ctx) ''N/A''" "p_causationId q = str_or (rc_requestId sample_ctx) (p_correlationId q)"
    by (rule created_row [OF c])
  have "p_id q = ''p1''" using createPayment_rest_appends [OF createPayment_InrD [OF c]] by (metis sample_env_def create_env.select_convs(1))
  moreover have "js_trim ''e1'' \<noteq> []" "js_trim ''t'' \<noteq> []" "js_trim ''N/A'' \<noteq> []" "js_trim ''req1'' \<noteq> []" by code_simp+
  then have "validateEnvelope (\<lambda>s. True) (ob_payload r) = Inr ()"
    unfolding r(4) row_validates r(5,6) by (simp add: sample_env_def sample_ctx_def event_timestamp_def)
  ultimately show thesis using c r by (intro that [of q calls db' r]) (simp_all add: version_outbox sample_env_def)
qed

theorem payment_event_handled_once_witness:
  "\<exists>v t'. deliver_all sample_orders_consumer v [(None, 7), (None, 9)] ([], [])
      = (t', [HandlerRun ''e1'', Committed 8, Committed 10]) \<and> entry ''e1'' ''surgepay-consumer-group'' t' = Some (I_PROCESSED, 0)"
proof -
  obtain q calls db' r where c: "createPayment sample_env no_faults (\<lambda>rq. Inr sample_order_answer) (\<lambda>rq. Inr sample_fraud_answer)
      sample_ctx sample_body ''m1'' empty_db = (Inr q, calls, db')" "db_outbox db' = db_outbox empty_db @ [r]"
    and r: "ob_id r = ''e1''" "ob_eventType r = ''PaymentInitiated''" "validateEnvelope (\<lambda>s. True) (ob_payload r) = Inr ()"
      "e_version (as_envelope (ob_payload r)) = Fin 1"
    by (rule sample_created)
  have env: "pe_date_ok plain_env = (\<lambda>s. True)" "pe_stringify plain_env = (\<lambda>j. j)" by (simp_all add: plain_env_def)
  have "TOPIC_REGISTRY (ob_eventType (claim_row 5 r)) = Some ''payments.initiated''"
    by (simp add: claim_row_def r(2) TOPIC_REGISTRY_def)
  then obtain pubs where pub: "KafkaOutboxPublisher_publishBatch plain_env ack_all [claim_row 5 r] = Inr pubs"
    using row_published [where env = plain_env and e = "claim_row 5 r" and sendBatch = ack_all] r(3,4) ack_all_acks env
    by (auto simp: claim_row_def)
  have des: "deserialize Some (pe_date_ok plain_env) registry_clear v = Some (cn_deserialize sample_orders_consumer v)" for v
    using order_consumer_deserialize [of Some "\<lambda>s. True" registry_clear v "kafkaConfig (\<lambda>k. None)" calm_env]
    by (simp add: env(1) flip: sample_orders_consumer_def)
  have ent: "entry (ob_id r) (cn_groupId sample_orders_consumer) [] = None" by (rule calm_simps)
  have js: "Some (pe_stringify plain_env (canonicalEnvelope (ob_payload r))) = Some (canonicalEnvelope (ob_payload r))" by (simp add: env(2))
  have "claim_row 5 r \<in> set [claim_row 5 r]" "inbox_ok []" "\<forall>d \<in> set ([] :: (exn option \<times> nat) list). fst d \<noteq> None"
    "length ([] :: (exn option \<times> nat) list) \<le> cn_retryLimit sample_orders_consumer" by simp_all
  from payment_event_handled_once [OF c pub this(1) same_event_updates(1) js des sample_orders_simps(1) this(2) ent this(3,4), of 7 "[(None, 9)]"]
  obtain v t' where "deliver_all sample_orders_consumer v [(None, 7), (None, 9)] ([], []) = (t', [HandlerRun (ob_id r), Committed 8, Committed 10])"
    "entry (ob_id r) (cn_groupId sample_orders_consumer) t' = Some (I_PROCESSED, 0)" by auto
  then show ?thesis using r(1) sample_orders_simps(2) by auto
qed

section \<open>Dead letters\<close>

text \<open>How the replayer checks the event of a record: serialize it, and deserialize that.\<close>

definition reserialize :: "'buf producer_env \<Rightarrow> ('buf \<Rightarrow> json option) \<Rightarrow> upgrade_registry \<Rightarrow> json \<Rightarrow> exn + envelope" where
  "reserialize env parse reg j =
     rbind (serialize (pe_stringify env) (pe_date_ok env) j) (\<lambda>b. the (deserialize parse (pe_date_ok env) reg b))"

text \<open>A published event, read back.\<close>

lemma serialized_event:
  assumes "serialize stringify date_ok j = Inr v" "parse v = Some (canonicalEnvelope j)"
  defines "e \<equiv> (as_envelope j)\<lparr>e_extra := []\<rparr>"
  shows "deserialize parse date_ok reg v = Some (Inr e)" and "envelope_json e = canonicalEnvelope j"
    and "validateEnvelope date_ok (envelope_json e) = Inr ()" and "e_version e = Fin 1"
    and "serialize stringify date_ok (envelope_json e) = Inr v"
proof -
  from assms(1) have v: "validateEnvelope date_ok j = Inr ()" "e_version (as_envelope j) = Fin 1" "v = stringify (canonicalEnvelope j)"
    by (simp_all add: serialize_Inr)
  show ej: "envelope_json e = canonicalEnvelope j" by (simp add: e_def canonicalEnvelope_def)
  show ve: "validateEnvelope date_ok (envelope_json e) = Inr ()" using validate_canonical [OF v(1)] ej by simp
  show e1: "e_version e = Fin 1" using v(2) by (simp add: e_def)
  have id: "e\<lparr>e_extra := []\<rparr> = e" by (simp add: e_def)
  then have ae: "as_envelope (envelope_json e) = e" using as_envelope_json [of e] by simp
  then have "canonicalEnvelope (envelope_json e) = envelope_json e" using id by (simp add: canonicalEnvelope_def)
  with ve e1 ae v(3) ej show "serialize stringify date_ok (envelope_json e) = Inr v" by (simp add: serialize_Inr)
  show "deserialize parse date_ok reg v = Some (Inr e)"
    using deserialize_canonical [of parse v e date_ok reg] assms(2) ve e1 id ej by simp
qed

lemma dlq_envelope_serializes:
  assumes "validateEnvelope date_ok (envelope_json e) = Inr ()" "js_trim (cn_iso env) \<noteq> []" "date_ok (cn_iso env)"
    and d: "d = dlq_envelope env e x n"
  shows "serialize stringify date_ok (envelope_json d) = Inr (stringify (envelope_json d))"
    and "validateEnvelope date_ok (envelope_json d) = Inr ()" and "d\<lparr>e_extra := []\<rparr> = d" and "e_version d = Fin 1"
proof -
  have "js_trim ''DeadLetterRecord'' \<noteq> []" by code_simp
  with assms show vd: "validateEnvelope date_ok (envelope_json d) = Inr ()"
    by (simp add: validate_Inr_envelope d dlq_envelope_def DEAD_LETTER_EVENT_TYPE_def)
  show id: "d\<lparr>e_extra := []\<rparr> = d" and d1: "e_version d = Fin 1" by (simp_all add: d dlq_envelope_def)
  have "as_envelope (envelope_json d) = d" using as_envelope_json [of d] id by simp
  with vd id d1 show "serialize stringify date_ok (envelope_json d) = Inr (stringify (envelope_json d))"
    by (simp add: serialize_Inr canonicalEnvelope_def)
qed

lemma publish_serialized:
  assumes "serialize (pe_stringify env) (pe_date_ok env) j = Inr v"
  shows "KafkaEventProducer_publish env send topic key j hdrs =
    send topic [\<lparr>km_key = key, km_value = v, km_headers = final_headers (pe_inject env) j hdrs\<rparr>]"
  using assms by (simp add: KafkaEventProducer_publish_def)

text \<open>
  C14. The end of an event nobody can handle. When the handler fails on a published event once more than
  \<open>consumerRetryLimit\<close>, the event goes to the dead letter queue and is acknowledged there for good. The
  queue's message deserializes to a record from which the replayer sends the very same message value to the
  event's own topic again, succeeding exactly when the broker takes it; but under the event's id as its
  key, where the relay used the payment's id.
\<close>

theorem dead_letter_replayed:
  assumes "serialize (pe_stringify penv) (pe_date_ok penv) j = Inr v" "parse v = Some (canonicalEnvelope j)"
    and "ev = (as_envelope j)\<lparr>e_extra := []\<rparr>" "TOPIC_REGISTRY (e_eventType ev) = Some topic"
    and "undisturbed env" "cn_fault env P_dlq = None" "inbox_ok t" "entry (e_eventId ev) (cn_groupId env) t = None"
    and "cn_deserialize env v = Inr ev" "js_trim (cn_iso env) \<noteq> []" "pe_date_ok penv (cn_iso env)"
    and "cn_publish env = (\<lambda>tp key e. KafkaEventProducer_publish penv send tp key e None)" "\<And>tp ms. \<exists>md. send tp ms = Inr md"
    and "\<forall>d \<in> set fs. fst d \<noteq> None" "length fs = cn_retryLimit env"
    and "dl = dlq_envelope env ev x (length fs + 1)" "parse (pe_stringify penv (envelope_json dl)) = Some (envelope_json dl)"
  shows "(\<exists>t'. deliver_all env v (fs @ (Some x, off) # rest) (t, []) =
        (t', replicate (length fs) (HandlerRun (e_eventId ev))
           @ [HandlerRun (e_eventId ev), DlqPublished (e_eventId ev), Committed (off + 1)] @ map (\<lambda>d. Committed (snd d + 1)) rest) \<and>
        entry (e_eventId ev) (cn_groupId env) t' = Some (I_DLQ_SENT, length fs + 1))
    \<and> (\<exists>w hdrs. (\<forall>broker. KafkaEventProducer_publish penv broker resolveDlqTopic (e_eventId ev) (envelope_json dl) None =
          broker resolveDlqTopic [\<lparr>km_key = e_eventId ev, km_value = w, km_headers = hdrs\<rparr>]) \<and>
        deserialize parse (pe_date_ok penv) reg w = Some (Inr dl))
    \<and> (\<exists>hdrs. \<forall>broker. replay (reserialize penv parse reg) (\<lambda>tp key e. KafkaEventProducer_publish penv broker tp key e None) reason (e_payload dl)
        = (case broker topic [\<lparr>km_key = e_eventId ev, km_value = v, km_headers = hdrs\<rparr>] of
             Inl err \<Rightarrow> (False, Some (reason err)) | Inr md \<Rightarrow> (True, None)))"
proof (intro conjI)
  note se = serialized_event [where parse = parse, OF assms(1,2), folded assms(3)]
  let ?att = "attempt env (Some x)"
  have dl: "dlq_envelope ?att ev x (length fs + 1) = dl" by (simp add: assms(16) dlq_envelope_def)
  note ds = dlq_envelope_serializes [OF se(3) assms(10,11,16)]
  have "dlq_result ?att ev (length fs + 1) = None"
    using assms(13) publish_serialized [OF ds(1)] unfolding dlq_result_def
    by (simp add: assms(6,12) dl [simplified] split: sum.split) (metis Inr_not_Inl)
  then have spec: "deliver_spec (cn_retryLimit env) (Some x) (dlq_result ?att ev (0 + length fs + 1)) (Some (I_RETRYING, 0 + length fs))
      = ((I_DLQ_SENT, length fs + 1), Dead)" using assms(15) by (simp add: deliver_spec_def)
  show "\<exists>t'. deliver_all env v (fs @ (Some x, off) # rest) (t, []) =
        (t', replicate (length fs) (HandlerRun (e_eventId ev))
           @ [HandlerRun (e_eventId ev), DlqPublished (e_eventId ev), Committed (off + 1)] @ map (\<lambda>d. Committed (snd d + 1)) rest) \<and>
        entry (e_eventId ev) (cn_groupId env) t' = Some (I_DLQ_SENT, length fs + 1)"
    using deliver_ending [OF assms(5,9,14,7) _ _ spec, of off rest] assms(8,15) by (simp add: claimable_at_def)
  have "deserialize parse (pe_date_ok penv) reg (pe_stringify penv (envelope_json dl)) = Some (Inr dl)"
    using deserialize_canonical [of parse "pe_stringify penv (envelope_json dl)" dl] ds(2-4) assms(17) by simp
  then show "\<exists>w hdrs. (\<forall>broker. KafkaEventProducer_publish penv broker resolveDlqTopic (e_eventId ev) (envelope_json dl) None =
          broker resolveDlqTopic [\<lparr>km_key = e_eventId ev, km_value = w, km_headers = hdrs\<rparr>]) \<and>
        deserialize parse (pe_date_ok penv) reg w = Some (Inr dl)"
    using publish_serialized [OF ds(1)] by blast
  have "reserialize penv parse reg (envelope_json ev) = Inr ev" using se(1,5) by (simp add: reserialize_def)
  moreover have "jget (e_payload dl) ''originalEvent'' = Some (envelope_json ev)" "truthy (envelope_json ev)"
    by (simp_all add: assms(16) dlq_envelope_def dead_letter_json_def envelope_json_def)
  ultimately show "\<exists>hdrs. \<forall>broker. replay (reserialize penv parse reg) (\<lambda>tp key e. KafkaEventProducer_publish penv broker tp key e None) reason (e_payload dl)
        = (case broker topic [\<lparr>km_key = e_eventId ev, km_value = v, km_headers = hdrs\<rparr>] of
             Inl err \<Rightarrow> (False, Some (reason err)) | Inr md \<Rightarrow> (True, None))"
    using assms(4) by (intro exI [of _ "final_headers (pe_inject penv) (envelope_json ev) None"])
      (simp add: replay_def publish_serialized [OF se(5)] split: sum.split)
qed

definition sample_dlq_consumer :: "json consumer_env" where
  "sample_dlq_consumer = calm_env\<lparr>cn_retryLimit := 1, cn_deserialize := (\<lambda>v. the (deserialize Some (\<lambda>s. True) registry_clear v)),
     cn_publish := (\<lambda>tp key e. KafkaEventProducer_publish plain_env (\<lambda>tp ms. Inr []) tp key e None)\<rparr>"

theorem dead_letter_replayed_witness:
  "\<exists>t' dl hdrs. deliver_all sample_dlq_consumer (canonicalEnvelope (envelope_json sample_envelope)) [(Some P2025, 4), (Some P2025, 4), (None, 6)] ([], [])
      = (t', [HandlerRun ''e1'', HandlerRun ''e1'', DlqPublished ''e1'', Committed 5, Committed 7]) \<and>
    replay (reserialize plain_env Some registry_clear)
        (\<lambda>tp key e. KafkaEventProducer_publish plain_env
           (\<lambda>tp ms. if (tp, map km_value ms) = (''payments.initiated'', [canonicalEnvelope (envelope_json sample_envelope)]) then Inr [] else Inl P2025)
           tp key e None) (\<lambda>x. ''failed'') dl = (True, None)"
proof -
  let ?j = "envelope_json sample_envelope" and ?ev = "(as_envelope (envelope_json sample_envelope))\<lparr>e_extra := []\<rparr>"
  have env: "pe_date_ok plain_env = (\<lambda>s. True)" "pe_stringify plain_env = (\<lambda>j. j)" by (simp_all add: plain_env_def)
  have s: "serialize (pe_stringify plain_env) (pe_date_ok plain_env) ?j = Inr (canonicalEnvelope ?j)"
    by (simp add: serialize_Inr env sample_envelope_valid as_envelope_sample) (simp add: sample_envelope_def)
  have topic: "TOPIC_REGISTRY (e_eventType ?ev) = Some ''payments.initiated''"
    by (simp add: as_envelope_sample) (simp add: sample_envelope_def TOPIC_REGISTRY_def)
  have und: "undisturbed sample_dlq_consumer" "cn_fault sample_dlq_consumer P_dlq = None"
    "entry (e_eventId ?ev) (cn_groupId sample_dlq_consumer) [] = None" "pe_date_ok plain_env (cn_iso sample_dlq_consumer)"
    using calm_undisturbed by (simp_all add: sample_dlq_consumer_def undisturbed_def calm_env_def entry_def findByEventIdAndConsumer_def env)
  have iso: "js_trim (cn_iso sample_dlq_consumer) \<noteq> []" unfolding sample_dlq_consumer_def calm_env_def by code_simp
  have des: "cn_deserialize sample_dlq_consumer (canonicalEnvelope ?j) = Inr ?ev"
    using serialized_event(1) [where parse = Some and reg = registry_clear, OF s refl] env by (simp add: sample_dlq_consumer_def)
  have pub: "cn_publish sample_dlq_consumer = (\<lambda>tp key e. KafkaEventProducer_publish plain_env (\<lambda>tp ms. Inr []) tp key e None)"
    by (simp add: sample_dlq_consumer_def)
  have ack: "\<exists>md. (\<lambda>tp ms. Inr []) tp ms = (Inr md :: exn + record_metadata list)" for tp :: string and ms :: "json kafka_message list" by simp
  define dl where "dl = dlq_envelope sample_dlq_consumer ?ev P2025 (length [(Some P2025, 4 :: nat)] + 1)"
  have js: "Some (pe_stringify plain_env (envelope_json dl)) = Some (envelope_json dl)" by (simp add: env)
  have fs: "\<forall>d \<in> set [(Some P2025, 4 :: nat)]. fst d \<noteq> None" "length [(Some P2025, 4 :: nat)] = cn_retryLimit sample_dlq_consumer" "inbox_ok []"
    by (simp_all add: sample_dlq_consumer_def)
  have i: "e_eventId ?ev = ''e1''" by (simp add: as_envelope_sample) (simp add: sample_envelope_def)
  note th = dead_letter_replayed [where parse = Some and reg = registry_clear and reason = "\<lambda>x. ''failed''" and off = 4 and rest = "[(None, 6)]",
      OF s refl refl topic und(1,2) fs(3) und(3) des iso und(4) pub ack fs(1,2) dl_def js]
  let ?broker = "\<lambda>tp ms. if (tp, map km_value ms) = (''payments.initiated'', [canonicalEnvelope ?j]) then Inr [] else (Inl P2025 :: exn + record_metadata list)"
  obtain hdrs where "\<forall>broker. replay (reserialize plain_env Some registry_clear) (\<lambda>tp key e. KafkaEventProducer_publish plain_env broker tp key e None) (\<lambda>x. ''failed'') (e_payload dl)
      = (case broker ''payments.initiated'' [\<lparr>km_key = e_eventId ?ev, km_value = canonicalEnvelope ?j, km_headers = hdrs\<rparr>] of
             Inl err \<Rightarrow> (False, Some ''failed'') | Inr md \<Rightarrow> (True, None))" using th by blast
  then have "replay (reserialize plain_env Some registry_clear) (\<lambda>tp key e. KafkaEventProducer_publish plain_env ?broker tp key e None) (\<lambda>x. ''failed'') (e_payload dl)
      = (True, None)" by simp
  moreover have "\<exists>t'. deliver_all sample_dlq_consumer (canonicalEnvelope ?j) [(Some P2025, 4), (Some P2025, 4), (None, 6)] ([], [])
      = (t', [HandlerRun ''e1'', HandlerRun ''e1'', DlqPublished ''e1'', Committed 5, Committed 7])" using th i by auto
  ultimately show ?thesis by blast
qed

section \<open>Events that can never be published\<close>

lemma logging_context:
  assumes "LoggingMiddleware_use u1 u2 who None hs = (cs, hs', out)"
  shows "hs ''x-correlation-id'' = Some c \<Longrightarrow> rc_correlationId (request_context.truncate cs) = Some c"
    and "hs ''x-request-id'' = Some c \<Longrightarrow> rc_requestId (request_context.truncate cs) = Some c"
  using assms by (auto simp: LoggingMiddleware_use_def Let_def header_or_def request_context.truncate_def)

text \<open>A batch the publisher throws for: nothing is marked published, and every row of it loses an attempt.\<close>

lemma runPublish_failed:
  assumes "publish events = Inl x" "\<forall>r \<in> set (rs_table st). row_ok (rl_retryLimit cfg) r"
  shows "runPublish cfg i now publish mark_fault False events st =
     (Inl x, st\<lparr>rs_table := tbl_upd (\<lambda>r. ob_id r \<in> ob_id ` set events \<and> ob_status r = O_PUBLISHING)
                              (recover_row (rl_retryLimit cfg)) (rs_table st),
                rs_active := (rs_active st)(i := rs_active st i - length events)\<rparr>)"
  using assms(1) by (simp add: runPublish_def Let_def markFailedBatch_map [OF assms(2)] with_ids_def)

text \<open>
  C15. A tracing header nobody checks: a correlation or request identifier of blanks only (a no-break space
  survives HTTP) is taken over from the request. The payment is stored and answered 202, but the event
  stored with it does not validate, so no publication of its row can ever succeed: every batch that
  contains it fails, whatever the broker would do, and costs every row of the batch an attempt.
\<close>

theorem blank_identifier_poisons_outbox:
  assumes "payment_server senv rq db = (a, db')" "db' \<noteq> db"
    and "k \<in> {''x-correlation-id'', ''x-request-id''}" "received (hr_headers rq) k = Some c" "c \<noteq> []" "js_trim c = []"
  shows "fst a = 202 \<and> (\<exists>r. db_outbox db' = db_outbox db @ [r] \<and>
    (\<forall>env sendBatch events e st. e \<in> set events \<longrightarrow> same_event e r \<longrightarrow> (\<forall>r \<in> set (rs_table st). row_ok (rl_retryLimit cfg) r) \<longrightarrow>
      (\<exists>x. runPublish cfg i now (KafkaOutboxPublisher_publishBatch (env :: json producer_env) sendBatch) mark_fault False events st =
         (Inl x, st\<lparr>rs_table := tbl_upd (\<lambda>r. ob_id r \<in> ob_id ` set events \<and> ob_status r = O_PUBLISHING)
                                  (recover_row (rl_retryLimit cfg)) (rs_table st),
                    rs_active := (rs_active st)(i := rs_active st i - length events)\<rparr>))))"
proof -
  obtain cs hs out m q calls where log: "LoggingMiddleware_use (pe_uuid1 senv) (pe_uuid2 senv) None None (received (hr_headers rq)) = (cs, hs, out)"
    and "received (hr_headers rq) ''x-merchant-id'' = Some m" "m \<noteq> []" "CreatePaymentRequestDto_ok (request_body rq)"
    and accepted: "a = (202, JObj [(''paymentId'', JStr (p_id q)), (''status'', JStr (payment_status_str (p_status q)))])" and created:
    "createPayment (pe_create senv) (pe_faults senv) (pe_orders senv (request_context.truncate cs)) (pe_fraud senv (request_context.truncate cs))
       (request_context.truncate cs) (as_create_payment (request_body rq)) m db = (Inr q, calls, db')"
    by (rule payment_server_created [OF assms(1,2)])
  obtain r o1 where r: "db_outbox db' = db_outbox db @ [r]"
    "ob_payload r = outbox_envelope (ce_eventId (pe_create senv)) (event_timestamp (pe_create senv)) (event_params q o1 (as_create_payment (request_body rq)))"
    "p_correlationId q = str_or (rc_correlationId (request_context.truncate cs)) ''N/A''"
    "p_causationId q = str_or (rc_requestId (request_context.truncate cs)) (p_correlationId q)"
    by (rule created_row [OF created])
  have "js_trim (p_correlationId q) = [] \<or> js_trim (p_causationId q) = []"
    using assms(3-6) r(3,4) logging_context [OF log] by auto
  then have bad: "validateEnvelope d (ob_payload r) \<noteq> Inr ()" for d by (auto simp: r(2) row_validates)
  have unpublished: "\<exists>x. KafkaOutboxPublisher_publishBatch env sendBatch events = Inl x" if "e \<in> set events" "same_event e r"
    for env :: "json producer_env" and sendBatch events e
    using invalid_row_unpublished [OF that(1)] bad that(2) by (simp add: same_event_def)
  have fails: "\<exists>x. runPublish cfg i now (KafkaOutboxPublisher_publishBatch env sendBatch) mark_fault False events st =
      (Inl x, st\<lparr>rs_table := tbl_upd (\<lambda>r. ob_id r \<in> ob_id ` set events \<and> ob_status r = O_PUBLISHING)
                              (recover_row (rl_retryLimit cfg)) (rs_table st),
                 rs_active := (rs_active st)(i := rs_active st i - length events)\<rparr>)"
    if member: "e \<in> set events" "same_event e r" and ok: "\<forall>r \<in> set (rs_table st). row_ok (rl_retryLimit cfg) r"
    for env :: "json producer_env" and sendBatch events e st
  proof -
    obtain x where "KafkaOutboxPublisher_publishBatch env sendBatch events = Inl x" using unpublished member by blast
    from runPublish_failed [where publish = "KafkaOutboxPublisher_publishBatch env sendBatch", OF this ok] show ?thesis by (rule exI)
  qed
  have "fst a = 202" using accepted by simp
  then show ?thesis by (intro conjI exI [of _ r] allI impI r(1)) (assumption, rule fails)
qed

definition blank_request :: http_request where
  "blank_request = \<lparr>hr_method = ''POST'', hr_url = ''/api/v1/payments'', hr_baseURL = [], hr_timeout = 5,
     hr_headers = (\<lambda>k. None)(''x-merchant-id'' \<mapsto> ''m1'', ''x-correlation-id'' \<mapsto> [CHR 0xA0]),
     hr_data = Some (payment_service_body sample_gateway_body)\<rparr>"

theorem blank_identifier_poisons_outbox_witness:
  "\<exists>ps db' r x st'. payment_server sample_payment_env blank_request empty_db = ((202, ps), db') \<and> db_outbox db' = [r] \<and>
     runPublish sample_cfg 0 11 (KafkaOutboxPublisher_publishBatch plain_env ack_all) None False [claim_row 10 r] relay_init = (Inl x, st')"
proof -
  have h: "received (hr_headers blank_request) ''x-merchant-id'' = Some ''m1''" "received (hr_headers blank_request) ''x-correlation-id'' = Some [CHR 0xA0]"
    "request_body blank_request = payment_service_body sample_gateway_body" by (simp_all add: received_def request_body_def blank_request_def)
  obtain ps db' where p: "payment_server sample_payment_env blank_request empty_db = ((202, ps), db')" "db' \<noteq> empty_db"
    using sample_payment_server [OF h(1,3)] by blast
  have k: "''x-correlation-id'' \<in> {''x-correlation-id'', ''x-request-id''}" "[CHR 0xA0] \<noteq> []" "js_trim [CHR 0xA0] = []"
    by (simp, simp, code_simp)
  obtain r where r: "db_outbox db' = db_outbox empty_db @ [r]"
    "\<forall>env sendBatch events e st. e \<in> set events \<longrightarrow> same_event e r \<longrightarrow> (\<forall>r \<in> set (rs_table st). row_ok (rl_retryLimit sample_cfg) r) \<longrightarrow>
      (\<exists>x. runPublish sample_cfg 0 11 (KafkaOutboxPublisher_publishBatch (env :: json producer_env) sendBatch) None False events st =
         (Inl x, st\<lparr>rs_table := tbl_upd (\<lambda>r. ob_id r \<in> ob_id ` set events \<and> ob_status r = O_PUBLISHING)
                                  (recover_row (rl_retryLimit sample_cfg)) (rs_table st),
                    rs_active := (rs_active st)(0 := rs_active st 0 - length events)\<rparr>))"
    using blank_identifier_poisons_outbox [OF p k(1) h(2) k(2,3), of sample_cfg 0 11 None] by blast
  have "claim_row 10 r \<in> set [claim_row 10 r]" "\<forall>r \<in> set (rs_table relay_init). row_ok (rl_retryLimit sample_cfg) r"
    by (simp_all add: relay_init_def)
  with r(2) same_event_updates(1) [of 10 r] obtain x st' where
    "runPublish sample_cfg 0 11 (KafkaOutboxPublisher_publishBatch plain_env ack_all) None False [claim_row 10 r] relay_init = (Inl x, st')" by blast
  then show ?thesis using p(1) r(1) by (auto simp: empty_db_def)
qed

end
