(* ===== verification/Contracts.thy ===== *)
theory Contracts
  imports Prelude
begin

text \<open>
  The interfaces the services agree on: \<open>packages/events/src\<close> (the envelope, the payloads and the types of
  all events), \<open>packages/contracts/src\<close> (requests and responses) and the dead letter record of
  \<open>packages/common/src/messaging/dead-letter.types.ts\<close>. TypeScript erases them, so nothing checks them at run
  time, and a cast (\<open>as ValidateMerchantResponse\<close>, \<open>post<OrderValidationResponse>\<close>) is only a claim. Here a type is
  a value of \<open>ts_type\<close>, and \<open>conforms\<close> says when a JSON value has it; \<open>Conformance\<close> checks what the services
  really send. An interface is a definition under its own name, with its members in their order.
\<close>

section \<open>Types\<close>

datatype ts_type = TString | TNumber | TBoolean | TUnknown | TBool bool | TLiteral "string list" | TArray ts_type
  | TRecord ts_type | TObject "(string \<times> bool \<times> ts_type) list" | TBoth ts_type ts_type

definition req :: "string \<Rightarrow> ts_type \<Rightarrow> string \<times> bool \<times> ts_type" where "req k t = (k, True, t)"
definition opt :: "string \<Rightarrow> ts_type \<Rightarrow> string \<times> bool \<times> ts_type" where "opt k t = (k, False, t)"

text \<open>An interface lets other properties through; \<open>undefined\<close> is a missing property.\<close>

fun conforms :: "ts_type \<Rightarrow> json \<Rightarrow> bool" where
  "conforms TString j = (case j of JStr s \<Rightarrow> True | _ \<Rightarrow> False)"
| "conforms TNumber j = (case j of JNum n \<Rightarrow> True | _ \<Rightarrow> False)"
| "conforms TBoolean j = (case j of JBool b \<Rightarrow> True | _ \<Rightarrow> False)"
| "conforms TUnknown j = True"
| "conforms (TBool b) j = (j = JBool b)"
| "conforms (TLiteral xs) j = (case j of JStr s \<Rightarrow> s \<in> set xs | _ \<Rightarrow> False)"
| "conforms (TArray t) j = (case j of JArr vs \<Rightarrow> list_all (conforms t) vs | _ \<Rightarrow> False)"
| "conforms (TRecord t) j = (case j of JObj ps \<Rightarrow> list_all (\<lambda>p. conforms t (snd p)) ps | _ \<Rightarrow> False)"
| "conforms (TObject fs) j =
     ((case j of JObj ps \<Rightarrow> True | _ \<Rightarrow> False) \<and>
      list_all (\<lambda>(k, required, t). case jget j k of None \<Rightarrow> \<not> required | Some v \<Rightarrow> conforms t v) fs)"
| "conforms (TBoth a b) j = (conforms a j \<and> conforms b j)"

lemma conforms_object [simp]:
  "conforms (TObject []) (JObj ps)"
  "conforms (TObject (req k t # fs)) (JObj ps) \<longleftrightarrow>
     (\<exists>v. map_of ps k = Some v \<and> conforms t v) \<and> conforms (TObject fs) (JObj ps)"
  "conforms (TObject (opt k t # fs)) (JObj ps) \<longleftrightarrow>
     (case map_of ps k of None \<Rightarrow> True | Some v \<Rightarrow> conforms t v) \<and> conforms (TObject fs) (JObj ps)"
  by (auto simp: req_def opt_def split: option.splits)

lemma conforms_object_only: "conforms (TObject fs) j \<Longrightarrow> \<exists>ps. j = JObj ps"
  by (cases j) simp_all

text \<open>A required member of a conforming value.\<close>

lemma conforms_member:
  assumes "conforms (TObject fs) j" "req k t \<in> set fs"
  obtains v where "jget j k = Some v" "conforms t v"
  using assms by (fastforce simp: req_def list_all_iff split: option.splits)

declare conforms.simps(9) [simp del]

section \<open>Events\<close>

definition BaseEventEnvelope :: "ts_type \<Rightarrow> ts_type" where
  "BaseEventEnvelope t = TObject
    [req ''eventId'' TString, req ''eventType'' TString, req ''correlationId'' TString,
     req ''causationId'' TString, req ''sagaId'' TString, req ''timestamp'' TString,
     req ''version'' TNumber, req ''payload'' t]"

text \<open>\<open>BaseEventEnvelope<P> & { eventType: typeof C }\<close>\<close>

definition event_of :: "ts_type \<Rightarrow> string \<Rightarrow> ts_type" where
  "event_of payload name = TBoth (BaseEventEnvelope payload) (TObject [req ''eventType'' (TLiteral [name])])"

definition PaymentInitiatedPayload :: ts_type where
  "PaymentInitiatedPayload = TObject
    [req ''paymentId'' TString, req ''amount'' TNumber, req ''currency'' TString,
     req ''merchantId'' TString, req ''orderId'' TString, req ''paymentMethod'' TString,
     opt ''customerId'' TString, opt ''metadata'' (TRecord TUnknown)]"

definition PaymentInitiatedEvent :: ts_type where
  "PaymentInitiatedEvent = event_of PaymentInitiatedPayload ''PaymentInitiated''"

definition PaymentCompletedPayload :: ts_type where
  "PaymentCompletedPayload = TObject
    [req ''paymentId'' TString, req ''amount'' TNumber, req ''currency'' TString,
     req ''merchantId'' TString, req ''orderId'' TString, req ''processorTransactionId'' TString,
     req ''completedAt'' TString]"

definition PaymentCompletedEvent :: ts_type where
  "PaymentCompletedEvent = event_of PaymentCompletedPayload ''PaymentCompleted''"

definition PaymentFailedPayload :: ts_type where
  "PaymentFailedPayload = TObject
    [req ''paymentId'' TString, req ''amount'' TNumber, req ''currency'' TString,
     req ''merchantId'' TString, req ''orderId'' TString, req ''errorCode'' TString,
     req ''errorMessage'' TString, req ''failedAt'' TString]"

definition PaymentFailedEvent :: ts_type where
  "PaymentFailedEvent = event_of PaymentFailedPayload ''PaymentFailed''"

definition PaymentRejectedPayload :: ts_type where
  "PaymentRejectedPayload = TObject
    [req ''paymentId'' TString, req ''amount'' TNumber, req ''currency'' TString,
     req ''merchantId'' TString, req ''orderId'' TString, req ''reason'' TString,
     req ''rejectedAt'' TString]"

definition PaymentRejectedEvent :: ts_type where
  "PaymentRejectedEvent = event_of PaymentRejectedPayload ''PaymentRejected''"

definition PaymentFlaggedPayload :: ts_type where
  "PaymentFlaggedPayload = TObject
    [req ''paymentId'' TString, req ''merchantId'' TString, req ''score'' TNumber,
     req ''reasons'' (TArray TString), req ''flaggedAt'' TString]"

definition PaymentFlaggedEvent :: ts_type where
  "PaymentFlaggedEvent = event_of PaymentFlaggedPayload ''PaymentFlagged''"

definition RecordLedgerEntryPayload :: ts_type where
  "RecordLedgerEntryPayload = TObject
    [req ''paymentId'' TString, req ''merchantId'' TString, req ''amount'' TNumber,
     req ''currency'' TString, req ''entryType'' (TLiteral [''DEBIT'', ''CREDIT'']),
     req ''description'' TString]"

definition RecordLedgerEntryCommand :: ts_type where
  "RecordLedgerEntryCommand = event_of RecordLedgerEntryPayload ''RecordLedgerEntry''"

definition ReverseLedgerEntryPayload :: ts_type where
  "ReverseLedgerEntryPayload = TObject
    [req ''paymentId'' TString, req ''merchantId'' TString, req ''amount'' TNumber,
     req ''currency'' TString, req ''reason'' TString]"

definition ReverseLedgerEntryCommand :: ts_type where
  "ReverseLedgerEntryCommand = event_of ReverseLedgerEntryPayload ''ReverseLedgerEntry''"

definition CheckPayoutEligibilityPayload :: ts_type where
  "CheckPayoutEligibilityPayload = TObject
    [req ''paymentId'' TString, req ''merchantId'' TString, req ''amount'' TNumber,
     req ''currency'' TString]"

definition CheckPayoutEligibilityCommand :: ts_type where
  "CheckPayoutEligibilityCommand = event_of CheckPayoutEligibilityPayload ''CheckPayoutEligibility''"

definition ReserveBalancePayload :: ts_type where
  "ReserveBalancePayload = TObject
    [req ''paymentId'' TString, req ''merchantId'' TString, req ''amount'' TNumber,
     req ''currency'' TString]"

definition ReserveBalanceCommand :: ts_type where
  "ReserveBalanceCommand = event_of ReserveBalancePayload ''ReserveBalance''"

definition ReverseBalancePayload :: ts_type where
  "ReverseBalancePayload = TObject
    [req ''paymentId'' TString, req ''merchantId'' TString, req ''amount'' TNumber,
     req ''currency'' TString, req ''reason'' TString]"

definition ReverseBalanceCommand :: ts_type where
  "ReverseBalanceCommand = event_of ReverseBalancePayload ''ReverseBalance''"

definition NotifyMerchantPayload :: ts_type where
  "NotifyMerchantPayload = TObject
    [req ''paymentId'' TString, req ''merchantId'' TString, req ''amount'' TNumber,
     req ''currency'' TString,
     req ''notificationType'' (TLiteral [''PAYMENT_RECEIVED'', ''PAYMENT_FAILED'', ''REVERSED'']),
     req ''destination'' TString]"

definition NotifyMerchantCommand :: ts_type where
  "NotifyMerchantCommand = event_of NotifyMerchantPayload ''NotifyMerchant''"

definition LedgerEntryRecordedPayload :: ts_type where
  "LedgerEntryRecordedPayload = TObject
    [req ''entryId'' TString, req ''paymentId'' TString, req ''merchantId'' TString,
     req ''amount'' TNumber, req ''currency'' TString, req ''recordedAt'' TString]"

definition LedgerEntryRecordedEvent :: ts_type where
  "LedgerEntryRecordedEvent = event_of LedgerEntryRecordedPayload ''LedgerEntryRecorded''"

definition LedgerRecordingFailedPayload :: ts_type where
  "LedgerRecordingFailedPayload = TObject
    [req ''paymentId'' TString, req ''merchantId'' TString, req ''amount'' TNumber,
     req ''currency'' TString, req ''reason'' TString, req ''failedAt'' TString]"

definition LedgerRecordingFailedEvent :: ts_type where
  "LedgerRecordingFailedEvent = event_of LedgerRecordingFailedPayload ''LedgerRecordingFailed''"

definition LedgerReversedPayload :: ts_type where
  "LedgerReversedPayload = TObject
    [req ''reversalEntryId'' TString, req ''originalEntryId'' TString, req ''paymentId'' TString,
     req ''merchantId'' TString, req ''amount'' TNumber, req ''currency'' TString,
     req ''reversedAt'' TString]"

definition LedgerReversedEvent :: ts_type where
  "LedgerReversedEvent = event_of LedgerReversedPayload ''LedgerReversed''"

definition EligibilityApprovedPayload :: ts_type where
  "EligibilityApprovedPayload = TObject
    [req ''paymentId'' TString, req ''merchantId'' TString, req ''approvedAt'' TString]"

definition EligibilityApprovedEvent :: ts_type where
  "EligibilityApprovedEvent = event_of EligibilityApprovedPayload ''EligibilityApproved''"

definition EligibilityDeniedPayload :: ts_type where
  "EligibilityDeniedPayload = TObject
    [req ''paymentId'' TString, req ''merchantId'' TString, req ''reason'' TString,
     req ''deniedAt'' TString]"

definition EligibilityDeniedEvent :: ts_type where
  "EligibilityDeniedEvent = event_of EligibilityDeniedPayload ''EligibilityDenied''"

definition BalanceReservedPayload :: ts_type where
  "BalanceReservedPayload = TObject
    [req ''reservationId'' TString, req ''paymentId'' TString, req ''merchantId'' TString,
     req ''amount'' TNumber, req ''currency'' TString, req ''reservedAt'' TString]"

definition BalanceReservedEvent :: ts_type where
  "BalanceReservedEvent = event_of BalanceReservedPayload ''BalanceReserved''"

definition BalanceReservationFailedPayload :: ts_type where
  "BalanceReservationFailedPayload = TObject
    [req ''paymentId'' TString, req ''merchantId'' TString, req ''amount'' TNumber,
     req ''currency'' TString, req ''reason'' TString, req ''failedAt'' TString]"

definition BalanceReservationFailedEvent :: ts_type where
  "BalanceReservationFailedEvent = event_of BalanceReservationFailedPayload ''BalanceReservationFailed''"

definition BalanceReversedPayload :: ts_type where
  "BalanceReversedPayload = TObject
    [req ''reversalId'' TString, req ''paymentId'' TString, req ''merchantId'' TString,
     req ''amount'' TNumber, req ''currency'' TString, req ''reversedAt'' TString]"

definition BalanceReversedEvent :: ts_type where
  "BalanceReversedEvent = event_of BalanceReversedPayload ''BalanceReversed''"

definition MerchantNotifiedPayload :: ts_type where
  "MerchantNotifiedPayload = TObject
    [req ''notificationId'' TString, req ''paymentId'' TString, req ''merchantId'' TString,
     req ''notifiedAt'' TString]"

definition MerchantNotifiedEvent :: ts_type where
  "MerchantNotifiedEvent = event_of MerchantNotifiedPayload ''MerchantNotified''"

definition NotificationDeferredPayload :: ts_type where
  "NotificationDeferredPayload = TObject
    [req ''notificationId'' TString, req ''paymentId'' TString, req ''merchantId'' TString,
     req ''reason'' TString, req ''deferredAt'' TString]"

definition NotificationDeferredEvent :: ts_type where
  "NotificationDeferredEvent = event_of NotificationDeferredPayload ''NotificationDeferred''"

definition NotificationDeliveryFailedPayload :: ts_type where
  "NotificationDeliveryFailedPayload = TObject
    [req ''notificationId'' TString, req ''paymentId'' TString, req ''merchantId'' TString,
     req ''reason'' TString, req ''failedAt'' TString]"

definition NotificationDeliveryFailedEvent :: ts_type where
  "NotificationDeliveryFailedEvent = event_of NotificationDeliveryFailedPayload ''NotificationDeliveryFailed''"

definition RetryScheduledPayload :: ts_type where
  "RetryScheduledPayload = TObject
    [req ''originalEventId'' TString, req ''topic'' TString, req ''attempt'' TNumber,
     req ''maxAttempts'' TNumber, req ''nextExecutionTime'' TString]"

definition RetryScheduledEvent :: ts_type where
  "RetryScheduledEvent = event_of RetryScheduledPayload ''RetryScheduled''"

definition RetryExhaustedPayload :: ts_type where
  "RetryExhaustedPayload = TObject
    [req ''originalEventId'' TString, req ''topic'' TString, req ''attempts'' TNumber,
     req ''exhaustedAt'' TString]"

definition RetryExhaustedEvent :: ts_type where
  "RetryExhaustedEvent = event_of RetryExhaustedPayload ''RetryExhausted''"

definition MessageMovedToDLQPayload :: ts_type where
  "MessageMovedToDLQPayload = TObject
    [req ''originalEventId'' TString, req ''topic'' TString, req ''reason'' TString,
     req ''movedAt'' TString]"

definition MessageMovedToDLQEvent :: ts_type where
  "MessageMovedToDLQEvent = event_of MessageMovedToDLQPayload ''MessageMovedToDLQ''"

definition ReplayRequestedPayload :: ts_type where
  "ReplayRequestedPayload = TObject
    [req ''correlationId'' TString, opt ''sagaId'' TString, req ''requestedAt'' TString]"

definition ReplayRequestedEvent :: ts_type where
  "ReplayRequestedEvent = event_of ReplayRequestedPayload ''ReplayRequested''"

definition ReplayCompletedPayload :: ts_type where
  "ReplayCompletedPayload = TObject
    [req ''correlationId'' TString, opt ''sagaId'' TString, req ''completedAt'' TString]"

definition ReplayCompletedEvent :: ts_type where
  "ReplayCompletedEvent = event_of ReplayCompletedPayload ''ReplayCompleted''"

text \<open>The event types of \<open>constants.ts\<close>, each with its event.\<close>

definition event_catalogue :: "(string \<times> ts_type) list" where
  "event_catalogue =
    [(''PaymentInitiated'', PaymentInitiatedEvent),
     (''PaymentCompleted'', PaymentCompletedEvent),
     (''PaymentFailed'', PaymentFailedEvent),
     (''PaymentRejected'', PaymentRejectedEvent),
     (''PaymentFlagged'', PaymentFlaggedEvent),
     (''RecordLedgerEntry'', RecordLedgerEntryCommand),
     (''ReverseLedgerEntry'', ReverseLedgerEntryCommand),
     (''CheckPayoutEligibility'', CheckPayoutEligibilityCommand),
     (''ReserveBalance'', ReserveBalanceCommand),
     (''ReverseBalance'', ReverseBalanceCommand),
     (''NotifyMerchant'', NotifyMerchantCommand),
     (''LedgerEntryRecorded'', LedgerEntryRecordedEvent),
     (''LedgerRecordingFailed'', LedgerRecordingFailedEvent),
     (''LedgerReversed'', LedgerReversedEvent),
     (''EligibilityApproved'', EligibilityApprovedEvent),
     (''EligibilityDenied'', EligibilityDeniedEvent),
     (''BalanceReserved'', BalanceReservedEvent),
     (''BalanceReservationFailed'', BalanceReservationFailedEvent),
     (''BalanceReversed'', BalanceReversedEvent),
     (''MerchantNotified'', MerchantNotifiedEvent),
     (''NotificationDeferred'', NotificationDeferredEvent),
     (''NotificationDeliveryFailed'', NotificationDeliveryFailedEvent),
     (''RetryScheduled'', RetryScheduledEvent),
     (''RetryExhausted'', RetryExhaustedEvent),
     (''MessageMovedToDLQ'', MessageMovedToDLQEvent),
     (''ReplayRequested'', ReplayRequestedEvent),
     (''ReplayCompleted'', ReplayCompletedEvent)]"

definition DeadLetterRecord :: ts_type where
  "DeadLetterRecord = TObject
    [req ''originalEvent'' (BaseEventEnvelope TUnknown), req ''failureReason'' TString,
     req ''retryCount'' TNumber, req ''consumer'' TString, req ''failedAt'' TString,
     req ''dlqTopic'' TString]"

section \<open>Requests and responses\<close>

definition SuccessResponse :: "ts_type \<Rightarrow> ts_type" where
  "SuccessResponse t = TObject
    [req ''success'' (TBool True), req ''data'' t]"

definition PaginationMetadata :: ts_type where
  "PaginationMetadata = TObject
    [req ''total'' TNumber, req ''page'' TNumber, req ''limit'' TNumber, req ''totalPages'' TNumber,
     req ''hasNext'' TBoolean, req ''hasPrevious'' TBoolean]"

definition PaginatedResponse :: "ts_type \<Rightarrow> ts_type" where
  "PaginatedResponse t = TObject
    [req ''success'' (TBool True), req ''data'' (TArray t), req ''meta'' PaginationMetadata]"

definition CursorMetadata :: ts_type where
  "CursorMetadata = TObject
    [opt ''nextCursor'' TString, opt ''prevCursor'' TString, req ''pageSize'' TNumber,
     req ''hasNext'' TBoolean, req ''hasPrevious'' TBoolean]"

definition CursorPaginatedResponse :: "ts_type \<Rightarrow> ts_type" where
  "CursorPaginatedResponse t = TObject
    [req ''success'' (TBool True), req ''data'' (TArray t), req ''meta'' CursorMetadata]"

definition HealthResponse :: ts_type where
  "HealthResponse = TObject
    [req ''status'' (TLiteral [''UP'', ''DOWN'', ''FAILED'']), req ''timestamp'' TString,
     req ''service'' TString, opt ''checks'' (TRecord (TLiteral [''UP'', ''DOWN'', ''FAILED'']))]"

definition ValidationErrorDetail :: ts_type where
  "ValidationErrorDetail = TObject
    [req ''field'' TString, req ''rejectedValue'' TUnknown, req ''rule'' TString, req ''message'' TString]"

definition ApiErrorDetail :: ts_type where
  "ApiErrorDetail = TObject
    [req ''code'' TString, req ''message'' TString, req ''status'' TNumber, req ''timestamp'' TString,
     req ''path'' TString, opt ''correlationId'' TString, opt ''requestId'' TString,
     opt ''validationErrors'' (TArray ValidationErrorDetail), opt ''metadata'' (TRecord TUnknown)]"

definition ApiErrorResponse :: ts_type where
  "ApiErrorResponse = TObject
    [req ''success'' (TBool False), req ''error'' ApiErrorDetail]"

definition FraudPrecheckRequest :: ts_type where
  "FraudPrecheckRequest = TObject
    [req ''merchantId'' TString, req ''amount'' TNumber, req ''currency'' TString]"

definition FraudPrecheckResponse :: ts_type where
  "FraudPrecheckResponse = TObject
    [req ''approved'' TBoolean, req ''riskScore'' TNumber, opt ''reason'' TString]"

definition OrderValidationResponse :: ts_type where
  "OrderValidationResponse = TObject
    [req ''orderId'' TString, req ''isValid'' TBoolean, req ''payable'' TBoolean, req ''amount'' TNumber,
     req ''currency'' TString, opt ''reason'' TString]"

definition CreatePaymentRequest :: ts_type where
  "CreatePaymentRequest = TObject
    [req ''idempotencyKey'' TString, req ''amount'' TNumber, req ''currency'' TString,
     req ''merchantId'' TString, req ''orderId'' TString, req ''paymentMethod'' TString,
     opt ''customerId'' TString, opt ''metadata'' (TRecord TUnknown)]"

definition CreatePaymentResponse :: ts_type where
  "CreatePaymentResponse = TObject
    [req ''paymentId'' TString,
     req ''status'' (TLiteral [''PENDING'', ''COMPLETED'', ''FAILED'', ''REJECTED'']),
     req ''amount'' TNumber, req ''currency'' TString, req ''merchantId'' TString, req ''orderId'' TString,
     req ''correlationId'' TString, req ''createdAt'' TString]"

definition MerchantResponse :: ts_type where
  "MerchantResponse = TObject
    [req ''id'' TString, req ''name'' TString, req ''email'' TString,
     req ''status'' (TLiteral [''ACTIVE'', ''INACTIVE'', ''SUSPENDED'']),
     req ''payoutSettings'' (TObject [req ''enabled'' TBoolean, req ''destination'' TString, req ''schedule'' (TLiteral [''IMMEDIATE'', ''DAILY'', ''WEEKLY''])]),
     req ''createdAt'' TString, req ''updatedAt'' TString]"

definition ValidateMerchantResponse :: ts_type where
  "ValidateMerchantResponse = TObject
    [req ''merchantId'' TString, req ''merchantName'' TString,
     req ''status'' (TLiteral [''ACTIVE'', ''INACTIVE'', ''SUSPENDED'']),
     req ''permissions'' (TArray TString), req ''webhookEnabled'' TBoolean]"

lemmas response_types = SuccessResponse_def HealthResponse_def ValidationErrorDetail_def ApiErrorDetail_def ApiErrorResponse_def
  FraudPrecheckRequest_def FraudPrecheckResponse_def OrderValidationResponse_def CreatePaymentRequest_def
  CreatePaymentResponse_def ValidateMerchantResponse_def

section \<open>The catalogue\<close>

lemma event_of_type:
  assumes "conforms (event_of p n) j"
  shows "jget j ''eventType'' = Some (JStr n)"
proof -
  from assms have "conforms (TObject [req ''eventType'' (TLiteral [n])]) j" by (simp add: event_of_def)
  then obtain v where "jget j ''eventType'' = Some v" "conforms (TLiteral [n]) v" by (rule conforms_member) simp
  then show ?thesis by (auto split: json.splits)
qed

lemma catalogue_names: "distinct (map fst event_catalogue)"
  by (simp add: event_catalogue_def)

lemmas event_defs = PaymentInitiatedEvent_def PaymentCompletedEvent_def PaymentFailedEvent_def PaymentRejectedEvent_def PaymentFlaggedEvent_def RecordLedgerEntryCommand_def ReverseLedgerEntryCommand_def CheckPayoutEligibilityCommand_def ReserveBalanceCommand_def ReverseBalanceCommand_def NotifyMerchantCommand_def LedgerEntryRecordedEvent_def LedgerRecordingFailedEvent_def LedgerReversedEvent_def EligibilityApprovedEvent_def EligibilityDeniedEvent_def BalanceReservedEvent_def BalanceReservationFailedEvent_def BalanceReversedEvent_def MerchantNotifiedEvent_def NotificationDeferredEvent_def NotificationDeliveryFailedEvent_def RetryScheduledEvent_def RetryExhaustedEvent_def MessageMovedToDLQEvent_def ReplayRequestedEvent_def ReplayCompletedEvent_def

lemma catalogue_events:
  "(n, t) \<in> set event_catalogue \<Longrightarrow> \<exists>p. t = event_of p n"
  by (auto simp: event_catalogue_def event_defs)

end
