(* ===== verification/Conformance.thy ===== *)
theory Conformance
  imports Contracts Delivery Health
begin

text \<open>
  What the services really send, against the interfaces of \<open>Contracts\<close>: the event of a stored payment,
  the event types the outbox can publish, the answers of the internal services, of the payment service
  and of the health endpoints, and the body the gateway's DTO lets in.
\<close>

section \<open>Requests\<close>

text \<open>\<open>class CreatePaymentRequestDto implements CreatePaymentRequest\<close>: what the decorators accept has the type,
  but for an optional member that is \<open>null\<close>, which \<open>IsOptional\<close> lets through.\<close>

lemma gateway_body_conforms:
  assumes "GatewayPaymentDto_ok env is_iso4217 b"
  shows "conforms CreatePaymentRequest b \<longleftrightarrow> jget b ''customerId'' \<noteq> Some JNull \<and> jget b ''metadata'' \<noteq> Some JNull"
proof -
  obtain ps where b: "b = JObj ps" using assms by (cases b) (simp_all add: GatewayPaymentDto_ok_def)
  have amount: "\<exists>v. map_of ps ''amount'' = Some v \<and> (case v of JNum n \<Rightarrow> True | _ \<Rightarrow> False)"
    using assms by (auto simp: b GatewayPaymentDto_ok_def split: option.splits json.splits)
  have texts: "\<exists>v. map_of ps k = Some v \<and> (case v of JStr n \<Rightarrow> True | _ \<Rightarrow> False)"
    if "k \<in> {''idempotencyKey'', ''currency'', ''merchantId'', ''orderId'', ''paymentMethod''}" for k
    using assms that by (auto simp: b GatewayPaymentDto_ok_def split: option.splits json.splits)
  have cust: "(case map_of ps ''customerId'' of None \<Rightarrow> True | Some v \<Rightarrow> conforms TString v)
      \<longleftrightarrow> map_of ps ''customerId'' \<noteq> Some JNull"
    using assms by (auto simp: b GatewayPaymentDto_ok_def optional_def split: option.splits json.splits)
  have meta: "(case map_of ps ''metadata'' of None \<Rightarrow> True | Some v \<Rightarrow> conforms (TRecord TUnknown) v)
      \<longleftrightarrow> map_of ps ''metadata'' \<noteq> Some JNull"
    using assms by (auto simp: b GatewayPaymentDto_ok_def optional_def is_object_def list_all_iff split: option.splits json.splits)
  show ?thesis using amount texts cust meta by (simp add: b CreatePaymentRequest_def)
qed

lemma fraud_request_conforms: "conforms FraudPrecheckRequest (fraud_request_body m b)"
  by (simp add: fraud_request_body_def FraudPrecheckRequest_def)

section \<open>Events\<close>

text \<open>Of all event types, one has a topic: a row of any other type fails every batch it is in.\<close>

lemma publishable_types:
  assumes "KafkaOutboxPublisher_publishBatch env sendBatch events = Inr pubs" "e \<in> set events"
    and "ob_eventType e \<in> fst ` set event_catalogue"
  shows "ob_eventType e = ''PaymentInitiated''"
proof -
  obtain topic where "event_topic e = Inr topic" by (rule published_message [OF assms(1,2)])
  then have "ob_eventType e = ''PaymentInitiated'' \<or> ob_eventType e = ''payments.dlq''"
    by (auto simp: event_topic_def TOPIC_REGISTRY_def split: option.splits if_splits)
  moreover have "''payments.dlq'' \<notin> fst ` set event_catalogue" by (simp add: event_catalogue_def)
  ultimately show ?thesis using assms(3) by metis
qed

lemma dead_letter_conforms:
  assumes "conforms (BaseEventEnvelope TUnknown) (envelope_json e)"
  shows "conforms (BaseEventEnvelope DeadLetterRecord) (envelope_json (dlq_envelope env e x n))"
    and "DEAD_LETTER_EVENT_TYPE \<notin> fst ` set event_catalogue"
  using assms
  by (simp_all add: dlq_envelope_def envelope_json_def BaseEventEnvelope_def DeadLetterRecord_def dead_letter_json_def jnat_def
      DEAD_LETTER_EVENT_TYPE_def event_catalogue_def)

lemma outbox_envelope_conforms:
  assumes "conforms t (op_payload ps)"
  shows "conforms (event_of t (op_eventType ps)) (outbox_envelope i ts ps)"
    and "conforms (event_of t (op_eventType ps)) (canonicalEnvelope (outbox_envelope i ts ps))"
  unfolding canonical_outbox
  using assms by (simp_all add: event_of_def outbox_envelope_def envelope_json_def event_envelope_def BaseEventEnvelope_def)

text \<open>
  C16. The event of a payment has the type it is declared with: whatever the client, the fraud service and the
  configuration say, with the order service as written the outbox row stored with a payment holds a
  \<open>PaymentInitiatedEvent\<close>, and so does the message the relay makes of it; no other event type of the catalogue fits.
\<close>

theorem stored_event_conforms:
  assumes "createPayment ce flt (call_orders env os c octx) fraud ctx b m db = (Inr q, calls, db')"
  shows "\<exists>r. db_outbox db' = db_outbox db @ [r] \<and> conforms PaymentInitiatedEvent (ob_payload r) \<and>
    conforms PaymentInitiatedEvent (canonicalEnvelope (ob_payload r)) \<and>
    (\<forall>(n, t) \<in> set event_catalogue. conforms t (ob_payload r) \<longleftrightarrow> n = ''PaymentInitiated'')"
proof -
  obtain r orderId where r: "db_outbox db' = db_outbox db @ [r]"
    and stage: "order_stage (call_orders env os c octx) m (js_trim (cp_reference b)) b = Inr orderId"
    and pl: "ob_payload r = outbox_envelope (ce_eventId ce) (event_timestamp ce) (event_params q orderId b)"
    by (rule created_row [OF assms])
  obtain i where "orderId = Some (JStr i)" using stage by (auto simp: order_stage_call split: if_splits sum.splits)
  then have "conforms PaymentInitiatedPayload (op_payload (event_params q orderId b))"
    by (simp add: event_params_def event_payload_def PaymentInitiatedPayload_def jor_def)
  from outbox_envelope_conforms [OF this] have
    c: "conforms PaymentInitiatedEvent (ob_payload r)" "conforms PaymentInitiatedEvent (canonicalEnvelope (ob_payload r))"
    unfolding pl PaymentInitiatedEvent_def by (simp_all add: event_params_def)
  have ty: "jget (ob_payload r) ''eventType'' = Some (JStr ''PaymentInitiated'')" using c(1) unfolding PaymentInitiatedEvent_def by (rule event_of_type)
  have "conforms t (ob_payload r) \<longleftrightarrow> n = ''PaymentInitiated''" if nt: "(n, t) \<in> set event_catalogue" for n t
  proof
    assume "conforms t (ob_payload r)"
    then show "n = ''PaymentInitiated''" using catalogue_events [OF nt] event_of_type ty by fastforce
  next
    assume "n = ''PaymentInitiated''"
    moreover have "(''PaymentInitiated'', PaymentInitiatedEvent) \<in> set event_catalogue" by (simp add: event_catalogue_def)
    ultimately have "t = PaymentInitiatedEvent" using nt catalogue_names by (metis eq_key_imp_eq_value)
    with c(1) show "conforms t (ob_payload r)" by simp
  qed
  with r c show ?thesis by blast
qed


theorem stored_event_conforms_witness:
  "\<exists>q calls db' r. createPayment sample_env no_faults (call_orders sample_service_env sample_orders sample_client sample_ctx) (\<lambda>rq. Inr sample_fraud_answer)
      sample_ctx sample_body ''m1'' empty_db = (Inr q, calls, db') \<and> db_outbox db' = [r] \<and> conforms PaymentInitiatedEvent (ob_payload r)"
proof -
  let ?orders = "call_orders sample_service_env sample_orders sample_client sample_ctx"
  have "\<exists>o1. order_stage ?orders ''m1'' ''r1'' sample_body = Inr o1"
    unfolding order_stage_call
    by (simp add: order_request_ok_def sample_service_env_def sample_body_def validateOrder_def
        OrderRepository_findByMerchantAndReference_def sample_orders_def sample_texts)
  then have "\<exists>q calls db'. createPayment sample_env no_faults ?orders (\<lambda>rq. Inr sample_fraud_answer)
      sample_ctx sample_body ''m1'' empty_db = (Inr q, calls, db')"
    unfolding createPayment_stages by (simp add: fraud_stage_sample sample_body_def empty_db_def sample_texts)
  then obtain q calls db' where c: "createPayment sample_env no_faults ?orders (\<lambda>rq. Inr sample_fraud_answer)
      sample_ctx sample_body ''m1'' empty_db = (Inr q, calls, db')" by blast
  from stored_event_conforms [OF c] c show ?thesis by (auto simp: empty_db_def)
qed


section \<open>Answers\<close>

text \<open>An answer with the endpoint's own status is its handler's, when no error has that status.\<close>

lemma respond_success:
  assumes "respond env url ok r = (ok, b)" "\<And>e. r = Inl e \<Longrightarrow> exn_status e \<noteq> ok"
  shows "r = Inr b"
proof (cases r)
  case (Inl e)
  with assms respond_Inl [of env url ok e] show ?thesis by auto
next
  case (Inr v)
  with assms(1) show ?thesis by (simp add: respond_Inr)
qed

lemma fraud_answer:
  assumes "fraud_server env cfg rq = (200, b)"
  obtains p where "b = precheck_json p"
proof -
  have "(case as_precheck_body (request_body rq) of None \<Rightarrow> Inl (validation_failed env)
      | Some b \<Rightarrow> rbind (FraudController_precheck (se_is_uuid4 env) (validation_failed env) (FRAUD_RULES cfg) b) (\<lambda>p. Inr (precheck_json p)))
      = Inr b"
    using assms unfolding fraud_server_def
    by (rule respond_success) (auto simp: rbind_Inl_iff FraudController_precheck_def runPrecheck_def split: option.splits if_splits dest!: run_rules_status)
  then show thesis using that by (auto simp: rbind_Inr_iff split: option.splits)
qed

lemma order_answer:
  assumes "order_server env os rq = (200, b)"
  obtains i where "b = JObj [(''valid'', JBool True), (''orderId'', JStr i)]"
proof -
  have "(case as_order_request (request_body rq) of None \<Rightarrow> Inl (validation_failed env)
      | Some b \<Rightarrow> rbind (OrderController_validateOrder (se_is_uuid env) (validation_failed env) os b) (\<lambda>ps. Inr (JObj ps))) = Inr b"
    using assms unfolding order_server_def
    by (rule respond_success) (auto simp: rbind_Inl_iff OrderController_validateOrder_def split: option.splits if_splits dest!: validateOrder_status)
  then show thesis using that
    by (auto simp: rbind_Inr_iff OrderController_validateOrder_def split: option.splits if_splits)
qed

lemma merchant_answer_json:
  assumes "merchant_server env menv rq db = ((200, b), db')" "\<And>e. me_lookup menv = Some e \<Longrightarrow> exn_status e \<noteq> 200"
  obtains k m where "judge_key (Some (k, m)) = Inr (merchant_info_of m)" "b = merchant_info_json (merchant_info_of m)"
proof -
  obtain r d where r: "validateMerchantApiKey menv (hr_headers rq ''x-api-key'') db = (r, d)" by fastforce
  have status: "exn_status e \<noteq> 200" if "r = Inl e" for e
    using r that assms(2) judge_key_status
    by (fastforce simp: validateMerchantApiKey_def pbind_def findActiveKeyWithMerchant_def pthrow_def unauthorized_def
        split: if_splits option.splits)
  have "(case r of Inl e \<Rightarrow> Inl e | Inr i \<Rightarrow> Inr (merchant_info_json i)) = Inr b"
    using assms(1) r by (intro respond_success [of env "hr_url rq" 200]) (auto simp: merchant_server_def dest: status split: sum.splits)
  then obtain i where i: "r = Inr i" "b = merchant_info_json i" by (auto split: sum.splits)
  then obtain key where "judge_key key = Inr i"
    using r by (auto simp: validateMerchantApiKey_def pbind_def findActiveKeyWithMerchant_def pthrow_def split: if_splits option.splits)
  moreover from this obtain k m where "key = Some (k, m)" "i = merchant_info_of m"
    by (auto simp: judge_key_def split: option.splits if_splits)
  ultimately show thesis using i(2) that by blast
qed

text \<open>
  C17. The answers of the services against the interfaces they are cast to. The fraud service keeps its
  contract; the merchant service keeps it exactly when every permission in the merchant's metadata is a
  string, which nothing checks; the order service answers something else than an
  \<open>OrderValidationResponse\<close>; an accepted payment is answered neither with a \<open>CreatePaymentResponse\<close> nor wrapped
  as the gateway documents it; the health endpoint answers a \<open>HealthResponse\<close>.
\<close>

theorem answers_against_contracts:
  assumes "fraud_server env cfg frq = (200, fb)" "order_server env os orq = (200, ob)"
    and "merchant_server env menv mrq mdb = ((200, mb), mdb')" "\<And>e. me_lookup menv = Some e \<Longrightarrow> exn_status e \<noteq> 200"
    and "payment_server penv prq pdb = ((202, pb), pdb')" "pdb' \<noteq> pdb"
  shows "conforms FraudPrecheckResponse fb
    \<and> \<not> conforms OrderValidationResponse ob \<and> conforms (TObject [req ''valid'' (TBool True), req ''orderId'' TString]) ob
    \<and> (\<exists>k m. judge_key (Some (k, m)) = Inr (merchant_info_of m) \<and> mb = merchant_info_json (merchant_info_of m) \<and>
        (conforms ValidateMerchantResponse mb \<longleftrightarrow> (\<forall>p \<in> set (mi_permissions (merchant_info_of m)). conforms TString p)))
    \<and> \<not> conforms CreatePaymentResponse pb \<and> \<not> conforms (SuccessResponse TUnknown) pb
    \<and> conforms (TObject [req ''paymentId'' TString, req ''status'' (TLiteral [''PENDING''])]) pb
    \<and> conforms HealthResponse (snd (fst (getOverall hctx ts hst)))"
proof -
  obtain p where f: "fb = precheck_json p" by (rule fraud_answer [OF assms(1)])
  obtain i where o1: "ob = JObj [(''valid'', JBool True), (''orderId'', JStr i)]" by (rule order_answer [OF assms(2)])
  obtain k m where mk: "judge_key (Some (k, m)) = Inr (merchant_info_of m)" "mb = merchant_info_json (merchant_info_of m)"
    by (rule merchant_answer_json [OF assms(3,4)])
  have active: "mi_status (merchant_info_of m) = ''ACTIVE''"
    using mk(1) by (auto simp: judge_key_def merchant_info_of_def Let_def split: if_splits)
  obtain cs hs out m1 q calls where "LoggingMiddleware_use (pe_uuid1 penv) (pe_uuid2 penv) None None (received (hr_headers prq)) = (cs, hs, out)"
    and "received (hr_headers prq) ''x-merchant-id'' = Some m1" "m1 \<noteq> []" "CreatePaymentRequestDto_ok (request_body prq)"
    and answer: "(202 :: nat, pb) = (202, JObj [(''paymentId'', JStr (p_id q)), (''status'', JStr (payment_status_str (p_status q)))])"
    and created: "createPayment (pe_create penv) (pe_faults penv) (pe_orders penv (request_context.truncate cs)) (pe_fraud penv (request_context.truncate cs))
       (request_context.truncate cs) (as_create_payment (request_body prq)) m1 pdb = (Inr q, calls, pdb')" 
    by (rule payment_server_created [OF assms(5,6)])
  have "p_status q = P_PENDING" by (rule createPayment_rest_appends [OF createPayment_InrD [OF created]])
  with answer have pb: "pb = JObj [(''paymentId'', JStr (p_id q)), (''status'', JStr ''PENDING'')]" by simp
  have pay: "\<not> conforms CreatePaymentResponse pb" "\<not> conforms (SuccessResponse TUnknown) pb"
    "conforms (TObject [req ''paymentId'' TString, req ''status'' (TLiteral [''PENDING''])]) pb"
    by (simp_all add: pb CreatePaymentResponse_def SuccessResponse_def)
  have status: "health_str s \<in> {''UP'', ''DOWN'', ''FAILED''}" for s by (cases s) simp_all
  then have "conforms (TRecord (TLiteral [''UP'', ''DOWN'', ''FAILED''])) (checks_json cs)" for cs
    by (auto simp: checks_json_def list_all_iff)
  with status have "conforms HealthResponse (snd (fst (getOverall hctx ts hst)))"
    by (auto simp: getOverall_def HealthResponse_def split: prod.split)
  moreover have "conforms ValidateMerchantResponse mb \<longleftrightarrow> (\<forall>p \<in> set (mi_permissions (merchant_info_of m)). conforms TString p)"
    using active by (auto simp: mk(2) merchant_info_json_def ValidateMerchantResponse_def list_all_iff)
  moreover have "conforms FraudPrecheckResponse fb" by (simp add: f precheck_json_def FraudPrecheckResponse_def)
  moreover have "\<not> conforms OrderValidationResponse ob" "conforms (TObject [req ''valid'' (TBool True), req ''orderId'' TString]) ob"
    by (simp_all add: o1 OrderValidationResponse_def)
  ultimately show ?thesis using mk pay by blast
qed

text \<open>One request to each service.\<close>

definition rq_with :: "headers \<Rightarrow> json \<Rightarrow> http_request" where
  "rq_with hs b = \<lparr>hr_method = ''POST'', hr_url = ''/'', hr_baseURL = [], hr_timeout = 5, hr_headers = hs, hr_data = Some b\<rparr>"

lemma rq_with_simps [simp]: "request_body (rq_with hs b) = b" "hr_headers (rq_with hs b) = hs"
  by (simp_all add: rq_with_def request_body_def)

theorem answers_against_contracts_witness:
  "\<exists>ob pb db'. order_server sample_service_env sample_orders (rq_with (\<lambda>k. None) (order_request_body ''m1'' ''r1'' sample_body)) = (200, ob) \<and>
     payment_server sample_payment_env blank_request empty_db = ((202, pb), db') \<and>
     \<not> conforms OrderValidationResponse ob \<and> \<not> conforms CreatePaymentResponse pb"
proof -
  let ?f = "fraud_server sample_service_env sample_fraud_config (rq_with (\<lambda>k. None) (fraud_request_body ''m1'' sample_body))"
  let ?o = "order_server sample_service_env sample_orders (rq_with (\<lambda>k. None) (order_request_body ''m1'' ''r1'' sample_body))"
  let ?m = "merchant_server sample_service_env (sample_menvs 1) (rq_with ((\<lambda>k. None)(''x-api-key'' \<mapsto> ''secret'')) JNull) sample_merchants"
  have "\<exists>p. runPrecheck (FRAUD_RULES sample_fraud_config) \<lparr>pr_merchantId = ''m1'', pr_amount = 100, pr_currency = ''USD''\<rparr> = Inr p"
    unfolding runPrecheck_approved by (simp add: sample_fraud_config_simps sample_texts)
  then obtain fb where f: "?f = (200, fb)"
    by (auto simp: fraud_server_def as_precheck_body_def fraud_request_body_def only_props_def sample_body_def respond_Inr
        FraudController_precheck_def PrecheckRequestDto_ok_def sample_service_env_def)
  obtain ob where o1: "?o = (200, ob)"
    by (simp add: order_server_def as_order_request_body OrderController_validateOrder_def ValidateOrderDto_ok_def sample_service_env_def
        sample_body_def amount_of_def validateOrder_def OrderRepository_findByMerchantAndReference_def sample_orders_def sample_texts respond_Inr)
  obtain mb mdb where m: "?m = ((200, mb), mdb)"
    by (simp add: merchant_server_def validateMerchantApiKey_def pbind_def findActiveKeyWithMerchant_def sample_menvs_def hashApiKey_def
        find_key_def sample_merchants_def judge_key_def respond_Inr)
  have ml: "me_lookup (sample_menvs 1) = Some e \<Longrightarrow> exn_status e \<noteq> 200" for e by (simp add: sample_menvs_def)
  have h: "received (hr_headers blank_request) ''x-merchant-id'' = Some ''m1''" "request_body blank_request = payment_service_body sample_gateway_body"
    by (simp_all add: received_def request_body_def blank_request_def)
  obtain pb db' where p: "payment_server sample_payment_env blank_request empty_db = ((202, pb), db')" "db' \<noteq> empty_db"
    using sample_payment_server [OF h] by blast
  from answers_against_contracts [OF f o1 m ml p, of example_health "''t''" "\<lparr>rh_client = None, rh_cleanups = 0\<rparr>"] o1 p(1) show ?thesis by blast
qed

section \<open>Error answers\<close>

text \<open>
  The filter takes the details of a thrown error over without looking into them: it casts an array of
  details, and the members \<open>validationErrors\<close> and \<open>metadata\<close> of the body of an HTTP exception, to the types
  of the interface. \<open>typed_parts\<close> says of the thrown value that they have these types.
\<close>

definition exception_body :: "http_error \<Rightarrow> json" where
  "exception_body h =
     (case he_response_data h of Some d \<Rightarrow> if truthy d then d else he_response h | None \<Rightarrow> he_response h)"

fun typed_parts :: "exn \<Rightarrow> bool" where
  "typed_parts (BaseExn b) =
     (case be_details b of
        Some (JArr vs) \<Rightarrow> be_code b = platform_str VALIDATION_FAILED \<and> list_all (conforms ValidationErrorDetail) vs
      | _ \<Rightarrow> True)"
| "typed_parts (HttpExn h) =
     ((case jget (exception_body h) ''validationErrors'' of Some (JArr vs) \<Rightarrow> list_all (conforms ValidationErrorDetail) vs | _ \<Rightarrow> True) \<and>
      (case jget (exception_body h) ''metadata'' of Some (JArr vs) \<Rightarrow> False | _ \<Rightarrow> True))"
| "typed_parts e = True"

definition optional_part :: "ts_type \<Rightarrow> json option \<Rightarrow> bool" where
  "optional_part t v = (case v of None \<Rightarrow> True | Some j \<Rightarrow> conforms t j)"

definition typed_fields :: "error_fields \<Rightarrow> bool" where
  "typed_fields f \<longleftrightarrow> optional_part (TArray ValidationErrorDetail) (ef_validation f) \<and>
     optional_part (TRecord TUnknown) (ef_metadata f)"

lemma metadata_record: "typeof_object v \<Longrightarrow> truthy v \<Longrightarrow> conforms (TRecord TUnknown) v \<longleftrightarrow> (\<forall>vs. v \<noteq> JArr vs)"
  by (cases v) (simp_all add: list_all_iff)

lemma picked_parts:
  "ef_validation (pick_code body f) = ef_validation f" "ef_metadata (pick_code body f) = ef_metadata f"
  "ef_validation (pick_message body f) = ef_validation f" "ef_metadata (pick_message body f) = ef_metadata f"
  "ef_metadata (pick_validation body f) = ef_metadata f" "ef_validation (pick_metadata body f) = ef_validation f"
  by (simp_all add: pick_code_def pick_message_def pick_validation_def pick_metadata_def split: option.split json.split)

lemma typed_http_body:
  assumes "ef_validation f = None" "ef_metadata f = None"
  shows "typed_fields (filter_http_body body f) \<longleftrightarrow>
     (case jget body ''validationErrors'' of Some (JArr vs) \<Rightarrow> list_all (conforms ValidationErrorDetail) vs | _ \<Rightarrow> True) \<and>
     (case jget body ''metadata'' of Some (JArr vs) \<Rightarrow> False | _ \<Rightarrow> True)"
proof -
  have "optional_part (TArray ValidationErrorDetail) (ef_validation (filter_http_body body f)) \<longleftrightarrow>
      (case jget body ''validationErrors'' of Some (JArr vs) \<Rightarrow> list_all (conforms ValidationErrorDetail) vs | _ \<Rightarrow> True)"
    using assms by (simp add: filter_http_body_def picked_parts pick_validation_def optional_part_def split: option.split json.split)
  moreover have "optional_part (TRecord TUnknown) (ef_metadata (filter_http_body body f)) \<longleftrightarrow>
      (case jget body ''metadata'' of Some (JArr vs) \<Rightarrow> False | _ \<Rightarrow> True)"
    using assms by (simp add: filter_http_body_def picked_parts pick_metadata_def optional_part_def metadata_record list_all_iff split: option.split json.split)
  ultimately show ?thesis by (simp add: typed_fields_def)
qed

lemma typed_filter: "typed_fields (filter_fields e) \<longleftrightarrow> typed_parts e"
proof (cases e)
  case (BaseExn b)
  have code: "(if be_code b = ''FRAUD_REJECTED'' then platform_str PAYMENT_BLOCKED else be_code b) = platform_str VALIDATION_FAILED
      \<longleftrightarrow> be_code b = platform_str VALIDATION_FAILED" by simp
  show ?thesis
  proof (cases "be_details b")
    case (Some d)
    then show ?thesis
      by (cases d) (simp_all add: BaseExn filter_fields_def filter_base_def filter_init_def typed_fields_def optional_part_def Let_def list_all_iff)
  qed (simp add: BaseExn filter_fields_def filter_base_def filter_init_def typed_fields_def optional_part_def Let_def)
next
  case (HttpExn h)
  let ?f = "filter_init\<lparr>ef_status := he_status h, ef_message := he_message h\<rparr>"
  have f: "ef_validation ?f = None" "ef_metadata ?f = None" by (simp_all add: filter_init_def)
  have "filter_fields e = (if typeof_object (exception_body h) \<and> exception_body h \<noteq> JNull then filter_http_body (exception_body h) ?f
      else (case exception_body h of JStr s \<Rightarrow> ?f\<lparr>ef_message := [Lit s]\<rparr> | _ \<Rightarrow> ?f))"
    by (simp add: HttpExn filter_fields_def filter_http_def exception_body_def Let_def)
  with typed_http_body [OF f, of "exception_body h"] show ?thesis
    by (cases "exception_body h") (simp_all add: HttpExn typed_fields_def optional_part_def filter_init_def)
qed (simp_all add: filter_fields_def filter_init_def typed_fields_def optional_part_def)

lemma error_answer_type:
  "conforms ApiErrorResponse (snd (respond env url ok (Inl e))) \<longleftrightarrow> typed_parts e"
proof -
  have "conforms ApiErrorResponse (snd (respond env url ok (Inl e))) \<longleftrightarrow> typed_fields (filter_fields e)"
    by (cases "ef_validation (filter_fields e)"; cases "ef_metadata (filter_fields e)"; cases "fst (se_ids env)"; cases "snd (se_ids env)")
      (simp_all add: respond_def filter_catch_def createErrorResponse_def error_json_def ApiErrorResponse_def ApiErrorDetail_def
        jnat_def json_prop_def opt_prop_def str_or_opt_def typed_fields_def optional_part_def Let_def)
  then show ?thesis by (simp add: typed_filter)
qed

text \<open>The details class-validator's errors are turned into have their type, however deep they nest.\<close>

lemma parsed_errors: "list_all (conforms ValidationErrorDetail) (parseError err)"
proof (induction err rule: parseError.induct)
  case (1 prp v cs children)
  have "list_all (conforms ValidationErrorDetail) (concat (map parseError children))"
    using 1 by (auto simp: list_all_iff)
  then show ?case by (auto simp: list_all_iff ValidationErrorDetail_def)
qed

lemma domain_typed: "typed_parts (DomainException name msg code status md)"
  by (simp add: DomainException_def)

text \<open>
  C22. Whatever a controller of any service throws, an error of the program, of NestJS, of the database or a
  thrown value that is no error at all, the client gets the status of that exception, also as the member
  \<open>status\<close> of the body. The body has the type \<open>ApiErrorResponse\<close> of the contracts exactly when the thrown
  value's own validation errors and metadata have theirs. They do for the failures of the validation pipe,
  for every domain exception, for errors and thrown values the filter does not know, and for HTTP exceptions
  whose body is a text or names an error and a message only.
\<close>

theorem error_answers_typed:
  "fst (respond env url ok (Inl e)) = exn_status e \<and>
   (\<exists>er. jget (snd (respond env url ok (Inl e))) ''error'' = Some er \<and> jget er ''status'' = Some (jnat (exn_status e))) \<and>
   (conforms ApiErrorResponse (snd (respond env url ok (Inl e))) \<longleftrightarrow> typed_parts e) \<and>
   list_all (\<lambda>e. conforms ApiErrorResponse (snd (respond env url ok (Inl e))))
     [exceptionFactory errors, DomainException name msg code status md, nest_builtin name status descr txt,
      http_exn [(''error'', j1), (''message'', j2)] status, http_exn_str txt status,
      JsError name msg, PrismaError txt msg, NonError j1]"
proof -
  have "typed_parts (exceptionFactory errors)"
    using parsed_errors by (auto simp: exceptionFactory_def ValidationError_def base_exn_def list_all_iff)
  moreover have "typed_parts (nest_builtin name status descr txt)" "typed_parts (http_exn [(''error'', j1), (''message'', j2)] status)"
    "typed_parts (http_exn_str txt status)"
    by (simp_all add: http_error_defs exception_body_def)
  ultimately have "list_all (\<lambda>e. conforms ApiErrorResponse (snd (respond env url ok (Inl e))))
     [exceptionFactory errors, DomainException name msg code status md, nest_builtin name status descr txt,
      http_exn [(''error'', j1), (''message'', j2)] status, http_exn_str txt status,
      JsError name msg, PrismaError txt msg, NonError j1]"
    by (simp add: error_answer_type domain_typed)
  moreover have "fst (respond env url ok (Inl e)) = exn_status e \<and>
      (\<exists>er. jget (snd (respond env url ok (Inl e))) ''error'' = Some er \<and> jget er ''status'' = Some (jnat (exn_status e)))"
    by (simp add: respond_def filter_catch_def createErrorResponse_def error_json_def filter_fields_status Let_def)
  ultimately show ?thesis using error_answer_type [of env url ok e] by blast
qed

text \<open>
  An HTTP exception that passes on a body it was given, as the gateway's clients do with the answers of their
  services, can break the type: the filter only asks whether \<open>validationErrors\<close> is an array.
\<close>

lemma untyped_error_answer:
  "\<not> conforms ApiErrorResponse (snd (respond env url ok (Inl (http_exn [(''validationErrors'', JArr [JNum (Fin 1)])] 400))))"
proof -
  let ?e = "http_exn [(''validationErrors'', JArr [JNum (Fin 1)])] 400"
  have "\<not> typed_parts ?e" by (simp add: http_error_defs exception_body_def ValidationErrorDetail_def conforms.simps(9))
  then show ?thesis by (simp add: error_answer_type)
qed

end
