(* ===== verification/Routes.thy ===== *)
theory Routes
  imports Conformance
begin

text \<open>
  The controllers as their decorators declare them: under which path and verb NestJS registers each
  handler, the status of a success (\<open>@HttpCode\<close>), and the answers the API documentation promises
  (\<open>@ApiResponse\<close>). A schema of the documentation is a value of \<open>api_schema\<close> with its examples;
  \<open>schema_accepts\<close> says when a JSON value has it, and the theory ends with the answers the services
  really give, against what is documented. Where a route ends up is the business of \<open>Bootstrap\<close>.
\<close>

section \<open>Documentation\<close>

record api_leaf =
  al_type :: string
  al_example :: "json option"
  al_enum :: "string list"
  al_nullable :: bool
  al_description :: string

datatype api_schema = ApiLeaf api_leaf | ApiObject "(string \<times> api_schema) list" | ApiArray api_schema "json option"

definition api_string :: "string \<Rightarrow> api_leaf" where
  "api_string x = \<lparr>al_type = ''string'', al_example = Some (JStr x), al_enum = [], al_nullable = False, al_description = []\<rparr>"

definition api_number :: "rat \<Rightarrow> api_leaf" where
  "api_number x = \<lparr>al_type = ''number'', al_example = Some (JNum (Fin x)), al_enum = [], al_nullable = False, al_description = []\<rparr>"

definition api_boolean :: "bool \<Rightarrow> api_leaf" where
  "api_boolean x = \<lparr>al_type = ''boolean'', al_example = Some (JBool x), al_enum = [], al_nullable = False, al_description = []\<rparr>"

definition api_object :: "json \<Rightarrow> api_leaf" where
  "api_object x = \<lparr>al_type = ''object'', al_example = Some x, al_enum = [], al_nullable = False, al_description = []\<rparr>"

text \<open>
  What a schema accepts, by the rules of OpenAPI 3.0: the value has the type, an \<open>enum\<close> lists the
  values, \<open>null\<close> needs \<open>nullable\<close>, and a property that is not listed as required may be missing.
\<close>

definition leaf_accepts :: "api_leaf \<Rightarrow> json \<Rightarrow> bool" where
  "leaf_accepts t j =
     (case j of
        JNull \<Rightarrow> al_nullable t
      | JStr s \<Rightarrow> al_type t = ''string'' \<and> (al_enum t = [] \<or> s \<in> set (al_enum t))
      | JNum (Fin q) \<Rightarrow> al_type t = ''number''
      | JBool b \<Rightarrow> al_type t = ''boolean''
      | JObj ps \<Rightarrow> al_type t = ''object''
      | _ \<Rightarrow> False)"

fun schema_accepts :: "api_schema \<Rightarrow> json \<Rightarrow> bool" where
  "schema_accepts (ApiLeaf t) j = leaf_accepts t j"
| "schema_accepts (ApiArray s x) j = (case j of JArr vs \<Rightarrow> list_all (schema_accepts s) vs | _ \<Rightarrow> False)"
| "schema_accepts (ApiObject fs) j =
     ((case j of JObj ps \<Rightarrow> True | _ \<Rightarrow> False) \<and>
      list_all (\<lambda>(k, s). case jget j k of None \<Rightarrow> True | Some v \<Rightarrow> schema_accepts s v) fs)"

record api_response =
  ar_status :: nat
  ar_description :: string
  ar_schema :: "api_schema option"

record handler =
  hd_verb :: string
  hd_path :: string
  hd_code :: nat
  hd_summary :: string
  hd_header :: "(string \<times> bool) option"
  hd_responses :: "api_response list"

record controller =
  ct_path :: string
  ct_neutral :: bool
  ct_handlers :: "handler list"

definition plain_handler :: "string \<Rightarrow> string \<Rightarrow> nat \<Rightarrow> handler" where
  "plain_handler verb path code =
     \<lparr>hd_verb = verb, hd_path = path, hd_code = code, hd_summary = [], hd_header = None, hd_responses = []\<rparr>"

text \<open>The body that every documented error has, and one more property of the validation error.\<close>

definition api_error_schema :: "string \<Rightarrow> string \<Rightarrow> rat \<Rightarrow> string \<Rightarrow> (string \<times> api_schema) list \<Rightarrow> api_schema" where
  "api_error_schema code message status path extra = ApiObject
     [(''success'', ApiLeaf (api_boolean False)),
      (''error'', ApiObject
        ([(''code'', ApiLeaf (api_string code)), (''message'', ApiLeaf (api_string message)),
          (''status'', ApiLeaf (api_number status)), (''timestamp'', ApiLeaf (api_string ''2026-07-07T12:00:00.000Z'')),
          (''path'', ApiLeaf (api_string path))] @ extra))]"

section \<open>The gateway\<close>

definition AppController :: controller where
  "AppController = \<lparr>ct_path = [], ct_neutral = False, ct_handlers = [plain_handler ''GET'' [] 200]\<rparr>"

definition getHello :: json where
  "getHello = JStr ''SurgePay API Gateway operational''"

definition validationErrors_schema :: "string \<times> api_schema" where
  "validationErrors_schema = (''validationErrors'', ApiArray (ApiObject
     [(''field'', ApiLeaf (api_string ''amount'')), (''rejectedValue'', ApiLeaf (api_number (- 10))),
      (''rule'', ApiLeaf (api_string ''isPositive'')),
      (''message'', ApiLeaf (api_string ''amount must be a positive number''))]) None)"

definition payment_accepted_schema :: api_schema where
  "payment_accepted_schema = ApiObject
     [(''success'', ApiLeaf (api_boolean True)),
      (''data'', ApiObject
        [(''paymentId'', ApiLeaf (api_string ''pay_9b1deb4d-3b7d-4bad-9bdd-2b0d7b3dcb6d'')),
         (''status'', ApiLeaf (api_string ''PENDING'')), (''amount'', ApiLeaf (api_number (9999 / 100))),
         (''currency'', ApiLeaf (api_string ''USD'')),
         (''createdAt'', ApiLeaf (api_string ''2026-07-07T12:00:00.000Z''))])]"

definition PaymentController_responses :: "api_response list" where
  "PaymentController_responses =
     [\<lparr>ar_status = 202, ar_description = ''Payment request accepted and forwarded to the processing queue.'',
       ar_schema = Some payment_accepted_schema\<rparr>,
      \<lparr>ar_status = 400, ar_description = ''Bad Request (validation error or missing Idempotency-Key).'',
       ar_schema = Some (api_error_schema ''VALIDATION_FAILED'' ''Validation failed'' 400 ''/api/v1/payments''
         [validationErrors_schema])\<rparr>,
      \<lparr>ar_status = 401, ar_description = ''Unauthorized (invalid or missing API Key).'',
       ar_schema = Some (api_error_schema ''INVALID_API_KEY'' ''Missing or invalid API key'' 401 ''/api/v1/payments'' [])\<rparr>,
      \<lparr>ar_status = 403, ar_description = ''Forbidden (merchant account status disabled).'',
       ar_schema = Some (api_error_schema ''MERCHANT_DISABLED'' ''Merchant status is inactive'' 403 ''/api/v1/payments'' [])\<rparr>,
      \<lparr>ar_status = 409, ar_description = ''Conflict (idempotent request already in-flight).'',
       ar_schema = Some (api_error_schema ''IDEMPOTENCY_CONFLICT''
         ''An identical request with this Idempotency-Key is already in progress'' 409 ''/api/v1/payments'' [])\<rparr>,
      \<lparr>ar_status = 500, ar_description = ''Internal server error.'',
       ar_schema = Some (api_error_schema ''INTERNAL_ERROR'' ''An unexpected internal error occurred'' 500 ''/api/v1/payments'' [])\<rparr>]"

definition GatewayPaymentController :: controller where
  "GatewayPaymentController = \<lparr>ct_path = ''payments'', ct_neutral = False, ct_handlers =
     [\<lparr>hd_verb = ''POST'', hd_path = [], hd_code = 202, hd_summary = ''Process a payment request'',
       hd_header = Some (''Idempotency-Key'', True), hd_responses = PaymentController_responses\<rparr>]\<rparr>"

definition TestController :: controller where
  "TestController = \<lparr>ct_path = ''test-idempotency'', ct_neutral = False, ct_handlers = [plain_handler ''POST'' [] 202]\<rparr>"

text \<open>
  Its handler: the milliseconds it waits, if any, and what it then returns or throws. The instant it
  answers is an argument.
\<close>

definition test_delay :: "json \<Rightarrow> jsnum option" where
  "test_delay body = (case jget body ''delay'' of Some (JNum n) \<Rightarrow> if truthy (JNum n) then Some n else None | _ \<Rightarrow> None)"

definition TestController_test :: "string \<Rightarrow> json \<Rightarrow> jsnum option \<times> (exn + json)" where
  "TestController_test now body =
     (test_delay body,
      if jget body ''fail'' = Some (JBool True) \<or> jget body ''fail'' = Some (JStr ''true'')
      then Inl (http_exn_str ''Simulated downstream failure'' 500)
      else Inr (JObj [(''success'', JBool True), (''message'', JStr ''Processing completed successfully''),
             (''data'', body), (''timestamp'', JStr now)]))"

section \<open>The other services\<close>

definition HealthController :: controller where
  "HealthController = \<lparr>ct_path = [], ct_neutral = True, ct_handlers =
     [plain_handler ''GET'' ''health/live'' 200, plain_handler ''GET'' ''health/ready'' 200, plain_handler ''GET'' ''health'' 200]\<rparr>"

definition MetricsController :: controller where
  "MetricsController = \<lparr>ct_path = ''metrics'', ct_neutral = False, ct_handlers = [plain_handler ''GET'' [] 200]\<rparr>"

definition merchant_info_schema :: api_schema where
  "merchant_info_schema = ApiObject
     [(''merchantId'', ApiLeaf (api_string ''9b1deb4d-3b7d-4bad-9bdd-2b0d7b3dcb6d'')),
      (''merchantName'', ApiLeaf (api_string ''Acme Merchant'')),
      (''status'', ApiLeaf ((api_string ''ACTIVE'')\<lparr>al_enum := [''ACTIVE'', ''INACTIVE'', ''SUSPENDED'']\<rparr>)),
      (''permissions'', ApiArray (ApiLeaf ((api_string [])\<lparr>al_example := None\<rparr>))
         (Some (JArr [JStr ''payment:create'', JStr ''payment:refund'']))),
      (''webhookEnabled'', ApiLeaf (api_boolean True))]"

definition InternalMerchantController_responses :: "api_response list" where
  "InternalMerchantController_responses =
     [\<lparr>ar_status = 200, ar_description = ''Merchant API key is valid. Returns merchant permissions and status.'',
       ar_schema = Some merchant_info_schema\<rparr>,
      \<lparr>ar_status = 401, ar_description = ''Unauthorized (invalid, revoked, or missing API Key).'',
       ar_schema = Some (api_error_schema ''INVALID_API_KEY'' ''Invalid API key'' 401 ''/api/v1/internal/merchants/validate'' [])\<rparr>,
      \<lparr>ar_status = 403, ar_description = ''Forbidden (merchant account status is inactive or suspended).'',
       ar_schema = Some (api_error_schema ''MERCHANT_DISABLED'' ''Merchant status is inactive'' 403
         ''/api/v1/internal/merchants/validate'' [])\<rparr>]"

definition InternalMerchantController :: controller where
  "InternalMerchantController = \<lparr>ct_path = ''internal/merchants'', ct_neutral = False, ct_handlers =
     [\<lparr>hd_verb = ''GET'', hd_path = ''validate'', hd_code = 200, hd_summary = ''Validate merchant by API key'',
       hd_header = Some (''x-api-key'', True), hd_responses = InternalMerchantController_responses\<rparr>]\<rparr>"

definition check_result_schema :: api_schema where
  "check_result_schema = ApiObject
     [(''status'', ApiLeaf ((api_string ''MISS'')\<lparr>al_enum := [''MISS'', ''IN_PROGRESS'', ''COMPLETED'']\<rparr>)),
      (''ownerId'', ApiLeaf ((api_string ''550e8400-e29b-41d4-a716-446655440000'')
         \<lparr>al_description := ''Unique ID generated for lock ownership''\<rparr>)),
      (''requestHash'', ApiLeaf (api_string ''e3b0c44298fc1c149afbf4c8996fb92427ae41e4649b934ca495991b7852b855'')),
      (''statusCode'', ApiLeaf ((api_number 202)\<lparr>al_nullable := True\<rparr>)),
      (''headers'', ApiLeaf ((api_object (JObj [(''content-type'', JStr ''application/json'')]))\<lparr>al_nullable := True\<rparr>)),
      (''body'', ApiLeaf ((api_object (JObj [(''success'', JBool True), (''paymentId'', JStr ''pay_123'')]))\<lparr>al_nullable := True\<rparr>))]"

definition IdempotencyController_check_responses :: "api_response list" where
  "IdempotencyController_check_responses =
     [\<lparr>ar_status = 200, ar_description = ''Idempotency check completed successfully. Returns lock status or cached response details.'',
       ar_schema = Some check_result_schema\<rparr>,
      \<lparr>ar_status = 400, ar_description = ''Bad Request (validation error on input payload).'', ar_schema = None\<rparr>,
      \<lparr>ar_status = 409, ar_description = ''Conflict (an identical request with this key is already in progress).'',
       ar_schema = None\<rparr>,
      \<lparr>ar_status = 422, ar_description = ''Unprocessable Entity (idempotency key reused but request body hash did not match).'',
       ar_schema = None\<rparr>]"

definition IdempotencyController_complete_responses :: "api_response list" where
  "IdempotencyController_complete_responses =
     [\<lparr>ar_status = 200, ar_description = ''The response cache has been successfully stored.'',
       ar_schema = Some (ApiObject [(''success'', ApiLeaf (api_boolean True))])\<rparr>,
      \<lparr>ar_status = 400, ar_description = ''Bad Request (validation error on complete body payload).'', ar_schema = None\<rparr>]"

definition IdempotencyController :: controller where
  "IdempotencyController = \<lparr>ct_path = ''internal/idempotency'', ct_neutral = False, ct_handlers =
     [\<lparr>hd_verb = ''POST'', hd_path = ''check'', hd_code = 200, hd_summary = ''Check or acquire idempotency status'',
       hd_header = None, hd_responses = IdempotencyController_check_responses\<rparr>,
      \<lparr>hd_verb = ''POST'', hd_path = ''complete'', hd_code = 200, hd_summary = ''Complete request and cache response'',
       hd_header = None, hd_responses = IdempotencyController_complete_responses\<rparr>,
      plain_handler ''POST'' ''cleanup'' 200]\<rparr>"

definition PaymentController :: controller where
  "PaymentController = \<lparr>ct_path = ''payments'', ct_neutral = False, ct_handlers =
     [plain_handler ''POST'' [] 202, plain_handler ''GET'' '':id'' 200]\<rparr>"

definition OrderController :: controller where
  "OrderController = \<lparr>ct_path = ''internal/orders'', ct_neutral = False, ct_handlers = [plain_handler ''POST'' ''validate'' 200]\<rparr>"

definition FraudController :: controller where
  "FraudController = \<lparr>ct_path = ''internal/fraud'', ct_neutral = False, ct_handlers = [plain_handler ''POST'' ''precheck'' 200]\<rparr>"

section \<open>Answers against the documentation\<close>

text \<open>An answer is documented when its status is, with a schema that accepts its body if one is given.\<close>

definition documented :: "handler \<Rightarrow> nat \<times> json \<Rightarrow> bool" where
  "documented h = (\<lambda>(status, body).
     list_ex (\<lambda>r. ar_status r = status \<and> (case ar_schema r of None \<Rightarrow> True | Some s \<Rightarrow> schema_accepts s body)) (hd_responses h))"

definition create_payment_handler :: handler where
  "create_payment_handler = hd (ct_handlers GatewayPaymentController)"

definition validate_merchant_handler :: handler where
  "validate_merchant_handler = hd (ct_handlers InternalMerchantController)"

definition check_handler :: handler where
  "check_handler = hd (ct_handlers IdempotencyController)"

lemmas api_leaf_defs = api_string_def api_number_def api_boolean_def api_object_def

lemma leaf_accepts_simps [simp]:
  "leaf_accepts (api_string x) (JStr s)" "leaf_accepts (api_number q) (jnat n)" "leaf_accepts (api_boolean b) (JBool c)"
  "leaf_accepts (api_string x) (JNum v) = False" "leaf_accepts (api_number q) (JStr s) = False"
  "leaf_accepts (api_number q) (JNum (Fin r))"
  by (simp_all add: leaf_accepts_def api_leaf_defs jnat_def split: jsnum.split)

text \<open>Every error answer has the documented shape; the description of validation errors asks for more.\<close>

definition extra_accepts :: "(string \<times> api_schema) list \<Rightarrow> json \<Rightarrow> bool" where
  "extra_accepts extra er = list_all (\<lambda>(k, s). case jget er k of None \<Rightarrow> True | Some v \<Rightarrow> schema_accepts s v) extra"

lemma error_schema_accepts:
  "schema_accepts (api_error_schema code msg st path extra) (error_json env a) \<longleftrightarrow>
     extra_accepts extra (the (jget (error_json env a) ''error''))"
  by (simp add: api_error_schema_def error_json_def extra_accepts_def)

lemma extra_none [simp]: "extra_accepts [] er"
  by (simp add: extra_accepts_def)

definition rejected_numbers :: "json option \<Rightarrow> bool" where
  "rejected_numbers v = (case v of None \<Rightarrow> True | Some x \<Rightarrow> schema_accepts (snd validationErrors_schema) x)"

lemma extra_validation:
  "extra_accepts [validationErrors_schema] (the (jget (error_json env a) ''error'')) \<longleftrightarrow> rejected_numbers (ae_validationErrors a)"
  by (simp add: extra_accepts_def rejected_numbers_def validationErrors_schema_def error_json_def json_prop_def opt_prop_def
      split: option.split)

lemma documented_error:
  "documented h (respond env url ok (Inl e)) \<longleftrightarrow>
     list_ex (\<lambda>r. ar_status r = exn_status e \<and>
       (case ar_schema r of None \<Rightarrow> True
        | Some s \<Rightarrow> schema_accepts s (error_json env (snd (filter_catch e url (se_ids env) (None, None)))))) (hd_responses h)"
  by (simp add: documented_def respond_error)

lemma accepted_takes_errors: "schema_accepts payment_accepted_schema (error_json env a)"
  by (simp add: payment_accepted_schema_def error_json_def)

definition sent_reply :: "reply \<Rightarrow> nat \<times> json" where
  "sent_reply rp = (rp_status rp, rp_body rp)"

lemma gateway_error_documented:
  "documented create_payment_handler (sent_reply (error_reply env url ctx hs rp e)) \<longleftrightarrow>
     exn_status e \<in> {202, 401, 403, 409, 500} \<or> exn_status e = 400 \<and> rejected_numbers (ef_validation (filter_fields e))"
proof -
  have s: "list_ex (\<lambda>r. ar_status r = n \<and> (case ar_schema r of None \<Rightarrow> True | Some s \<Rightarrow> schema_accepts s (error_json env a)))
      PaymentController_responses \<longleftrightarrow>
      n \<in> {202, 401, 403, 409, 500} \<or> n = 400 \<and> rejected_numbers (ae_validationErrors a)" for n a
    unfolding PaymentController_responses_def by (auto simp: error_schema_accepts extra_validation accepted_takes_errors)
  show ?thesis
    unfolding documented_def create_payment_handler_def GatewayPaymentController_def
    by (simp add: s sent_reply_def error_reply_def filter_catch_def createErrorResponse_def Let_def filter_fields_status)
qed

lemma merchant_error_documented:
  "documented validate_merchant_handler (respond env url ok (Inl e)) \<longleftrightarrow> exn_status e \<in> {401, 403} \<or>
     exn_status e = 200 \<and> schema_accepts merchant_info_schema (error_json env (snd (filter_catch e url (se_ids env) (None, None))))"
  unfolding documented_error validate_merchant_handler_def InternalMerchantController_def InternalMerchantController_responses_def
  by (auto simp: error_schema_accepts)

lemma merchant_info_documented:
  "documented validate_merchant_handler (200, merchant_info_json i) \<longleftrightarrow>
     mi_status i \<in> {''ACTIVE'', ''INACTIVE'', ''SUSPENDED''} \<and> list_all (conforms TString) (mi_permissions i)"
proof -
  have "schema_accepts (ApiLeaf ((api_string [])\<lparr>al_example := None\<rparr>)) v = conforms TString v" for v
    by (auto simp: leaf_accepts_def api_leaf_defs split: json.split jsnum.split)
  then have l: "list_all (schema_accepts (ApiLeaf ((api_string [])\<lparr>al_example := None\<rparr>))) vs \<longleftrightarrow> list_all (conforms TString) vs" for vs
    by (simp add: list_all_iff)
  have e: "leaf_accepts ((api_string ''ACTIVE'')\<lparr>al_enum := [''ACTIVE'', ''INACTIVE'', ''SUSPENDED'']\<rparr>) (JStr st) \<longleftrightarrow>
      st \<in> {''ACTIVE'', ''INACTIVE'', ''SUSPENDED''}" for st
    by (simp add: leaf_accepts_def api_leaf_defs)
  show ?thesis
    unfolding documented_def validate_merchant_handler_def InternalMerchantController_def InternalMerchantController_responses_def
      merchant_info_schema_def merchant_info_json_def
    by (simp add: l e del: schema_accepts.simps(1)) (simp add: e)
qed

text \<open>A key that is verified belongs to an active merchant.\<close>

lemma verified_active:
  assumes "validateMerchantApiKey env k db = (Inr i, db')"
  shows "mi_status i = ''ACTIVE''"
  using assms
  by (auto simp: validateMerchantApiKey_def pthrow_def pbind_def judge_key_def merchant_info_of_def Let_def
      split: if_splits sum.splits prod.splits option.splits)

lemma refused_status:
  assumes "validateMerchantApiKey env k db = (Inl e, db')" "me_lookup env = None"
  shows "exn_status e \<in> {401, 403}"
  using assms
  by (auto simp: validateMerchantApiKey_def pthrow_def pbind_def judge_key_def findActiveKeyWithMerchant_def
      unauthorized_def forbidden_def split: if_splits sum.splits prod.splits option.splits)

text \<open>
  The answers of a check are documented when the stored response is one: the \<open>IN_PROGRESS\<close> of
  the documentation is never answered, since such a check is a 409.
\<close>

lemma nullable_accepts:
  "leaf_accepts ((api_number q)\<lparr>al_nullable := True\<rparr>) v \<longleftrightarrow> (case v of JNull \<Rightarrow> True | JNum (Fin r) \<Rightarrow> True | _ \<Rightarrow> False)"
  "leaf_accepts ((api_object x)\<lparr>al_nullable := True\<rparr>) v \<longleftrightarrow> (case v of JNull \<Rightarrow> True | JObj ps \<Rightarrow> True | _ \<Rightarrow> False)"
  by (auto simp: leaf_accepts_def api_leaf_defs split: json.split jsnum.split)

lemma check_documented:
  "documented check_handler (200, check_json (Miss w h))"
  "documented check_handler (200, check_json (Replay code hs b)) \<longleftrightarrow>
     (case code of JNull \<Rightarrow> True | JNum (Fin q) \<Rightarrow> True | _ \<Rightarrow> False) \<and>
     (case hs of JNull \<Rightarrow> True | JObj ps \<Rightarrow> True | _ \<Rightarrow> False) \<and> (case b of JNull \<Rightarrow> True | JObj ps \<Rightarrow> True | _ \<Rightarrow> False)"
  unfolding documented_def check_handler_def IdempotencyController_def IdempotencyController_check_responses_def check_result_schema_def
  by (simp_all add: nullable_accepts check_json.simps) (simp_all add: leaf_accepts_def api_leaf_defs)

section \<open>Properties\<close>

text \<open>
  Which answers are the documented ones. An error of the gateway's payment route is documented exactly
  for the statuses listed, a validation error only when every value it rejects is a number; the
  limiter's 429, the 503 of a merchant service that does not answer and the 422 of a reused idempotency
  key are not. The answers of the merchant service are documented unless its database fails, or a
  merchant's permissions are not texts.
\<close>

theorem answers_documented:
  assumes "me_lookup menv = None"
  shows "(documented create_payment_handler (sent_reply (error_reply env url ctx hs rp e)) \<longleftrightarrow>
      exn_status e \<in> {202, 401, 403, 409, 500} \<or> exn_status e = 400 \<and> rejected_numbers (ef_validation (filter_fields e))) \<and>
    \<not> documented create_payment_handler (sent_reply (error_reply env url ctx hs rp RATE_LIMITED)) \<and>
    \<not> documented create_payment_handler (sent_reply (error_reply env url ctx hs rp MERCHANT_DOWN)) \<and>
    (documented validate_merchant_handler (fst (merchant_server env menv rq db)) \<longleftrightarrow>
      (case fst (validateMerchantApiKey menv (hr_headers rq ''x-api-key'') db) of
         Inl e \<Rightarrow> True | Inr i \<Rightarrow> list_all (conforms TString) (mi_permissions i)))"
proof -
  obtain r db' where r: "validateMerchantApiKey menv (hr_headers rq ''x-api-key'') db = (r, db')" by (cases "validateMerchantApiKey menv (hr_headers rq ''x-api-key'') db")
  have m: "documented validate_merchant_handler (fst (merchant_server env menv rq db)) \<longleftrightarrow>
      (case r of Inl e \<Rightarrow> True | Inr i \<Rightarrow> list_all (conforms TString) (mi_permissions i))"
  proof (cases r)
    case (Inl x)
    with refused_status [OF _ assms] r have "exn_status x \<in> {401, 403}" by blast
    then have "documented validate_merchant_handler (respond env (hr_url rq) 200 (Inl x))" by (simp add: merchant_error_documented)
    with r Inl show ?thesis by (simp add: merchant_server_def)
  next
    case (Inr i)
    with verified_active r have "mi_status i = ''ACTIVE''" by blast
    then have "documented validate_merchant_handler (respond env (hr_url rq) 200 (Inr (merchant_info_json i))) \<longleftrightarrow>
        list_all (conforms TString) (mi_permissions i)"
      by (simp add: respond_def merchant_info_documented)
    with r Inr show ?thesis by (simp add: merchant_server_def)
  qed
  have n: "exn_status RATE_LIMITED = 429" "exn_status MERCHANT_DOWN = 503" by (simp_all add: RATE_LIMITED_def MERCHANT_DOWN_def)
  show ?thesis unfolding m gateway_error_documented n using r by simp
qed

theorem answers_documented_witness:
  "me_lookup (sample_menvs 1) = None \<and>
   documented validate_merchant_handler (fst (merchant_server sample_service_env (sample_menvs 1)
     (rq_with ((\<lambda>k. None)(''x-api-key'' \<mapsto> ''secret'')) JNull) sample_merchants)) \<and>
   \<not> documented create_payment_handler (sent_reply (error_reply sample_service_env ''/api/v1/payments'' sample_ctx (\<lambda>k. None) sample_reply RATE_LIMITED)) \<and>
   documented create_payment_handler (sent_reply (error_reply sample_service_env ''/api/v1/payments'' sample_ctx (\<lambda>k. None) sample_reply MISSING_KEY))"
proof -
  have l: "me_lookup (sample_menvs 1) = None" by (simp add: sample_menvs_def)
  have v: "fst (validateMerchantApiKey (sample_menvs (Suc 0)) (Some ''secret'') sample_merchants) =
      Inr \<lparr>mi_merchantId = ''m1'', mi_merchantName = ''Acme'', mi_status = ''ACTIVE'', mi_permissions = [JStr ''payment:create''],
           mi_webhookEnabled = True\<rparr>"
    by (simp add: validateMerchantApiKey_def pbind_def findActiveKeyWithMerchant_def sample_menvs_def hashApiKey_def find_key_def
        sample_merchants_def judge_key_def merchant_info_of_def)
  have k: "exn_status MISSING_KEY = 401" by (simp add: MISSING_KEY_def)
  from answers_documented [OF l, of sample_service_env "''/api/v1/payments''" sample_ctx "\<lambda>k. None" sample_reply MISSING_KEY
      "rq_with ((\<lambda>k. None)(''x-api-key'' \<mapsto> ''secret'')) JNull" sample_merchants] l
  show ?thesis by (simp add: v k rq_with_def)
qed

end
