(* ===== verification/Bootstrap.thy ===== *)
theory Bootstrap
  imports Routes Config
begin

text \<open>
  The entry points: \<open>main.ts\<close> of the gateway, of the five HTTP services and of the outbox relay. Each finds
  an environment file, creates its NestJS application and configures it by a fixed sequence of calls,
  here the list of \<open>app_call\<close>s it makes; a failure on the way ends the process with code 1. The calls fix
  where the controllers of \<open>Routes\<close> end up (prefix, version, excluded routes), on which port a service
  listens, and which pipe and filter guard it. What NestJS makes of prefix, version and controller paths
  is its documented rule, the hypothesis \<open>nest_routing\<close> on a parameter. The theorems check the parts
  against one another: the paths the services call, the probes and the ports.
\<close>

section \<open>The environment file\<close>

text \<open>
  The same search as \<open>getEnvFilePath\<close>, written a second time in every \<open>main.ts\<close>: three directories up,
  else the path in the working directory.
\<close>

fun boot_search ::
  "(string \<Rightarrow> string \<Rightarrow> string) \<Rightarrow> (string \<Rightarrow> string) \<Rightarrow> (string \<Rightarrow> bool) \<Rightarrow> string \<Rightarrow> string \<Rightarrow> nat \<Rightarrow> string \<Rightarrow> string" where
  "boot_search resolve dirname file_exists envFile resolvedEnvPath 0 tempDir = resolvedEnvPath"
| "boot_search resolve dirname file_exists envFile resolvedEnvPath (Suc n) tempDir =
     (let tempDir' = dirname tempDir;
          parentEnvPath = resolve tempDir' envFile
      in if file_exists parentEnvPath then parentEnvPath
         else boot_search resolve dirname file_exists envFile resolvedEnvPath n tempDir')"

definition boot_env_path ::
  "(string \<Rightarrow> string \<Rightarrow> string) \<Rightarrow> (string \<Rightarrow> string) \<Rightarrow> (string \<Rightarrow> bool) \<Rightarrow> process_env \<Rightarrow> string \<Rightarrow> string" where
  "boot_env_path resolve dirname file_exists env cwd =
     (let envFile = ''.env.'' @ str_or (env ''NODE_ENV'') ''development'';
          resolvedEnvPath = resolve cwd envFile
      in if file_exists resolvedEnvPath then resolvedEnvPath
         else boot_search resolve dirname file_exists envFile resolvedEnvPath 3 cwd)"

text \<open>Both searches find the same file; without one, each falls back to a path of its own.\<close>

lemma boot_search_agrees:
  "boot_search resolve dirname file_exists f d n dir = search_up resolve dirname file_exists f n dir \<and>
     file_exists (search_up resolve dirname file_exists f n dir) \<or>
   boot_search resolve dirname file_exists f d n dir = d \<and> search_up resolve dirname file_exists f n dir = f"
  by (induction n arbitrary: dir) (auto simp: Let_def)

lemma env_files_agree:
  assumes "file_exists (boot_env_path resolve dirname file_exists env cwd)"
  shows "getEnvFilePath resolve dirname file_exists env cwd = boot_env_path resolve dirname file_exists env cwd"
  using assms boot_search_agrees [of resolve dirname file_exists "''.env.'' @ str_or (env ''NODE_ENV'') ''development''"
      "resolve cwd (''.env.'' @ str_or (env ''NODE_ENV'') ''development'')" 3 cwd]
  by (auto simp: getEnvFilePath_def boot_env_path_def Let_def split: if_splits)

text \<open>The settings of the first logger, before any configuration is read.\<close>

definition bootstrap_logging :: "process_env \<Rightarrow> string \<Rightarrow> logging_config" where
  "bootstrap_logging env service =
     \<lparr>lg_level = str_or (env ''LOG_LEVEL'') ''info'', lg_pretty = is_true (env ''LOG_PRETTY''),
      lg_serviceName = str_or (env ''LOG_SERVICE_NAME'') service\<rparr>"

section \<open>Configuring an application\<close>

datatype validation_pipe = AppValidationPipe | ValidationPipe bool bool bool

record swagger_doc =
  sw_title :: string
  sw_description :: string
  sw_version :: string
  sw_tags :: "(string \<times> string) list"
  sw_server :: "string \<times> jsnum \<times> string"
  sw_apiKey :: "(string \<times> string) option"
  sw_parameters :: "(string \<times> bool) list"

datatype app_call =
    UseLogger
  | EnableShutdownHooks
  | UseGlobalPipes validation_pipe
  | UseGlobalFilters
  | UseGlobalInterceptors
  | EnableCors string string bool
  | SetGlobalPrefix string "string list"
  | EnableVersioning string
  | SwaggerSetup string swagger_doc
  | Listen jsnum string

text \<open>\<open>apiPrefix.split('/')\<close>: the first part or \<open>api\<close>, and the second without its first \<open>v\<close> or \<open>1\<close>.\<close>

definition parse_prefix :: "string \<Rightarrow> string \<times> string" where
  "parse_prefix apiPrefix =
     (case js_split (CHR ''/'') apiPrefix of
        [] \<Rightarrow> (''api'', ''1'')
      | p # parts \<Rightarrow>
          (if p = [] then ''api'' else p,
           case parts of [] \<Rightarrow> ''1'' | v # rest \<Rightarrow> if v = [] then ''1'' else remove1 (CHR ''v'') v))"

definition cors_calls :: "security_config \<Rightarrow> app_call list" where
  "cors_calls c = (if sy_corsEnabled c then [EnableCors ''*'' ''GET,HEAD,PUT,PATCH,POST,DELETE,OPTIONS'' True] else [])"

text \<open>\<open>configService.http.port || 3000\<close> in the gateway; the other services read \<open>PORT\<close> themselves.\<close>

definition gateway_port :: "http_config \<Rightarrow> jsnum" where
  "gateway_port c = (if truthy (JNum (ht_port c)) then ht_port c else Fin 3000)"

definition service_port :: "int \<Rightarrow> process_env \<Rightarrow> jsnum" where
  "service_port own env =
     (case env ''PORT'' of
        Some s \<Rightarrow> if s \<noteq> [] \<and> s \<noteq> ''3000'' then js_parseInt s else js_int own
      | None \<Rightarrow> js_int own)"

definition listen_host :: "http_config \<Rightarrow> string" where
  "listen_host c = str_or (Some (ht_host c)) ''0.0.0.0''"

definition health_routes :: "string list" where
  "health_routes = [''health'', ''health/live'', ''health/ready'']"

text \<open>What the five HTTP services have in common, in the order of the calls.\<close>

definition service_calls ::
  "validation_pipe \<Rightarrow> string list \<Rightarrow> int \<Rightarrow> (jsnum \<Rightarrow> string \<Rightarrow> swagger_doc option) \<Rightarrow> process_env \<Rightarrow> app_call list" where
  "service_calls pipe excluded own docs env =
     (let c = httpConfig env;
          (prefix, defaultVersion) = parse_prefix (ht_apiPrefix c);
          port = service_port own env;
          host = listen_host c
      in [UseLogger, EnableShutdownHooks, UseGlobalPipes pipe, UseGlobalFilters, UseGlobalInterceptors]
         @ cors_calls (securityConfig env)
         @ [SetGlobalPrefix prefix excluded, EnableVersioning defaultVersion]
         @ (case docs port host of None \<Rightarrow> [] | Some d \<Rightarrow> [SwaggerSetup ''swagger'' d])
         @ [Listen port host])"

section \<open>The services\<close>

definition gateway_docs :: "jsnum \<Rightarrow> string \<Rightarrow> swagger_doc" where
  "gateway_docs port host =
     \<lparr>sw_title = ''SurgePay API Gateway'',
      sw_description = ''The API Gateway serves as the single public entry point for the SurgePay platform. It handles API authentication, rate limiting, request validation, and proxying mutating requests downstream.'',
      sw_version = ''1.0.0'', sw_tags = [(''Payments'', ''Exposes mutating public endpoints to process transactions'')],
      sw_server = (host, port, ''Local Development Server''),
      sw_apiKey = Some (''x-api-key'', ''Authentication key provided to the merchant''),
      sw_parameters = [(''x-request-id'', False)]\<rparr>"

definition gateway_calls :: "process_env \<Rightarrow> app_call list" where
  "gateway_calls env =
     (let c = httpConfig env;
          (prefix, defaultVersion) = parse_prefix (ht_apiPrefix c);
          port = gateway_port c;
          host = listen_host c
      in [UseLogger, EnableShutdownHooks] @ cors_calls (securityConfig env)
         @ [SetGlobalPrefix prefix [], EnableVersioning defaultVersion, SwaggerSetup ''swagger'' (gateway_docs port host),
            Listen port host])"

definition merchant_docs :: "jsnum \<Rightarrow> string \<Rightarrow> swagger_doc" where
  "merchant_docs port host =
     \<lparr>sw_title = ''SurgePay Merchant Service'',
      sw_description = ''Internal platform service managing merchant records, API credentials, configuration settings, and webhooks validation.'',
      sw_version = ''1.0.0'',
      sw_tags = [(''Internal Merchants'', ''Internal APIs for merchant credential validation and details retrieval'')],
      sw_server = (host, port, ''Internal Merchant Service Server''),
      sw_apiKey = Some (''x-api-key'', ''Internal API Key passed in the headers to check validation''),
      sw_parameters = []\<rparr>"

definition merchant_calls :: "process_env \<Rightarrow> app_call list" where
  "merchant_calls = service_calls AppValidationPipe health_routes 3001 (\<lambda>port host. Some (merchant_docs port host))"

definition idempotency_docs :: "jsnum \<Rightarrow> string \<Rightarrow> swagger_doc" where
  "idempotency_docs port host =
     \<lparr>sw_title = ''SurgePay Idempotency Service'',
      sw_description = ''Internal platform service backed by Redis that guarantees request-level idempotency and prevents duplicate payments and transactions.'',
      sw_version = ''1.0.0'',
      sw_tags = [(''Internal Idempotency'', ''Internal APIs to check and record HTTP request idempotency status'')],
      sw_server = (host, port, ''Internal Idempotency Service Server''), sw_apiKey = None, sw_parameters = []\<rparr>"

definition idempotency_calls :: "process_env \<Rightarrow> app_call list" where
  "idempotency_calls =
     service_calls (ValidationPipe True True True) health_routes 3002 (\<lambda>port host. Some (idempotency_docs port host))"

definition payment_calls :: "process_env \<Rightarrow> app_call list" where
  "payment_calls = service_calls AppValidationPipe [] 3003 (\<lambda>port host. None)"

definition order_calls :: "process_env \<Rightarrow> app_call list" where
  "order_calls = service_calls AppValidationPipe [] 3004 (\<lambda>port host. None)"

definition fraud_calls :: "process_env \<Rightarrow> app_call list" where
  "fraud_calls = service_calls AppValidationPipe [] 3008 (\<lambda>port host. None)"

datatype app = Gateway_app | Merchant_app | Idempotency_app | Payment_app | Order_app | Fraud_app

definition apps :: "app list" where
  "apps = [Gateway_app, Merchant_app, Idempotency_app, Payment_app, Order_app, Fraud_app]"

fun app_calls :: "app \<Rightarrow> process_env \<Rightarrow> app_call list" where
  "app_calls Gateway_app = gateway_calls"
| "app_calls Merchant_app = merchant_calls"
| "app_calls Idempotency_app = idempotency_calls"
| "app_calls Payment_app = payment_calls"
| "app_calls Order_app = order_calls"
| "app_calls Fraud_app = fraud_calls"

text \<open>The controllers of the modules each application imports.\<close>

fun app_controllers :: "app \<Rightarrow> controller list" where
  "app_controllers Gateway_app = [AppController, TestController, GatewayPaymentController, HealthController]"
| "app_controllers Merchant_app = [InternalMerchantController, HealthController]"
| "app_controllers Idempotency_app = [IdempotencyController, HealthController]"
| "app_controllers Payment_app = [PaymentController, HealthController]"
| "app_controllers Order_app = [OrderController, MetricsController, HealthController]"
| "app_controllers Fraud_app = [FraudController]"

text \<open>
  \<open>bootstrap\<close> as a whole: creating the application may fail, the gateway then checks its own
  configuration, and listening may fail; \<open>bootstrap().catch\<close> turns each failure into exit code 1.
\<close>

definition bootstrap :: "exn + unit \<Rightarrow> (process_env \<Rightarrow> exn + unit) \<Rightarrow> (jsnum \<Rightarrow> string \<Rightarrow> exn + unit) \<Rightarrow> app \<Rightarrow> process_env \<Rightarrow> (exn + unit) \<times> app_call list" where
  "bootstrap created check listen a env =
     (case rbind created (\<lambda>u. if a = Gateway_app then check env else Inr ()) of
        Inl e \<Rightarrow> (Inl e, [])
      | Inr u \<Rightarrow> (case last (app_calls a env) of Listen port host \<Rightarrow> listen port host | _ \<Rightarrow> Inr (), app_calls a env))"

definition exit_code :: "exn + unit \<Rightarrow> int option" where
  "exit_code r = (case r of Inl e \<Rightarrow> Some 1 | Inr u \<Rightarrow> None)"

section \<open>The relay\<close>

text \<open>
  The relay serves no application, only metrics, on \<open>METRICS_PORT\<close> when that is a number other than 0; the
  answer by verb and path is the status, with the metrics in the body when it is 200. Its \<open>close\<close> closes
  that server first.
\<close>

definition metrics_port :: "process_env \<Rightarrow> jsnum option" where
  "metrics_port env =
     (case env ''METRICS_PORT'' of
        None \<Rightarrow> None
      | Some s \<Rightarrow> if s = [] then None else if truthy (JNum (js_parseInt s)) then Some (js_parseInt s) else None)"

definition metrics_server :: "string \<Rightarrow> string \<Rightarrow> string \<Rightarrow> nat \<times> string" where
  "metrics_server metrics url verb = (if url = ''/metrics'' \<and> verb = ''GET'' then (200, metrics) else (404, []))"

datatype close_step = CloseMetricsServer | CloseApplication

definition relay_close :: "process_env \<Rightarrow> close_step list" where
  "relay_close env = (case metrics_port env of None \<Rightarrow> [CloseApplication] | Some p \<Rightarrow> [CloseMetricsServer, CloseApplication])"

section \<open>Where the routes end up\<close>

text \<open>What the calls set, as NestJS keeps it.\<close>

record routing =
  rg_prefix :: string
  rg_excluded :: "string list"
  rg_version :: string

fun apply_call :: "app_call \<Rightarrow> routing \<Rightarrow> routing" where
  "apply_call (SetGlobalPrefix p ex) r = r\<lparr>rg_prefix := p, rg_excluded := ex\<rparr>"
| "apply_call (EnableVersioning v) r = r\<lparr>rg_version := v\<rparr>"
| "apply_call c r = r"

definition routing_of :: "app_call list \<Rightarrow> routing" where
  "routing_of calls = fold apply_call calls \<lparr>rg_prefix = [], rg_excluded = [], rg_version = []\<rparr>"

text \<open>
  The documented rule: the global prefix unless the route is excluded from it, then \<open>v\<close> and the version
  unless the controller is version neutral, then the paths of the controller and of the handler. It is
  assumed only for routes that are neutral or not excluded, and for a version that is not empty.
\<close>

definition join_path :: "string list \<Rightarrow> string" where
  "join_path ps = concat (map (\<lambda>p. CHR ''/'' # p) (filter (\<lambda>p. p \<noteq> []) ps))"

definition own_path :: "controller \<Rightarrow> handler \<Rightarrow> string" where
  "own_path c h = tl (join_path [ct_path c, hd_path h])"

definition documented_path :: "routing \<Rightarrow> controller \<Rightarrow> handler \<Rightarrow> string" where
  "documented_path r c h = join_path
     [if own_path c h \<in> set (rg_excluded r) then [] else rg_prefix r,
      if ct_neutral c then [] else CHR ''v'' # rg_version r, ct_path c, hd_path h]"

definition nest_routing :: "(routing \<Rightarrow> controller \<Rightarrow> handler \<Rightarrow> string) \<Rightarrow> bool" where
  "nest_routing path \<longleftrightarrow> (\<forall>r c h. rg_prefix r \<noteq> [] \<and> rg_version r \<noteq> [] \<and> (ct_neutral c \<or> own_path c h \<notin> set (rg_excluded r)) \<longrightarrow>
     path r c h = documented_path r c h)"

text \<open>An application registers a handler for this verb under exactly this path.\<close>

definition registers :: "(routing \<Rightarrow> controller \<Rightarrow> handler \<Rightarrow> string) \<Rightarrow> app \<Rightarrow> process_env \<Rightarrow> string \<Rightarrow> string \<Rightarrow> bool" where
  "registers path a env verb url \<longleftrightarrow>
     list_ex (\<lambda>c. list_ex (\<lambda>h. hd_verb h = verb \<and> path (routing_of (app_calls a env)) c h = url) (ct_handlers c)) (app_controllers a)"

text \<open>
  The calls between the services, with the paths their clients have in the code; \<open>clients_call\<close> below says
  that the modelled clients make these calls.
\<close>

definition internal_calls :: "(app \<times> string \<times> string) list" where
  "internal_calls =
     [(Gateway_app, ''POST'', ''/api/v1/payments''),
      (Merchant_app, ''GET'', ''/api/v1/internal/merchants/validate''),
      (Idempotency_app, ''POST'', idem_path I_check), (Idempotency_app, ''POST'', idem_path I_complete),
      (Idempotency_app, ''POST'', idem_path I_cleanup),
      (Payment_app, ''POST'', ''/api/v1/payments''),
      (Order_app, ''POST'', ''/api/v1/internal/orders/validate''),
      (Fraud_app, ''POST'', ''/api/v1/internal/fraud/precheck'')]"

section \<open>Lemmas\<close>

text \<open>The two parts of a prefix hold no slash, and the first is never empty.\<close>

lemma js_split_parts: "w \<in> set (js_split d s) \<Longrightarrow> d \<notin> set w"
proof (induction s arbitrary: w)
  case (Cons c cs)
  then show ?case by (cases "js_split d cs") (auto split: if_splits)
qed simp

lemma js_split_ne: "js_split d s \<noteq> []"
  by (induction s) (auto split: list.split)

lemma parse_prefix_parts:
  assumes "parse_prefix s = (p, v)"
  shows "CHR ''/'' \<notin> set p" "CHR ''/'' \<notin> set v" "p \<noteq> []"
proof -
  note parts = js_split_parts [of _ "CHR ''/''" s]
  obtain w ws where s: "js_split (CHR ''/'') s = w # ws" using js_split_ne by (cases "js_split (CHR ''/'') s") blast+
  have p: "p = (if w = [] then ''api'' else w)" using assms s by (auto simp: parse_prefix_def)
  with parts [of w] s show "CHR ''/'' \<notin> set p" by (auto split: if_splits)
  show "p \<noteq> []" using p by simp
  show "CHR ''/'' \<notin> set v"
  proof (cases ws)
    case Nil
    with assms s show ?thesis by (auto simp: parse_prefix_def)
  next
    case (Cons x xs)
    have "CHR ''/'' \<notin> set x" using parts [of x] s Cons by simp
    then have "CHR ''/'' \<notin> set (remove1 (CHR ''v'') x)" using set_remove1_subset by fastforce
    with assms s Cons show ?thesis by (auto simp: parse_prefix_def split: if_splits)
  qed
qed

lemma fold_cors [simp]: "fold apply_call (cors_calls c) r = r"
  by (simp add: cors_calls_def)

lemma service_routing:
  assumes "parse_prefix (ht_apiPrefix (httpConfig env)) = (p, v)"
  shows "routing_of (service_calls pipe ex own docs env) = \<lparr>rg_prefix = p, rg_excluded = ex, rg_version = v\<rparr>"
    "routing_of (gateway_calls env) = \<lparr>rg_prefix = p, rg_excluded = [], rg_version = v\<rparr>"
  using assms by (simp_all add: routing_of_def service_calls_def gateway_calls_def Let_def split: option.split)

fun app_excluded :: "app \<Rightarrow> string list" where
  "app_excluded Merchant_app = health_routes"
| "app_excluded Idempotency_app = health_routes"
| "app_excluded a = []"

lemma app_routing:
  assumes "parse_prefix (ht_apiPrefix (httpConfig env)) = (p, v)"
  shows "routing_of (app_calls a env) = \<lparr>rg_prefix = p, rg_excluded = app_excluded a, rg_version = v\<rparr>"
  by (cases a) (simp_all add: service_routing [OF assms] merchant_calls_def idempotency_calls_def payment_calls_def
      order_calls_def fraud_calls_def)

lemma slash_split:
  assumes "CHR ''/'' \<notin> set a" "CHR ''/'' \<notin> set b"
  shows "a @ CHR ''/'' # x = b @ CHR ''/'' # y \<longleftrightarrow> a = b \<and> x = y"
proof -
  have t: "takeWhile (\<lambda>c. c \<noteq> CHR ''/'') (w @ CHR ''/'' # z) = w" if "CHR ''/'' \<notin> set w" for w z
  proof -
    have "\<forall>c\<in>set w. c \<noteq> CHR ''/''" using that by metis
    then show ?thesis by (simp add: takeWhile_append2)
  qed
  show ?thesis using t [OF assms(1), of x] t [OF assms(2), of y] by (metis same_append_eq list.inject)
qed

text \<open>The routes of every application, spelled out.\<close>

definition route_table :: "app \<Rightarrow> string \<Rightarrow> string \<Rightarrow> (string \<times> string) list" where
  "route_table a p v = concat (map (\<lambda>c. map (\<lambda>h. (hd_verb h,
     documented_path \<lparr>rg_prefix = p, rg_excluded = app_excluded a, rg_version = v\<rparr> c h)) (ct_handlers c)) (app_controllers a))"

lemmas controller_defs = AppController_def TestController_def GatewayPaymentController_def HealthController_def MetricsController_def
  InternalMerchantController_def IdempotencyController_def PaymentController_def OrderController_def FraudController_def
  plain_handler_def

lemma covered_by_rule:
  assumes "c \<in> set (app_controllers a)" "h \<in> set (ct_handlers c)"
  shows "ct_neutral c \<or> own_path c h \<notin> set (app_excluded a)"
proof -
  have "list_all (\<lambda>c. list_all (\<lambda>h. ct_neutral c \<or> own_path c h \<notin> set (app_excluded a)) (ct_handlers c)) (app_controllers a)"
    by (cases a; simp only:; code_simp)
  with assms show ?thesis by (auto simp: list_all_iff)
qed

lemma registers_table:
  assumes "nest_routing path" "parse_prefix (ht_apiPrefix (httpConfig env)) = (p, v)" "v \<noteq> []"
  shows "registers path a env verb url \<longleftrightarrow> (verb, url) \<in> set (route_table a p v)"
proof -
  let ?r = "\<lparr>rg_prefix = p, rg_excluded = app_excluded a, rg_version = v\<rparr>"
  have "path ?r c h = documented_path ?r c h" if "c \<in> set (app_controllers a)" "h \<in> set (ct_handlers c)" for c h
    using assms(1,3) parse_prefix_parts(3) [OF assms(2)] covered_by_rule [OF that] by (simp add: nest_routing_def)
  then show ?thesis
    unfolding registers_def route_table_def app_routing [OF assms(2)] by (auto simp: list_ex_iff)
qed

definition base_path :: "string \<Rightarrow> string \<Rightarrow> string" where
  "base_path p v = CHR ''/'' # p @ ''/v'' @ v"

lemma route_tables:
  assumes "p \<noteq> []"
  shows "route_table Gateway_app p v = [(''GET'', base_path p v), (''POST'', base_path p v @ ''/test-idempotency''),
      (''POST'', base_path p v @ ''/payments''), (''GET'', CHR ''/'' # p @ ''/health/live''), (''GET'', CHR ''/'' # p @ ''/health/ready''),
      (''GET'', CHR ''/'' # p @ ''/health'')]"
    "route_table Merchant_app p v = [(''GET'', base_path p v @ ''/internal/merchants/validate''), (''GET'', ''/health/live''),
      (''GET'', ''/health/ready''), (''GET'', ''/health'')]"
    "route_table Idempotency_app p v = [(''POST'', base_path p v @ ''/internal/idempotency/check''),
      (''POST'', base_path p v @ ''/internal/idempotency/complete''), (''POST'', base_path p v @ ''/internal/idempotency/cleanup''),
      (''GET'', ''/health/live''), (''GET'', ''/health/ready''), (''GET'', ''/health'')]"
    "route_table Payment_app p v = [(''POST'', base_path p v @ ''/payments''), (''GET'', base_path p v @ ''/payments/:id''),
      (''GET'', CHR ''/'' # p @ ''/health/live''), (''GET'', CHR ''/'' # p @ ''/health/ready''), (''GET'', CHR ''/'' # p @ ''/health'')]"
    "route_table Order_app p v = [(''POST'', base_path p v @ ''/internal/orders/validate''), (''GET'', base_path p v @ ''/metrics''),
      (''GET'', CHR ''/'' # p @ ''/health/live''), (''GET'', CHR ''/'' # p @ ''/health/ready''), (''GET'', CHR ''/'' # p @ ''/health'')]"
    "route_table Fraud_app p v = [(''POST'', base_path p v @ ''/internal/fraud/precheck'')]"
  using assms
  by (simp_all add: route_table_def controller_defs documented_path_def own_path_def join_path_def health_routes_def base_path_def)

text \<open>A path below the base is the caller's exactly when prefix and version are the caller's.\<close>

lemma base_path_is:
  assumes "CHR ''/'' \<notin> set p"
  shows "''/api/v1'' = base_path p v \<longleftrightarrow> p = ''api'' \<and> v = ''1''"
proof -
  have "base_path p v = ''/api/v1'' \<longleftrightarrow> p @ CHR ''/'' # (CHR ''v'' # v) = ''api'' @ CHR ''/'' # ''v1''"
    by (simp add: base_path_def)
  also have "\<dots> \<longleftrightarrow> p = ''api'' \<and> v = ''1''"
    by (subst slash_split) (use assms in simp_all)
  finally show ?thesis by auto
qed

lemma call_routes:
  assumes "CHR ''/'' \<notin> set p" "p \<noteq> []" "(a, verb, url) \<in> set internal_calls"
  shows "(verb, url) \<in> set (route_table a p v) \<longleftrightarrow> p = ''api'' \<and> v = ''1''"
proof -
  have "list_all (\<lambda>(a, verb, url). (verb, url) \<in> set (route_table a p v) \<longleftrightarrow> p = ''api'' \<and> v = ''1'') internal_calls"
    unfolding internal_calls_def idem_path_def iop_name.simps append_Cons append_Nil list.pred_inject prod.case route_tables [OF assms(2)]
    by (simp add: base_path_is [OF assms(1)])
  with assms(3) show ?thesis by (auto simp: list_all_iff)
qed

text \<open>
  The clients make the calls of the table: with two transports, or two servers, that agree on every request the
  table lists for the service they call, a client cannot be told apart.
\<close>

definition agree_on :: "app \<Rightarrow> (http_request \<Rightarrow> 'r) \<Rightarrow> (http_request \<Rightarrow> 'r) \<Rightarrow> bool" where
  "agree_on a t1 t2 \<longleftrightarrow> (\<forall>rq. (a, hr_method rq, hr_url rq) \<in> set internal_calls \<longrightarrow> t1 rq = t2 rq)"

lemma request_of_call:
  "hr_method (propagateHeaders inject ctx rq) = hr_method rq" "hr_url (propagateHeaders inject ctx rq) = hr_url rq"
  by (simp_all add: propagateHeaders_def Let_def)

lemma HttpClient_request_agree:
  assumes "agree_on a t1 t2" "(a, meth, url) \<in> set internal_calls"
  shows "HttpClient_request env inject t1 c ctx meth url cfg = HttpClient_request env inject t2 c ctx meth url cfg"
proof -
  have "t1 (propagateHeaders inject ctx rq) = t2 (propagateHeaders inject ctx rq)" if "hr_method rq = meth" "hr_url rq = url" for rq
    using assms that by (simp add: agree_on_def request_of_call)
  then show ?thesis by (simp add: HttpClient_request_def)
qed

lemma serve_agree:
  "agree_on a s1 s2 \<Longrightarrow> agree_on a (serve s1) (serve s2)" "agree_on a s1 s2 \<Longrightarrow> agree_on a (timely delay (serve s1)) (timely delay (serve s2))"
  by (simp_all add: agree_on_def serve_def timely_def fun_eq_iff)

lemma listed_calls:
  "(Merchant_app, ''GET'', ''/api/v1/internal/merchants/validate'') \<in> set internal_calls"
  "(Payment_app, ''POST'', ''/api/v1/payments'') \<in> set internal_calls"
  "(Order_app, ''POST'', ''/api/v1/internal/orders/validate'') \<in> set internal_calls"
  "(Fraud_app, ''POST'', ''/api/v1/internal/fraud/precheck'') \<in> set internal_calls"
  by (simp_all add: internal_calls_def)

lemma clients_call:
  "agree_on Merchant_app t1 t2 \<Longrightarrow> authenticate env t1 c ctx apiKey = authenticate env t2 c ctx apiKey"
  "agree_on Payment_app s1 s2 \<Longrightarrow> forward_payment env c s1 flt ctx body = forward_payment env c s2 flt ctx body"
  "agree_on Order_app (order_server env os) srv \<Longrightarrow>
     call_orders env os c ctx = call_service env (serve srv) c ctx ''/api/v1/internal/orders/validate''"
  "agree_on Fraud_app (fraud_server env fc) srv \<Longrightarrow>
     call_fraud env fc c ctx = call_service env (timely (fraud_delay env) (serve srv)) c ctx ''/api/v1/internal/fraud/precheck''"
  "(Idempotency_app, ''POST'', idem_path op1) \<in> set internal_calls"
proof -
  note agree = HttpClient_request_agree [OF _ listed_calls(1)] HttpClient_request_agree [OF _ listed_calls(3)]
    HttpClient_request_agree [OF _ listed_calls(4)]
  show "authenticate env t1 c ctx apiKey = authenticate env t2 c ctx apiKey" if "agree_on Merchant_app t1 t2"
    by (simp add: authenticate_def HttpClient_get_def agree(1) [OF that])
  show "call_orders env os c ctx = call_service env (serve srv) c ctx ''/api/v1/internal/orders/validate''"
    if "agree_on Order_app (order_server env os) srv"
    by (simp add: call_orders_def call_service_def HttpClient_post_def fun_eq_iff agree(2) [OF serve_agree(1) [OF that]])
  show "call_fraud env fc c ctx = call_service env (timely (fraud_delay env) (serve srv)) c ctx ''/api/v1/internal/fraud/precheck''"
    if "agree_on Fraud_app (fraud_server env fc) srv"
    by (simp add: call_fraud_def call_service_def HttpClient_post_def fun_eq_iff agree(3) [OF serve_agree(2) [OF that]])
  show "(Idempotency_app, ''POST'', idem_path op1) \<in> set internal_calls" by (cases op1) (simp_all add: internal_calls_def)
  assume s: "agree_on Payment_app s1 s2"
  have t: "agree_on Payment_app (\<lambda>rq. serve (\<lambda>rq. fst (s1 rq w)) rq) (\<lambda>rq. serve (\<lambda>rq. fst (s2 rq w)) rq)" for w
    using s by (simp add: agree_on_def serve_def fun_eq_iff)
  have u: "agree_on Payment_app (\<lambda>rq k. case flt of Some (f, executed) \<Rightarrow> Inl f | None \<Rightarrow> serve (\<lambda>rq. fst (s1 rq w)) rq k)
      (\<lambda>rq k. case flt of Some (f, executed) \<Rightarrow> Inl f | None \<Rightarrow> serve (\<lambda>rq. fst (s2 rq w)) rq k)" for w
    using t [of w] by (auto simp: agree_on_def fun_eq_iff split: option.split)
  have "s1 (payment_request env c ctx body) = s2 (payment_request env c ctx body)"
    using s listed_calls(2) by (simp add: agree_on_def payment_request_def request_of_call)
  then show "forward_payment env c s1 flt ctx body = forward_payment env c s2 flt ctx body"
    by (simp add: forward_payment_def HttpClient_post_def fun_eq_iff HttpClient_request_agree [OF u listed_calls(2)]
        split: option.split prod.split bool.split)
qed

text \<open>Ports: where each service listens when \<open>PORT\<close> does not say otherwise.\<close>

fun own_port :: "app \<Rightarrow> int" where
  "own_port Gateway_app = 3000"
| "own_port Merchant_app = 3001"
| "own_port Idempotency_app = 3002"
| "own_port Payment_app = 3003"
| "own_port Order_app = 3004"
| "own_port Fraud_app = 3008"

definition no_port :: "process_env \<Rightarrow> bool" where
  "no_port env \<longleftrightarrow> env ''PORT'' = None \<or> env ''PORT'' = Some [] \<or> env ''PORT'' = Some ''3000''"

lemma port_texts:
  "show_int 3000 = ''3000''" "show_int 3001 = ''3001''" "show_int 3003 = ''3003''" "show_int 3004 = ''3004''" "show_int 3008 = ''3008''"
  by (simp_all add: show_int_def show_nat.simps char_of_def bit_0)

lemma parse_3000: "js_parseInt ''3000'' = js_int 3000"
  using pre_int_show [of 3000] by (simp add: pre_int_def port_texts)

lemma ports_agree:
  assumes "ht_port (httpConfig env) = js_int n" "1 \<le> n"
  shows "gateway_port (httpConfig env) = js_int n" "service_port own env = js_int (if no_port env then own else n)"
    "no_port env \<Longrightarrow> n = 3000"
proof -
  have inj: "js_int a = js_int b \<longleftrightarrow> a = b" for a b by (simp add: js_int_def)
  show "gateway_port (httpConfig env) = js_int n" using assms by (simp add: gateway_port_def js_int_def)
  show "service_port own env = js_int (if no_port env then own else n)"
    using assms(1) by (auto simp: service_port_def no_port_def httpConfig_def load_int_def pre_int_def split: option.splits if_splits)
  have d: "Fin 3000 = js_int 3000" by (simp add: js_int_def)
  show "n = 3000" if "no_port env"
    using assms(1) that by (auto simp: no_port_def httpConfig_def load_int_def pre_int_def parse_3000 d inj split: option.splits)
qed

lemma last_calls:
  "last (app_calls a env) = Listen (if a = Gateway_app then gateway_port (httpConfig env) else service_port (own_port a) env)
     (listen_host (httpConfig env))"
proof -
  have "last (service_calls pipe ex own docs env) = Listen (service_port own env) (listen_host (httpConfig env))" for pipe ex own docs
    by (simp add: service_calls_def Let_def split: prod.split)
  then show ?thesis
    by (cases a) (simp_all add: gateway_calls_def merchant_calls_def idempotency_calls_def payment_calls_def order_calls_def
        fraud_calls_def Let_def split: prod.split)
qed

text \<open>The URL variables with a validated default, the client each configures and the service it means.\<close>

definition default_targets :: "(string \<times> InternalService \<times> app) list" where
  "default_targets = [(''GATEWAY_URL'', GATEWAY, Gateway_app), (''MERCHANT_SERVICE_URL'', MERCHANT, Merchant_app),
     (''PAYMENT_SERVICE_URL'', PAYMENT, Payment_app), (''ORDER_SERVICE_URL'', ORDER, Order_app)]"

lemma default_url:
  assumes "servicesSchema is_url env = Some x" "(var, service, a) \<in> set default_targets" "env var = None"
  shows "registry (services_config.truncate (services_settings_of fraudUrl x)) service = ''http://localhost:'' @ show_int (own_port a)"
proof -
  have d: "z_default d None = Some y \<longleftrightarrow> y = d" for d y by (auto simp: z_default_def)
  have "list_all (\<lambda>(var, service, a). env var = None \<longrightarrow>
      registry (services_config.truncate (services_settings_of fraudUrl x)) service = ''http://localhost:'' @ show_int (own_port a)) default_targets"
    using servicesSchemaD(1-4) [OF assms(1)]
    by (auto simp: default_targets_def services_settings_of_def services_config.truncate_def d port_texts str_or_def)
  with assms(2,3) show ?thesis unfolding list_all_iff by fast
qed

lemma gateway_idempotency_url:
  "getGatewayConfig is_url env = Inr g \<Longrightarrow> env ''IDEMPOTENCY_SERVICE_URL'' = Some (gw_IDEMPOTENCY_SERVICE_URL g)"
  by (auto simp: getGatewayConfig_def gatewayConfigSchema_def z_url_def bind_eq_Some_conv split: option.splits if_splits)

text \<open>
  Under the default prefix the middleware lets only the health routes of the gateway pass without a key.
  It decides by the path alone, so under a prefix such as \<open>health/v1\<close> the payment route passes too.
\<close>

lemma keyless_routes:
  "list_all (\<lambda>(verb, url). auth_skips url \<longleftrightarrow> url \<in> {''/api/health'', ''/api/health/live'', ''/api/health/ready''})
     (route_table Gateway_app ''api'' ''1'')"
  by code_simp

lemma health_prefix_opens_payments:
  "(''POST'', ''/health/v1/payments'') \<in> set (route_table Gateway_app ''health'' ''1'') \<and> auth_skips ''/health/v1/payments''"
  by code_simp

text \<open>The documented rule itself satisfies the hypothesis, and the sample environment has the default prefix.\<close>

lemma nest_routing_documented: "nest_routing documented_path"
  by (simp add: nest_routing_def)

lemma example_prefix:
  assumes "validate is_url example_env = Inr x"
  shows "parse_prefix (str_or (Some (API_PREFIX (e_http x))) ''api/v1'') = (''api'', ''1'')"
proof -
  have n: "example_env ''API_PREFIX'' = None" by code_simp
  have p: "parse_prefix ''api/v1'' = (''api'', ''1'')" by code_simp
  have "API_PREFIX (e_http x) = ''api/v1''"
    using httpSchemaD(3) [OF environmentSchemaD(4) [OF validateD [OF assms]]] by (simp add: n z_default_def)
  then show ?thesis by (simp add: str_or_def p)
qed

section \<open>Properties\<close>

text \<open>
  C18. The paths written into the clients are the paths the services register: every call between two
  services, and the client's payment request, has a handler exactly when \<open>API_PREFIX\<close> stands for prefix
  \<open>api\<close> and version \<open>1\<close>, as its default does. Every other value starts all services and breaks every call.
\<close>

theorem calls_reach_handlers:
  assumes "validate is_url env = Inr x" "process_holds env x env'" "nest_routing path"
    and "parse_prefix (str_or (Some (API_PREFIX (e_http x))) ''api/v1'') = (p, v)" "v \<noteq> []" "(a, verb, url) \<in> set internal_calls"
  shows "registers path a env' verb url \<longleftrightarrow> p = ''api'' \<and> v = ''1''"
proof -
  have "parse_prefix (ht_apiPrefix (httpConfig env')) = (p, v)"
    using assms(4) loaded(4) [OF assms(1,2)] by (simp add: http_settings_def)
  from registers_table [OF assms(3) this assms(5)] call_routes [OF parse_prefix_parts(1,3) [OF assms(4)] assms(6)]
  show ?thesis by simp
qed

theorem calls_reach_handlers_witness:
  "\<exists>x. validate (\<lambda>s. s \<noteq> []) example_env = Inr x \<and> process_holds example_env x example_env \<and>
     registers documented_path Payment_app example_env ''POST'' ''/api/v1/payments''"
proof -
  obtain x where x: "validate (\<lambda>s. s \<noteq> []) example_env = Inr x" by (rule example_valid)
  have c: "(Payment_app, ''POST'', ''/api/v1/payments'') \<in> set internal_calls" by (simp add: internal_calls_def)
  from calls_reach_handlers [OF x process_holds_refl nest_routing_documented example_prefix [OF x] _ c] x process_holds_refl
  show ?thesis by auto
qed

text \<open>
  C19. The endpoints for operators. Only the merchant and the idempotency service answer on \<open>/health\<close>; gateway,
  payment and order service have it below their prefix and the fraud service not at all. No service
  registers \<open>/metrics\<close>, where Prometheus asks the order service: its metrics are below the versioned
  prefix. The relay's own server does answer there.
\<close>

theorem operational_endpoints:
  assumes "validate is_url env = Inr x" "process_holds env x env'" "nest_routing path"
    and "parse_prefix (str_or (Some (API_PREFIX (e_http x))) ''api/v1'') = (p, v)" "v \<noteq> []"
  shows "(registers path a env' ''GET'' ''/health'' \<longleftrightarrow> a \<in> {Merchant_app, Idempotency_app}) \<and>
    (registers path a env' ''GET'' (CHR ''/'' # p @ ''/health'') \<longleftrightarrow> a \<in> {Gateway_app, Payment_app, Order_app}) \<and>
    \<not> registers path a env' ''GET'' ''/metrics'' \<and> registers path Order_app env' ''GET'' (base_path p v @ ''/metrics'') \<and>
    metrics_server m ''/metrics'' ''GET'' = (200, m)"
proof -
  have "parse_prefix (ht_apiPrefix (httpConfig env')) = (p, v)"
    using assms(4) loaded(4) [OF assms(1,2)] by (simp add: http_settings_def)
  note r = registers_table [OF assms(3) this assms(5)] and t = route_tables [OF parse_prefix_parts(3) [OF assms(4)]]
  note slash = parse_prefix_parts(1,2) [OF assms(4)]
  have n: "p @ CHR ''/'' # w \<noteq> u" if "CHR ''/'' \<notin> set u" for w u using that by auto
  have b: "base_path p v \<noteq> ''/health''" "base_path p v \<noteq> ''/metrics''" "base_path p v \<noteq> CHR ''/'' # p @ ''/health''" "base_path p v \<noteq> []"
    by (auto simp: base_path_def n)
  show ?thesis
    unfolding r by (cases a) (auto simp: t b b [symmetric] n metrics_server_def)
qed

theorem operational_endpoints_witness:
  "\<exists>x. validate (\<lambda>s. s \<noteq> []) example_env = Inr x \<and> process_holds example_env x example_env \<and>
     \<not> registers documented_path Gateway_app example_env ''GET'' ''/health'' \<and>
     registers documented_path Gateway_app example_env ''GET'' ''/api/health''"
proof -
  obtain x where x: "validate (\<lambda>s. s \<noteq> []) example_env = Inr x" by (rule example_valid)
  from operational_endpoints [OF x process_holds_refl nest_routing_documented example_prefix [OF x], of Gateway_app] x process_holds_refl
  show ?thesis by auto
qed

text \<open>
  C20. Where the services listen, and which of these ports the callers know. Every service that starts gets a
  positive integer port: without \<open>PORT\<close>, or with the gateway's 3000, these are six different ports; with any
  other value all six services listen on that one. The URLs of the internal clients of gateway, merchant,
  payment and order service name these ports by default, and so does the fraud client's, which no schema
  validates. The idempotency service has no default URL: a gateway that starts calls exactly the URL it is
  given, and without one it does not start.
\<close>

theorem listening_ports:
  assumes "validate is_url env = Inr x" "process_holds env x env'"
  shows "last (app_calls a env') = Listen (js_int (if no_port env' then own_port a else PORT (e_http x))) (listen_host (httpConfig env')) \<and>
    1 \<le> (if no_port env' then own_port a else PORT (e_http x)) \<and> distinct (map own_port apps) \<and> listen_host (httpConfig env') \<noteq> [] \<and>
    ((var, service, b) \<in> set default_targets \<and> env var = None \<longrightarrow>
       registry (services_config.truncate (servicesConfig env')) service = ''http://localhost:'' @ show_int (own_port b)) \<and>
    (env' ''FRAUD_SERVICE_URL'' \<in> {None, Some []} \<longrightarrow>
       registry (services_config.truncate (servicesConfig env')) FRAUD = ''http://localhost:'' @ show_int (own_port Fraud_app)) \<and>
    (case getGatewayConfig is_url env' of
       Inr g \<Rightarrow> env' ''IDEMPOTENCY_SERVICE_URL'' = Some (gw_IDEMPOTENCY_SERVICE_URL g)
     | Inl err \<Rightarrow> exit_code (fst (bootstrap (Inr ()) (\<lambda>env. rbind (getGatewayConfig is_url env) (\<lambda>g. Inr ())) listen Gateway_app env')) = Some 1)"
proof -
  note e = environmentSchemaD [OF validateD [OF assms(1)]] and l = loaded [OF assms]
  have p: "ht_port (httpConfig env') = js_int (PORT (e_http x))" by (simp add: l(4) http_settings_def)
  have b: "1 \<le> PORT (e_http x)" by (rule load_int_bound [OF httpSchemaD(1) [OF e(4)]])
  note q = ports_agree [OF p b]
  have "last (app_calls a env') = Listen (js_int (if no_port env' then own_port a else PORT (e_http x))) (listen_host (httpConfig env'))"
    using q(3) by (auto simp: last_calls q(1,2))
  moreover have "1 \<le> own_port a" by (cases a) simp_all
  moreover have "distinct (map own_port apps)" by (simp add: apps_def)
  moreover have "listen_host (httpConfig env') \<noteq> []" by (simp add: listen_host_def str_or_nonempty)
  moreover have "case getGatewayConfig is_url env' of Inr g \<Rightarrow> env' ''IDEMPOTENCY_SERVICE_URL'' = Some (gw_IDEMPOTENCY_SERVICE_URL g)
     | Inl err \<Rightarrow> exit_code (fst (bootstrap (Inr ()) (\<lambda>env. rbind (getGatewayConfig is_url env) (\<lambda>g. Inr ())) listen Gateway_app env')) = Some 1"
    using gateway_idempotency_url [of is_url env'] by (auto simp: bootstrap_def exit_code_def split: sum.split)
  moreover have "env' ''FRAUD_SERVICE_URL'' \<in> {None, Some []} \<Longrightarrow>
       registry (services_config.truncate (servicesConfig env')) FRAUD = ''http://localhost:'' @ show_int (own_port Fraud_app)"
    by (auto simp: servicesConfig_def services_config.truncate_def str_or_def port_texts)
  ultimately show ?thesis using b default_url [OF e(8), of var service b] by (simp add: l(8))
qed

theorem listening_ports_witness:
  "\<exists>x. validate (\<lambda>s. s \<noteq> []) example_env = Inr x \<and> process_holds example_env x example_env \<and>
     last (app_calls Order_app example_env) = Listen (js_int 3004) (listen_host (httpConfig example_env))"
proof -
  obtain x where x: "validate (\<lambda>s. s \<noteq> []) example_env = Inr x" by (rule example_valid)
  have "example_env ''PORT'' = Some []" by code_simp
  then have "no_port example_env" by (simp add: no_port_def)
  with listening_ports [OF x process_holds_refl, of Order_app] x process_holds_refl show ?thesis by auto
qed

end
