(* ===== verification/Spec2Isabelle.thy ===== *)
theory Spec2Isabelle
  imports Prelude Errors PaymentDomain Orders Fraud Http Serializer PaymentService Producer OutboxRelay Relay Scheduler Inbox Consumer Services RateLimit Idempotency Merchant Gateway Pipeline Config Health Database Logger Metrics Delivery Contracts Conformance Routes Bootstrap
begin

text \<open>
  A model of SurgePay, a payment platform of NestJS services in TypeScript.

  The program. A client's \<open>POST /api/v1/payments\<close> enters \<open>apps/gateway\<close>: a tracing middleware gives it
  a context, the API key is verified with \<open>apps/merchant-service\<close>, a Lua script in Redis limits the
  merchant's rate, an interceptor locks its idempotency key with \<open>apps/idempotency-service\<close>, and the
  proxy calls \<open>apps/payment-service\<close>. There \<open>createPayment\<close> checks for a duplicate, asks
  \<open>apps/order-service\<close> and \<open>apps/fraud-service\<close> over \<open>packages/common/http\<close>, and stores the payment
  and an outbox event in one transaction. \<open>apps/outbox-relay\<close> polls the outbox and publishes to Kafka
  with \<open>packages/common/src/messaging\<close>, whose consumer base class delivers each event through an inbox,
  with retries and a dead-letter topic. Errors of all of them pass one exception filter.

  The theories.
  \<^item> \<open>Prelude\<close>: JavaScript values, strings, results, tables as lists of rows, state-passing procedures
    with a Hoare triple (\<open>valid\<close>), and the locale \<open>status_machine\<close>.
  \<^item> \<open>Errors\<close>: \<open>packages/common/src/errors\<close>, the exception filter. \<open>Services\<close> adds what is sent, \<open>Conformance\<close>
    when that is an \<open>ApiErrorResponse\<close>.
  \<^item> \<open>PaymentDomain\<close>, \<open>PaymentService\<close>: state machine, entities, repositories, the service stage by
    stage and its controller. \<open>Orders\<close>, \<open>Fraud\<close>: the two services it asks.
  \<^item> \<open>Http\<close>: registry, header propagation, retry policy, error translation, client.
  \<^item> \<open>Services\<close>: controllers behind the filter as servers, and the payment service against them.
  \<^item> \<open>Serializer\<close>, \<open>Producer\<close>: envelopes, topics, publishing; the relay's publisher.
  \<^item> \<open>OutboxRelay\<close>, \<open>Relay\<close>, \<open>Scheduler\<close>: repository, polling cycle and recovery of several relays as
    a step relation with crashes, timer chain. The locale \<open>retry_budget\<close> is the contract of a row.
  \<^item> \<open>Inbox\<close>, \<open>Consumer\<close>: one delivery with an error possible and other workers active at every await, the
    offset commit included; \<open>deliver_spec\<close> is the specification an undisturbed one refines, and the deliveries
    of one message whose handlers fail are another \<open>retry_budget\<close>.
  \<^item> \<open>RateLimit\<close>: the script over a sorted set, against a sliding-window log.
  \<^item> \<open>Idempotency\<close>: request hash, Redis repository, service. The locale \<open>expiring_lock\<close> is the contract
    of a lock with a lifetime, interpreted on the service's commands.
  \<^item> \<open>Merchant\<close>: API keys, the validation endpoint, the gateway's client and middleware.
  \<^item> \<open>Gateway\<close>: tracing, the idempotency client and interceptor, the controller behind them, the route.
  \<^item> \<open>Pipeline\<close>: the whole path of a request, from the client's headers to the payment table.
  \<^item> \<open>Config\<close>: the schemas that validate the environment, the loaders that read it again, the settings
    and clients built from them; the locale \<open>schema_field\<close> is the contract between the two readers of a variable. \<open>Health\<close>: indicators, readiness and its endpoints. \<open>Database\<close>: connection
    URL, the factory of database clients and its shutdown, in two steps with the awaited disconnects between. \<open>Logger\<close>: from a call to a line.
    \<open>Metrics\<close>: the declared metrics, their registration and the calls of every method.
  \<^item> \<open>Delivery\<close>: the way of an event from the payment's transaction over outbox, relay and broker to the consumer
    of \<open>apps/order-service\<close>, all its deliveries, its dead letter and the replay of that.
  \<^item> \<open>Contracts\<close>: the interfaces of \<open>packages/events\<close> and \<open>packages/contracts\<close> as types of JSON values;
    \<open>Conformance\<close>: what the services really send, errors included, against them.
  \<^item> \<open>Routes\<close>: the controllers as their decorators declare them, with the documented answers of the API;
    \<open>Bootstrap\<close>: every \<open>main.ts\<close> (environment file, configuring calls, prefix and version, ports, the
    relay's metrics server), and where the routes, the probes and the callers of the services meet; that the
    callers are the modelled clients is \<open>clients_call\<close>.

  How the code is read. A class is a record of what it keeps and one definition per method, under the
  method's name where it is free. A method that awaits is a procedure on the state it shares; a thrown
  value is the left of a sum, so every \<open>throw\<close>, early return and \<open>catch\<close> is a branch. A table is the list
  of its rows with the unique keys of its Prisma schema checked on every write, and a transaction that
  fails leaves it as it was. Redis is a map with expiry instants. JavaScript numbers are rationals with
  \<open>NaN\<close> and infinities (\<open>jsnum\<close>); \<open>undefined\<close> is \<open>None\<close> where a property may be missing. Library code
  is an argument: SHA-256, \<open>JSON.stringify\<close> of numbers, UUIDs and clocks, axios' transport, kafkajs,
  class-validator's \<open>IsUUID\<close>. What is assumed of it is a hypothesis of the theorem that needs it.

  What is shown. Safety: a stored payment carries the verified merchant, and nothing reaches the payment
  service around the gateway's checks (\<open>Pipeline\<close>); payments and events are stored together or not at all
  and stay paired under any interleaving (\<open>PaymentService\<close>); one holder per idempotency key
  (\<open>Idempotency\<close>); an offset is committed only for a finished event (\<open>Consumer\<close>); an event is
  \<open>PUBLISHED\<close> only when the broker acknowledged it (\<open>Relay\<close>); while no other worker, failing database call or
  failing commit interferes and the handler fails at most as often as the limit allows, the handler of a
  payment's event succeeds once, however often the event is delivered (\<open>Delivery\<close>): the code does not
  promise more, a failed commit makes the handler run again (\<open>Consumer.commit_failure_reruns\<close>). Equivalence and refinement: the rate
  limiter is the sliding log, the consumer is its specification. Round trips: a replay is the first
  response, a serialized envelope and a created payment are read back, and a dead letter gives back the
  message it was made of. Bounds and liveness: attempts,
  in-flight events, batches; released keys, recovered claims, an admission after the announced reset.
  Error behaviour: what a client is told in each case, including cases that look like mistakes of the
  code (a lost race is a 500, a poison event costs its whole batch, a repeated request identifier is
  never limited, a lost answer ends in a 409).

  Configuration: start-up accepts an exact set of environments, the loaders then find the validated
  values, and the settings discharge the hypotheses of the relay's and the rate limiter's theorems.
  Operation: when a service reports itself ready, how long a database client lives, on which ports the
  services listen, and under which prefix the calls between them reach their handlers (\<open>Bootstrap\<close>).

  Bounds. No definition runs on fuel that cuts off behaviour: the retry policy and the relay's batch loop
  recurse on the remaining attempts the code itself counts (ten batches a cycle), and \<open>deserialize\<close> is a
  partial function that is proved total.

  Not modelled: spans, and where the services log and count (written, never read by the program); what
  the log and metrics libraries do with a call; the providers of NestJS modules and how NestJS and
  Express dispatch (the rule by which a route gets its path is the hypothesis \<open>nest_routing\<close>); kafkajs' group
  membership, the poll loop and the connecting and disconnecting of its clients; characters beyond 8
  bits; numbers beyond \<open>2 ^ 53\<close>, which JavaScript rounds; the scripts and benchmarks.
\<close>

end
